theory Spec2Isabelle
  imports
    Complex_Main
    "HOL-Library.Multiset"
    "HOL-Library.Char_ord"
    "HOL-Library.List_Lexorder"
    "HOL-Library.Sublist"
begin

section \<open>Pattern matching: the fragment of Python's \<open>re\<close> that the loader uses\<close>

text \<open>
  Both extraction patterns of \<^verbatim>\<open>database_utility.py\<close> are sequences of literal text and
  of repeated character classes, some of them captured. A pattern is therefore a list of
  tokens. Text is a \<open>string\<close>, a character standing for its code point; the model
  covers the code points below 256.

  \<^item> \<^verbatim>\<open>\d\<close> is \<open>Digit\<close>, \<^verbatim>\<open>[^']\<close> is \<open>NotQuote\<close>, \<^verbatim>\<open>\s\<close> is \<open>Space\<close>
    (for a \<^verbatim>\<open>str\<close> pattern the white space below 256 is 0x09-0x0D, 0x1C-0x1F, 0x20,
    0x85 and 0xA0), \<^verbatim>\<open>[0-9.]\<close> is \<open>ScoreChar\<close>;
  \<^item> \<^verbatim>\<open>+\<close> is \<open>Greedy1\<close>, \<^verbatim>\<open>*\<close> is \<open>Greedy0\<close>, \<^verbatim>\<open>*?\<close> is \<open>Lazy0\<close>.
\<close>

datatype cls = Digit | NotQuote | Space | ScoreChar

fun in_cls :: "cls \<Rightarrow> char \<Rightarrow> bool" where
  "in_cls Digit c = (c \<in> set ''0123456789'')"
| "in_cls NotQuote c = (c \<noteq> CHR 0x27)"
| "in_cls Space c =
     (c \<in> set [CHR 0x09, CHR 0x0A, CHR 0x0B, CHR 0x0C, CHR 0x0D,
                 CHR 0x1C, CHR 0x1D, CHR 0x1E, CHR 0x1F, CHR 0x20, CHR 0x85, CHR 0xA0])"
| "in_cls ScoreChar c = (c \<in> set ''0123456789.'')"

datatype quant = Greedy1 | Greedy0 | Lazy0

datatype tok = Lit string | Cap cls quant | Rep cls quant

text \<open>
  The matcher backtracks as the library does: a repetition offers its possible lengths in
  order of preference (longest first when greedy, shortest first when lazy), and the first
  length for which the rest of the pattern matches is taken.
\<close>

fun first_some :: "('a \<Rightarrow> 'b option) \<Rightarrow> 'a list \<Rightarrow> 'b option" where
  "first_some f [] = None"
| "first_some f (x # xs) = (case f x of None \<Rightarrow> first_some f xs | Some y \<Rightarrow> Some y)"

fun attempts :: "quant \<Rightarrow> nat \<Rightarrow> nat list" where
  "attempts Greedy1 n = rev [1..<Suc n]"
| "attempts Greedy0 n = rev [0..<Suc n]"
| "attempts Lazy0 n = [0..<Suc n]"

text \<open>
  \<open>re_match pat s\<close> is \<^verbatim>\<open>pattern.match\<close> anchored at the start of \<open>s\<close>: the captured
  groups in order and the text left after the match.
\<close>

fun re_match :: "tok list \<Rightarrow> string \<Rightarrow> (string list \<times> string) option" where
  "re_match [] s = Some ([], s)"
| "re_match (Lit p # ts) s =
     (if take (length p) s = p then re_match ts (drop (length p) s) else None)"
| "re_match (Cap c q # ts) s =
     first_some
       (\<lambda>k. case re_match ts (drop k s) of
               None \<Rightarrow> None
             | Some (gs, r) \<Rightarrow> Some (take k s # gs, r))
       (attempts q (length (takeWhile (in_cls c) s)))"
| "re_match (Rep c q # ts) s =
     first_some (\<lambda>k. re_match ts (drop k s))
       (attempts q (length (takeWhile (in_cls c) s)))"

text \<open>
  \<^verbatim>\<open>re.finditer\<close>: the matches from left to right, not overlapping. Where no match starts,
  the scan moves on by one character and reports nothing. (An empty match is reported and
  the scan moves on by one character; neither pattern below can match the empty text.)
\<close>

function finditer :: "tok list \<Rightarrow> string \<Rightarrow> string list list" where
  "finditer pat s =
     (case re_match pat s of
        Some (gs, r) \<Rightarrow>
          (if length r < length s then gs # finditer pat r
           else gs # (case s of [] \<Rightarrow> [] | _ # cs \<Rightarrow> finditer pat cs))
      | None \<Rightarrow> (case s of [] \<Rightarrow> [] | _ # cs \<Rightarrow> finditer pat cs))"
  by pat_completeness auto
termination
  by (relation "measure (\<lambda>(pat, s). length s)") auto

declare finditer.simps [simp del]

text \<open>
  The pattern of \<^verbatim>\<open>_insert_actors\<close>:
  \<^verbatim>\<open>INSERT INTO actors VALUES\((\d+),(\d+),'([^']+)','([^']+)'\)\<close>
\<close>

definition actor_pattern :: "tok list" where
  "actor_pattern =
     [Lit ''INSERT INTO actors VALUES('',
      Cap Digit Greedy1, Lit '','',
      Cap Digit Greedy1, Lit [CHR '','', CHR 0x27],
      Cap NotQuote Greedy1, Lit [CHR 0x27, CHR '','', CHR 0x27],
      Cap NotQuote Greedy1, Lit [CHR 0x27, CHR '')'']]"

text \<open>
  The pattern of \<^verbatim>\<open>_insert_movies\<close>:
  \<^verbatim>\<open>INSERT INTO movies VALUES\((\d+),'([^']+)','([^']*?)','([^']*?)'\s*,(\d+),\<close>
  \<^verbatim>\<open>'([^']*?)','([^']*?)'\s*,(\d+),'([^']*?)','([^']*?)'\s*,([0-9.]+),(\d+),([0-9.]+)\)\<close>
\<close>

definition movie_pattern :: "tok list" where
  "movie_pattern =
     [Lit ''INSERT INTO movies VALUES('',
      Cap Digit Greedy1, Lit [CHR '','', CHR 0x27],
      Cap NotQuote Greedy1, Lit [CHR 0x27, CHR '','', CHR 0x27],
      Cap NotQuote Lazy0, Lit [CHR 0x27, CHR '','', CHR 0x27],
      Cap NotQuote Lazy0, Lit [CHR 0x27], Rep Space Greedy0, Lit '','',
      Cap Digit Greedy1, Lit [CHR '','', CHR 0x27],
      Cap NotQuote Lazy0, Lit [CHR 0x27, CHR '','', CHR 0x27],
      Cap NotQuote Lazy0, Lit [CHR 0x27], Rep Space Greedy0, Lit '','',
      Cap Digit Greedy1, Lit [CHR '','', CHR 0x27],
      Cap NotQuote Lazy0, Lit [CHR 0x27, CHR '','', CHR 0x27],
      Cap NotQuote Lazy0, Lit [CHR 0x27], Rep Space Greedy0, Lit '','',
      Cap ScoreChar Greedy1, Lit '','',
      Cap Digit Greedy1, Lit '','',
      Cap ScoreChar Greedy1, Lit '')'']"

section \<open>Python conversions\<close>

text \<open>
  The interpreter and the store are taken with their default limits: Python 3.11 or later
  converts integer text of at most 4300 digits, SQLite takes a text of at most
  1,000,000,000 bytes and a \<^verbatim>\<open>LIKE\<close> pattern of at most 50,000 bytes.
\<close>

datatype error =
    FileNotFoundError string
  | ValueError
  | IndexError
  | KeyError
  | OverflowError
  | DataError
  | OperationalError

definition bind_err :: "error + 'a \<Rightarrow> ('a \<Rightarrow> error + 'b) \<Rightarrow> error + 'b" where
  "bind_err r f = (case r of Inl e \<Rightarrow> Inl e | Inr x \<Rightarrow> f x)"

definition digit_val :: "char \<Rightarrow> int" where
  "digit_val c = int (of_char c) - 48"

definition decimal :: "string \<Rightarrow> int" where
  "decimal s = foldl (\<lambda>n c. 10 * n + digit_val c) 0 s"

text \<open>
  \<^verbatim>\<open>int(s)\<close> on the text of a \<^verbatim>\<open>\d+\<close> group: the decimal value, of any size, of a text
  of at most 4300 digits (leading zeros counted). A longer text raises \<^verbatim>\<open>ValueError\<close>,
  Python's limit on the conversion of integer text; so does text that is not a number
  (the loader never passes any).
\<close>

definition py_int :: "string \<Rightarrow> error + int" where
  "py_int s =
     (if s \<noteq> [] \<and> list_all (in_cls Digit) s \<and> length s \<le> 4300 then Inr (decimal s)
      else Inl ValueError)"

text \<open>
  A Python \<^verbatim>\<open>float\<close> and a \<^verbatim>\<open>REAL\<close> of the store are both an IEEE 754 double: a real
  number that the format holds, or infinity (no negative infinity and no NaN arises in this
  program). Infinity is above every number.
\<close>

datatype sql_real = Finite real | Infinity

instantiation sql_real :: linorder
begin

definition less_eq_sql_real :: "sql_real \<Rightarrow> sql_real \<Rightarrow> bool" where
  "less_eq_sql_real x y =
     (case y of
        Infinity \<Rightarrow> True
      | Finite b \<Rightarrow> (case x of Infinity \<Rightarrow> False | Finite a \<Rightarrow> a \<le> b))"

definition less_sql_real :: "sql_real \<Rightarrow> sql_real \<Rightarrow> bool" where
  "less_sql_real x y = (x \<le> y \<and> \<not> y \<le> x)"

instance
  by standard (auto simp: less_eq_sql_real_def less_sql_real_def split: sql_real.splits)

end

text \<open>
  Rounding to the nearest double, ties to the even mantissa. A number \<open>x\<close> other than 0
  with \<open>2 ^ e \<le> \<bar>x\<bar> < 2 ^ (e + 1)\<close> is rounded to a multiple of \<open>2 ^ (e - 52)\<close> (53
  significant bits); below \<open>2 ^ - 1022\<close> the step stays \<open>2 ^ - 1074\<close>. A result of
  \<open>2 ^ 1024\<close> or more is infinity.
\<close>

definition round_half_even :: "real \<Rightarrow> int" where
  "round_half_even y =
     (let f = \<lfloor>y\<rfloor>
      in if y - real_of_int f < 1 / 2 then f
         else if 1 / 2 < y - real_of_int f then f + 1
         else if even f then f else f + 1)"

definition nearest_double :: "real \<Rightarrow> real" where
  "nearest_double x =
     (if x = 0 then 0
      else let e = max \<lfloor>log 2 \<bar>x\<bar>\<rfloor> (- 1022);
               q = 2 powi (e - 52)
           in q * real_of_int (round_half_even (x / q)))"

definition to_double :: "real \<Rightarrow> sql_real" where
  "to_double x = (if 2 ^ 1024 \<le> nearest_double x then Infinity else Finite (nearest_double x))"

text \<open>
  \<^verbatim>\<open>float(s)\<close> on the text of a \<^verbatim>\<open>[0-9.]+\<close> group: digits with at most one point and at
  least one digit, otherwise \<^verbatim>\<open>ValueError\<close>. The result is the double nearest to the
  decimal number that the text writes, infinity when that number is too large.
\<close>

definition float_syntax :: "string \<Rightarrow> bool" where
  "float_syntax s =
     (let ip = takeWhile (\<lambda>c. c \<noteq> CHR ''.'') s;
          fp = drop 1 (dropWhile (\<lambda>c. c \<noteq> CHR ''.'') s)
      in list_all (in_cls Digit) ip \<and> list_all (in_cls Digit) fp \<and> (ip \<noteq> [] \<or> fp \<noteq> []))"

definition float_value :: "string \<Rightarrow> real" where
  "float_value s =
     (let ip = takeWhile (\<lambda>c. c \<noteq> CHR ''.'') s;
          fp = drop 1 (dropWhile (\<lambda>c. c \<noteq> CHR ''.'') s)
      in real_of_int (decimal ip) + real_of_int (decimal fp) / 10 ^ length fp)"

definition py_float :: "string \<Rightarrow> error + sql_real" where
  "py_float s = (if float_syntax s then Inr (to_double (float_value s)) else Inl ValueError)"

section \<open>The storage engine (SQLite through \<open>sqlite3\<close>)\<close>

text \<open>
  The two tables of \<^verbatim>\<open>_initialize_database\<close>. Every column is \<^verbatim>\<open>NOT NULL\<close> and the loader
  never binds \<^verbatim>\<open>None\<close>, so a row is a record of plain values. \<^verbatim>\<open>id INTEGER PRIMARY KEY\<close>
  makes \<open>id\<close> the row id: a table holds its rows in ascending \<open>id\<close>, no two rows sharing one.
\<close>

record movie =
  m_id :: int
  m_imdb_id :: string
  m_title :: string
  m_director :: string
  m_year :: int
  m_rating :: string
  m_genres :: string
  m_runtime :: int
  m_country :: string
  m_language :: string
  m_imdb_score :: sql_real
  m_imdb_votes :: int
  m_metacritic_score :: sql_real

record actor =
  a_id :: int
  a_movie_id :: int
  a_imdb_id :: string
  a_name :: string

record database =
  movies :: "movie list"
  actors :: "actor list"

definition empty_tables :: database where
  "empty_tables = \<lparr>movies = [], actors = []\<rparr>"

text \<open>
  A connection. SQLite checks \<^verbatim>\<open>FOREIGN KEY\<close> clauses only on a connection on which
  \<^verbatim>\<open>PRAGMA foreign_keys = ON\<close> was run; \<^verbatim>\<open>sqlite3.connect\<close> returns a connection with the
  setting off, and \<^verbatim>\<open>database_utility.py\<close> never runs the pragma.
\<close>

record connection =
  foreign_keys :: bool

definition sqlite3_connect :: connection where
  "sqlite3_connect = \<lparr>foreign_keys = False\<rparr>"

datatype integrity_error = Unique_failed string | Foreign_key_failed

text \<open>
  Binding the parameters of a statement. An integer must fit SQLite's 64-bit integer, or
  \<^verbatim>\<open>sqlite3\<close> raises \<^verbatim>\<open>OverflowError\<close>. A text is bound as its UTF-8 bytes (one byte for a
  code point below 128, two for the others below 256): \<^verbatim>\<open>sqlite3\<close> raises
  \<^verbatim>\<open>OverflowError\<close> for more than \<open>2 ^ 31 - 1\<close> bytes, and SQLite refuses more than
  1,000,000,000 bytes, which \<^verbatim>\<open>sqlite3\<close> raises as \<^verbatim>\<open>DataError\<close>. A float always binds.
  (The same limit holds for a row as a whole; the inserts below are not checked against
  it, and the statements about the loader keep their rows smaller.)
\<close>

definition bind_int :: "int \<Rightarrow> error + int" where
  "bind_int n = (if - (2 ^ 63) \<le> n \<and> n < 2 ^ 63 then Inr n else Inl OverflowError)"

definition utf8_length :: "string \<Rightarrow> nat" where
  "utf8_length s = sum_list (map (\<lambda>c. if of_char c < (128 :: nat) then 1 else 2) s)"

definition bind_text :: "string \<Rightarrow> error + string" where
  "bind_text s =
     (if 2 ^ 31 \<le> utf8_length s then Inl OverflowError
      else if 1000000000 < utf8_length s then Inl DataError
      else Inr s)"

definition exec_insert_movie :: "connection \<Rightarrow> movie \<Rightarrow> database \<Rightarrow> integrity_error + database" where
  "exec_insert_movie conn m db =
     (if m_id m \<in> m_id ` set (movies db) then Inl (Unique_failed ''movies.id'')
      else Inr (db\<lparr>movies := insort_key m_id m (movies db)\<rparr>))"

definition exec_insert_actor :: "connection \<Rightarrow> actor \<Rightarrow> database \<Rightarrow> integrity_error + database" where
  "exec_insert_actor conn a db =
     (if a_id a \<in> a_id ` set (actors db) then Inl (Unique_failed ''actors.id'')
      else if foreign_keys conn \<and> a_movie_id a \<notin> m_id ` set (movies db)
      then Inl Foreign_key_failed
      else Inr (db\<lparr>actors := insort_key a_id a (actors db)\<rparr>))"

section \<open>The loader\<close>

text \<open>
  What the process can see: the two input files, the tables of the storage file, and the
  lines printed so far. An input file is absent (\<open>None\<close>) or stands with the text that
  \<^verbatim>\<open>f.read()\<close> gives: the content decoded from UTF-8, every line end read as a new-line
  character.
\<close>

datatype line =
    Tables_created
  | Warning_movie int integrity_error
  | Warning_actor string integrity_error
  | Inserted_movies nat
  | Inserted_actors nat
  | Data_inserted

record world =
  actors_sql :: "string option"
  movies_sql :: "string option"
  storage :: database
  stdout :: "line list"

type_synonym load_state = "database \<times> nat \<times> line list"

text \<open>
  The \<^verbatim>\<open>for match in matches\<close> loops. An exception that the body does not catch ends the
  loop and leaves the state as it was when raised.
\<close>

fun for_matches ::
  "(string list \<Rightarrow> load_state \<Rightarrow> error option \<times> load_state) \<Rightarrow> string list list \<Rightarrow>
     load_state \<Rightarrow> error option \<times> load_state" where
  "for_matches body [] st = (None, st)"
| "for_matches body (g # gs) st =
     (case body g st of
        (Some e, st') \<Rightarrow> (Some e, st')
      | (None, st') \<Rightarrow> for_matches body gs st')"

text \<open>
  The body of the loop of \<^verbatim>\<open>_insert_movies\<close>: the conversions of the argument tuple, then
  \<^verbatim>\<open>cursor.execute\<close> (binding the thirteen parameters in their order, then the insert),
  with \<^verbatim>\<open>sqlite3.IntegrityError\<close> caught.
\<close>

definition movie_of_groups :: "string list \<Rightarrow> error + movie" where
  "movie_of_groups groups =
     (case groups of
        [g0, g1, g2, g3, g4, g5, g6, g7, g8, g9, g10, g11, g12] \<Rightarrow>
          bind_err (py_int g0) (\<lambda>movie_id.
          bind_err (py_int g4) (\<lambda>year.
          bind_err (py_int g7) (\<lambda>runtime.
          bind_err (py_float g10) (\<lambda>imdb_score.
          bind_err (py_int g11) (\<lambda>imdb_votes.
          bind_err (py_float g12) (\<lambda>metacritic_score.
          bind_err (bind_int movie_id) (\<lambda>_.
          bind_err (bind_text g1) (\<lambda>_.
          bind_err (bind_text g2) (\<lambda>_.
          bind_err (bind_text g3) (\<lambda>_.
          bind_err (bind_int year) (\<lambda>_.
          bind_err (bind_text g5) (\<lambda>_.
          bind_err (bind_text g6) (\<lambda>_.
          bind_err (bind_int runtime) (\<lambda>_.
          bind_err (bind_text g8) (\<lambda>_.
          bind_err (bind_text g9) (\<lambda>_.
          bind_err (bind_int imdb_votes) (\<lambda>_.
            Inr \<lparr>m_id = movie_id, m_imdb_id = g1, m_title = g2, m_director = g3,
                 m_year = year, m_rating = g5, m_genres = g6, m_runtime = runtime,
                 m_country = g8, m_language = g9, m_imdb_score = imdb_score,
                 m_imdb_votes = imdb_votes, m_metacritic_score = metacritic_score\<rparr>)))))))))))))))))
      | _ \<Rightarrow> Inl IndexError)"

definition insert_movie_body :: "connection \<Rightarrow> string list \<Rightarrow> load_state \<Rightarrow> error option \<times> load_state" where
  "insert_movie_body conn groups st =
     (case st of (db, inserted_count, out) \<Rightarrow>
        (case movie_of_groups groups of
           Inl e \<Rightarrow> (Some e, st)
         | Inr m \<Rightarrow>
             (case exec_insert_movie conn m db of
                Inr db' \<Rightarrow> (None, (db', inserted_count + 1, out))
              | Inl e \<Rightarrow> (None, (db, inserted_count, out @ [Warning_movie (m_id m) e])))))"

text \<open>
  \<^verbatim>\<open>_insert_movies\<close>. The \<^verbatim>\<open>with sqlite3.connect(...)\<close> block commits when it is left
  normally and rolls the inserts of the block back when an exception leaves it; what was
  printed stays printed.
\<close>

definition insert_movies :: "world \<Rightarrow> error option \<times> world" where
  "insert_movies w =
     (case movies_sql w of
        None \<Rightarrow> (Some (FileNotFoundError ''movies.sql''), w)
      | Some content \<Rightarrow>
          (case for_matches (insert_movie_body sqlite3_connect)
                  (finditer movie_pattern content) (storage w, 0, stdout w) of
             (Some e, (db, inserted_count, out)) \<Rightarrow> (Some e, w\<lparr>stdout := out\<rparr>)
           | (None, (db, inserted_count, out)) \<Rightarrow>
               (None, w\<lparr>storage := db, stdout := out @ [Inserted_movies inserted_count]\<rparr>)))"

text \<open>The body of the loop of \<^verbatim>\<open>_insert_actors\<close>; the warning shows the captured text.\<close>

definition actor_of_groups :: "string list \<Rightarrow> error + actor" where
  "actor_of_groups groups =
     (case groups of
        [actor_id, movie_id, imdb_id, name] \<Rightarrow>
          bind_err (py_int actor_id) (\<lambda>aid.
          bind_err (py_int movie_id) (\<lambda>mid.
          bind_err (bind_int aid) (\<lambda>_.
          bind_err (bind_int mid) (\<lambda>_.
          bind_err (bind_text imdb_id) (\<lambda>_.
          bind_err (bind_text name) (\<lambda>_.
            Inr \<lparr>a_id = aid, a_movie_id = mid, a_imdb_id = imdb_id, a_name = name\<rparr>))))))
      | _ \<Rightarrow> Inl ValueError)"

definition insert_actor_body :: "connection \<Rightarrow> string list \<Rightarrow> load_state \<Rightarrow> error option \<times> load_state" where
  "insert_actor_body conn groups st =
     (case st of (db, inserted_count, out) \<Rightarrow>
        (case actor_of_groups groups of
           Inl e \<Rightarrow> (Some e, st)
         | Inr a \<Rightarrow>
             (case exec_insert_actor conn a db of
                Inr db' \<Rightarrow> (None, (db', inserted_count + 1, out))
              | Inl e \<Rightarrow> (None, (db, inserted_count, out @ [Warning_actor (hd groups) e])))))"

definition insert_actors :: "world \<Rightarrow> error option \<times> world" where
  "insert_actors w =
     (case actors_sql w of
        None \<Rightarrow> (Some (FileNotFoundError ''actors.sql''), w)
      | Some content \<Rightarrow>
          (case for_matches (insert_actor_body sqlite3_connect)
                  (finditer actor_pattern content) (storage w, 0, stdout w) of
             (Some e, (db, inserted_count, out)) \<Rightarrow> (Some e, w\<lparr>stdout := out\<rparr>)
           | (None, (db, inserted_count, out)) \<Rightarrow>
               (None, w\<lparr>storage := db, stdout := out @ [Inserted_actors inserted_count]\<rparr>)))"

text \<open>\<^verbatim>\<open>_initialize_database\<close>: both tables dropped if present, then created empty.\<close>

definition initialize_database :: "world \<Rightarrow> error option \<times> world" where
  "initialize_database w =
     (None, w\<lparr>storage := empty_tables, stdout := stdout w @ [Tables_created]\<rparr>)"

definition parse_and_insert_sql_files :: "world \<Rightarrow> error option \<times> world" where
  "parse_and_insert_sql_files w =
     (if actors_sql w = None then (Some (FileNotFoundError ''actors.sql''), w)
      else if movies_sql w = None then (Some (FileNotFoundError ''movies.sql''), w)
      else (case insert_movies w of
              (Some e, w') \<Rightarrow> (Some e, w')
            | (None, w') \<Rightarrow>
                (case insert_actors w' of
                   (Some e, w'') \<Rightarrow> (Some e, w'')
                 | (None, w'') \<Rightarrow> (None, w''\<lparr>stdout := stdout w'' @ [Data_inserted]\<rparr>))))"

text \<open>\<^verbatim>\<open>MovieDatabaseUtility.__init__\<close>.\<close>

definition MovieDatabaseUtility_init :: "world \<Rightarrow> error option \<times> world" where
  "MovieDatabaseUtility_init w =
     (case initialize_database w of
        (Some e, w') \<Rightarrow> (Some e, w')
      | (None, w') \<Rightarrow> parse_and_insert_sql_files w')"

section \<open>The query layer\<close>

text \<open>
  Every report selects from
  \<^verbatim>\<open>movies m LEFT JOIN actors a ON m.id = a.movie_id GROUP BY m.id\<close> with
  \<^verbatim>\<open>COUNT(a.id)\<close>: one row for each movie, in table order, with the number of actor rows
  that name it (zero when none does).
\<close>

definition actor_count :: "database \<Rightarrow> movie \<Rightarrow> nat" where
  "actor_count db m = length (filter (\<lambda>a. a_movie_id a = m_id m) (actors db))"

definition movies_with_counts :: "database \<Rightarrow> (movie \<times> nat) list" where
  "movies_with_counts db = map (\<lambda>m. (m, actor_count db m)) (movies db)"

text \<open>
  \<^verbatim>\<open>ORDER BY key DESC\<close>. SQL leaves the order of rows with equal keys open; the model keeps
  such rows in the order it met them.
\<close>

fun insert_desc :: "('a \<Rightarrow> 'k::linorder) \<Rightarrow> 'a \<Rightarrow> 'a list \<Rightarrow> 'a list" where
  "insert_desc key x [] = [x]"
| "insert_desc key x (y # ys) =
     (if key y \<le> key x then x # y # ys else y # insert_desc key x ys)"

fun order_by_desc :: "('a \<Rightarrow> 'k::linorder) \<Rightarrow> 'a list \<Rightarrow> 'a list" where
  "order_by_desc key [] = []"
| "order_by_desc key (x # xs) = insert_desc key x (order_by_desc key xs)"

text \<open>\<^verbatim>\<open>LIMIT n\<close>: at most \<open>n\<close> rows; SQLite reads a negative \<open>n\<close> as no limit.\<close>

definition sql_limit :: "int \<Rightarrow> 'a list \<Rightarrow> 'a list" where
  "sql_limit n rows = (if n < 0 then rows else take (nat n) rows)"

text \<open>
  \<^verbatim>\<open>get_longest_running_movie\<close>. The empty dictionary \<^verbatim>\<open>{}\<close> is \<open>None\<close>; \<open>full_details\<close>
  is the whole row, the movie and its count.
\<close>

record longest_result =
  lr_title :: string
  lr_runtime :: int
  lr_year :: int
  lr_director :: string
  lr_imdb_score :: sql_real
  lr_actor_count :: nat
  lr_full_details :: "movie \<times> nat"

definition get_longest_running_movie :: "database \<Rightarrow> longest_result option" where
  "get_longest_running_movie db =
     (case sql_limit 1 (order_by_desc (\<lambda>(m, n). m_runtime m) (movies_with_counts db)) of
        [] \<Rightarrow> None
      | (m, n) # _ \<Rightarrow>
          Some \<lparr>lr_title = m_title m, lr_runtime = m_runtime m, lr_year = m_year m,
                lr_director = m_director m, lr_imdb_score = m_imdb_score m,
                lr_actor_count = n, lr_full_details = (m, n)\<rparr>)"

text \<open>
  \<^verbatim>\<open>get_movie_with_most_actors\<close>. The second statement,
  \<^verbatim>\<open>SELECT id, imdb_id, name FROM actors WHERE movie_id = ? ORDER BY name\<close>, compares names
  as SQLite does by default, character code by character code.
\<close>

record most_actors_result =
  mr_title :: string
  mr_actor_count :: nat
  mr_year :: int
  mr_director :: string
  mr_imdb_score :: sql_real
  mr_actors :: "(int \<times> string \<times> string) list"
  mr_full_details :: "movie \<times> nat"

definition actors_of_movie :: "database \<Rightarrow> int \<Rightarrow> (int \<times> string \<times> string) list" where
  "actors_of_movie db movie_id =
     map (\<lambda>a. (a_id a, a_imdb_id a, a_name a))
       (sort_key a_name (filter (\<lambda>a. a_movie_id a = movie_id) (actors db)))"

definition get_movie_with_most_actors :: "database \<Rightarrow> most_actors_result option" where
  "get_movie_with_most_actors db =
     (case sql_limit 1 (order_by_desc (\<lambda>(m, n). n) (movies_with_counts db)) of
        [] \<Rightarrow> None
      | (m, n) # _ \<Rightarrow>
          Some \<lparr>mr_title = m_title m, mr_actor_count = n, mr_year = m_year m,
                mr_director = m_director m, mr_imdb_score = m_imdb_score m,
                mr_actors = actors_of_movie db (m_id m), mr_full_details = (m, n)\<rparr>)"

text \<open>
  \<^verbatim>\<open>get_top_movies_by_rating_breakdown\<close>. \<open>top_n\<close> is bound as the parameter of
  \<^verbatim>\<open>LIMIT ?\<close>. The two dictionaries are maps from the rating; reading a key that a
  dictionary lacks raises \<^verbatim>\<open>KeyError\<close>.
\<close>

record summary =
  s_title :: string
  s_imdb_score :: sql_real
  s_year :: int
  s_director :: string
  s_actors_count :: nat

definition summary_of :: "movie \<times> nat \<Rightarrow> summary" where
  "summary_of row =
     (case row of (m, n) \<Rightarrow>
        \<lparr>s_title = m_title m, s_imdb_score = m_imdb_score m, s_year = m_year m,
         s_director = m_director m, s_actors_count = n\<rparr>)"

type_synonym breakdown = "(string \<rightharpoonup> summary list) \<times> (string \<rightharpoonup> nat)"

fun group_by_rating :: "(movie \<times> nat) list \<Rightarrow> breakdown \<Rightarrow> error + breakdown" where
  "group_by_rating [] acc = Inr acc"
| "group_by_rating (row # rows) (rating_breakdown, rating_distribution) =
     (let rating = m_rating (fst row);
          (bd, counts) =
            (if rating_breakdown rating = None
             then (rating_breakdown(rating \<mapsto> []), rating_distribution(rating \<mapsto> 0))
             else (rating_breakdown, rating_distribution))
      in case bd rating of
           None \<Rightarrow> Inl KeyError
         | Some l \<Rightarrow>
             (case counts rating of
                None \<Rightarrow> Inl KeyError
              | Some c \<Rightarrow>
                  group_by_rating rows
                    (bd(rating \<mapsto> l @ [summary_of row]), counts(rating \<mapsto> c + 1))))"

record breakdown_result =
  total_movies_in_top :: nat
  rating_categories :: "string \<rightharpoonup> summary list"
  rating_distribution :: "string \<rightharpoonup> nat"

definition top_movies :: "int \<Rightarrow> database \<Rightarrow> (movie \<times> nat) list" where
  "top_movies top_n db =
     sql_limit top_n (order_by_desc (\<lambda>(m, n). m_imdb_score m) (movies_with_counts db))"

definition get_top_movies_by_rating_breakdown ::
  "int \<Rightarrow> database \<Rightarrow> error + breakdown_result option" where
  "get_top_movies_by_rating_breakdown top_n db =
     (case bind_int top_n of
        Inl e \<Rightarrow> Inl e
      | Inr n \<Rightarrow>
          if top_movies n db = [] then Inr None
          else case group_by_rating (top_movies n db) (Map.empty, Map.empty) of
                 Inl e \<Rightarrow> Inl e
               | Inr (bd, counts) \<Rightarrow>
                   Inr (Some \<lparr>total_movies_in_top = length (top_movies n db),
                              rating_categories = bd, rating_distribution = counts\<rparr>))"

text \<open>
  \<^verbatim>\<open>get_all_stats\<close>. \<^verbatim>\<open>AVG\<close>, \<^verbatim>\<open>MIN\<close> and \<^verbatim>\<open>MAX\<close> over no rows are \<^verbatim>\<open>NULL\<close>, here
  \<open>None\<close>. An average over rows is a double: infinity if a value is, otherwise the sum
  divided by the count. The sum is taken exactly here and the quotient rounded once; the
  engine adds in double precision.
\<close>

definition finite_part :: "sql_real \<Rightarrow> real" where
  "finite_part x = (case x of Finite a \<Rightarrow> a | Infinity \<Rightarrow> 0)"

definition sql_avg :: "sql_real list \<Rightarrow> sql_real option" where
  "sql_avg xs =
     (if xs = [] then None
      else if Infinity \<in> set xs then Some Infinity
      else Some (to_double (sum_list (map finite_part xs) / real (length xs))))"

definition sql_min :: "int list \<Rightarrow> int option" where
  "sql_min xs = (case xs of [] \<Rightarrow> None | x # ys \<Rightarrow> Some (fold min ys x))"

definition sql_max :: "int list \<Rightarrow> int option" where
  "sql_max xs = (case xs of [] \<Rightarrow> None | x # ys \<Rightarrow> Some (fold max ys x))"

text \<open>
  \<^verbatim>\<open>round(x, 2)\<close> on a float: the double nearest to \<open>x\<close> rounded to two places, ties to
  the even digit; infinity stays infinity.
\<close>

definition py_round2 :: "sql_real \<Rightarrow> sql_real" where
  "py_round2 x =
     (case x of
        Infinity \<Rightarrow> Infinity
      | Finite a \<Rightarrow> to_double (real_of_int (round_half_even (a * 100)) / 100))"

text \<open>\<^verbatim>\<open>round(v, 2) if v else 0\<close>: zero for \<^verbatim>\<open>None\<close> and for a zero average.\<close>

definition rounded_or_zero :: "sql_real option \<Rightarrow> sql_real" where
  "rounded_or_zero v =
     (case v of None \<Rightarrow> Finite 0 | Some x \<Rightarrow> if x = Finite 0 then Finite 0 else py_round2 x)"

record stats =
  total_movies :: nat
  total_actors :: nat
  average_runtime :: sql_real
  average_imdb_score :: sql_real
  stats_rating_distribution :: "string \<rightharpoonup> nat"
  year_range_min :: "int option"
  year_range_max :: "int option"

definition rating_counts :: "movie list \<Rightarrow> string \<rightharpoonup> nat" where
  "rating_counts ms =
     (\<lambda>r. if r \<in> m_rating ` set ms then Some (length (filter (\<lambda>m. m_rating m = r) ms)) else None)"

definition get_all_stats :: "database \<Rightarrow> stats" where
  "get_all_stats db =
     \<lparr>total_movies = length (movies db),
      total_actors = length (actors db),
      average_runtime =
        rounded_or_zero (sql_avg (map (\<lambda>m. Finite (real_of_int (m_runtime m))) (movies db))),
      average_imdb_score = rounded_or_zero (sql_avg (map m_imdb_score (movies db))),
      stats_rating_distribution = rating_counts (movies db),
      year_range_min = sql_min (map m_year (movies db)),
      year_range_max = sql_max (map m_year (movies db))\<rparr>"

text \<open>
  SQLite's \<^verbatim>\<open>LIKE\<close>: \<^verbatim>\<open>%\<close> stands for any text, also none, \<^verbatim>\<open>_\<close> for any one character,
  and any other character for itself, the ASCII letters without regard to case. The
  operator reads its pattern and its text as C strings, each up to its first NUL character,
  and refuses a pattern of more than 50,000 bytes (\<^verbatim>\<open>LIKE or GLOB pattern too complex\<close>,
  which \<^verbatim>\<open>sqlite3\<close> raises as \<^verbatim>\<open>OperationalError\<close>).
\<close>

definition ascii_lower :: "char \<Rightarrow> char" where
  "ascii_lower c =
     (case map_of (zip ''ABCDEFGHIJKLMNOPQRSTUVWXYZ'' ''abcdefghijklmnopqrstuvwxyz'') c of
        None \<Rightarrow> c
      | Some l \<Rightarrow> l)"

fun pattern_compare :: "string \<Rightarrow> string \<Rightarrow> bool" where
  "pattern_compare [] t = (t = [])"
| "pattern_compare (p # ps) t =
     (if p = CHR ''%'' then
        (pattern_compare ps t \<or>
         (case t of [] \<Rightarrow> False | _ # cs \<Rightarrow> pattern_compare (p # ps) cs))
      else
        (case t of
           [] \<Rightarrow> False
         | c # cs \<Rightarrow> (p = CHR ''_'' \<or> ascii_lower p = ascii_lower c) \<and> pattern_compare ps cs))"

definition c_string :: "string \<Rightarrow> string" where
  "c_string s = takeWhile (\<lambda>c. c \<noteq> CHR 0x00) s"

definition sql_like :: "string \<Rightarrow> string \<Rightarrow> error + bool" where
  "sql_like pattern t =
     (if 50000 < utf8_length pattern then Inl OperationalError
      else Inr (pattern_compare (c_string pattern) (c_string t)))"

text \<open>
  A \<^verbatim>\<open>WHERE\<close> clause is evaluated row by row, in table order; the first row on which it
  raises ends the statement.
\<close>

fun sql_where :: "('a \<Rightarrow> error + bool) \<Rightarrow> 'a list \<Rightarrow> error + 'a list" where
  "sql_where cond [] = Inr []"
| "sql_where cond (row # rows) =
     bind_err (cond row) (\<lambda>keep.
     bind_err (sql_where cond rows) (\<lambda>kept.
       Inr (if keep then row # kept else kept)))"

text \<open>\<^verbatim>\<open>query_movies_by_director\<close>, with the parameter \<^verbatim>\<open>f"%{director}%"\<close>.\<close>

definition query_movies_by_director :: "string \<Rightarrow> database \<Rightarrow> error + (movie \<times> nat) list" where
  "query_movies_by_director director db =
     bind_err (bind_text (''%'' @ director @ ''%'')) (\<lambda>pattern.
     bind_err (sql_where (\<lambda>(m, n). sql_like pattern (m_director m)) (movies_with_counts db))
       (\<lambda>found. Inr (order_by_desc (\<lambda>(m, n). m_imdb_score m) found)))"

text \<open>\<^verbatim>\<open>query_movies_by_rating\<close>; \<^verbatim>\<open>=\<close> compares two texts in full.\<close>

definition query_movies_by_rating :: "string \<Rightarrow> database \<Rightarrow> error + (movie \<times> nat) list" where
  "query_movies_by_rating rating db =
     bind_err (bind_text rating) (\<lambda>r.
       Inr (order_by_desc (\<lambda>(m, n). m_imdb_score m)
              (filter (\<lambda>(m, n). m_rating m = r) (movies_with_counts db))))"

section \<open>Statements\<close>

text \<open>
  A statement is the text of one record in the fixed order of fields. \<open>actor_text\<close> and
  \<open>movie_text\<close> hold the text of every field as it stands in the file; a movie statement
  may carry white space in the three places where its pattern has \<^verbatim>\<open>\s*\<close>.
\<close>

record actor_text =
  at_id :: string
  at_movie_id :: string
  at_imdb_id :: string
  at_name :: string

definition actor_statement :: "actor_text \<Rightarrow> string" where
  "actor_statement t =
     ''INSERT INTO actors VALUES('' @ at_id t @ '','' @ at_movie_id t @ [CHR '','', CHR 0x27]
       @ at_imdb_id t @ [CHR 0x27, CHR '','', CHR 0x27] @ at_name t @ [CHR 0x27, CHR '')'']"

definition actor_groups :: "actor_text \<Rightarrow> string list" where
  "actor_groups t = [at_id t, at_movie_id t, at_imdb_id t, at_name t]"

record movie_text =
  mt_id :: string
  mt_imdb_id :: string
  mt_title :: string
  mt_director :: string
  mt_gap1 :: string
  mt_year :: string
  mt_rating :: string
  mt_genres :: string
  mt_gap2 :: string
  mt_runtime :: string
  mt_country :: string
  mt_language :: string
  mt_gap3 :: string
  mt_imdb_score :: string
  mt_imdb_votes :: string
  mt_metacritic_score :: string

definition movie_statement :: "movie_text \<Rightarrow> string" where
  "movie_statement t =
     ''INSERT INTO movies VALUES('' @ mt_id t @ [CHR '','', CHR 0x27]
       @ mt_imdb_id t @ [CHR 0x27, CHR '','', CHR 0x27]
       @ mt_title t @ [CHR 0x27, CHR '','', CHR 0x27]
       @ mt_director t @ [CHR 0x27] @ mt_gap1 t @ '',''
       @ mt_year t @ [CHR '','', CHR 0x27]
       @ mt_rating t @ [CHR 0x27, CHR '','', CHR 0x27]
       @ mt_genres t @ [CHR 0x27] @ mt_gap2 t @ '',''
       @ mt_runtime t @ [CHR '','', CHR 0x27]
       @ mt_country t @ [CHR 0x27, CHR '','', CHR 0x27]
       @ mt_language t @ [CHR 0x27] @ mt_gap3 t @ '',''
       @ mt_imdb_score t @ '','' @ mt_imdb_votes t @ '','' @ mt_metacritic_score t @ '')''"

definition movie_groups :: "movie_text \<Rightarrow> string list" where
  "movie_groups t =
     [mt_id t, mt_imdb_id t, mt_title t, mt_director t, mt_year t, mt_rating t, mt_genres t,
      mt_runtime t, mt_country t, mt_language t, mt_imdb_score t, mt_imdb_votes t,
      mt_metacritic_score t]"

text \<open>The shapes of the fields: digits, text free of the quote, white space, score text.\<close>

definition digits1 :: "string \<Rightarrow> bool" where
  "digits1 s = (s \<noteq> [] \<and> list_all (in_cls Digit) s)"

definition plain :: "string \<Rightarrow> bool" where
  "plain s = list_all (in_cls NotQuote) s"

definition blank :: "string \<Rightarrow> bool" where
  "blank s = list_all (in_cls Space) s"

definition score1 :: "string \<Rightarrow> bool" where
  "score1 s = (s \<noteq> [] \<and> list_all (in_cls ScoreChar) s)"

definition actor_grammar :: "actor_text \<Rightarrow> bool" where
  "actor_grammar t =
     (digits1 (at_id t) \<and> digits1 (at_movie_id t) \<and>
      at_imdb_id t \<noteq> [] \<and> plain (at_imdb_id t) \<and> at_name t \<noteq> [] \<and> plain (at_name t))"

definition movie_grammar :: "movie_text \<Rightarrow> bool" where
  "movie_grammar t =
     (digits1 (mt_id t) \<and> mt_imdb_id t \<noteq> [] \<and> plain (mt_imdb_id t) \<and>
      plain (mt_title t) \<and> plain (mt_director t) \<and> blank (mt_gap1 t) \<and>
      digits1 (mt_year t) \<and> plain (mt_rating t) \<and> plain (mt_genres t) \<and> blank (mt_gap2 t) \<and>
      digits1 (mt_runtime t) \<and> plain (mt_country t) \<and> plain (mt_language t) \<and>
      blank (mt_gap3 t) \<and> score1 (mt_imdb_score t) \<and> digits1 (mt_imdb_votes t) \<and>
      score1 (mt_metacritic_score t))"

text \<open>
  A well-formed statement has the shape its pattern asks for, whole numbers that Python
  converts (at most 4300 digits) and that fit the store's integers, scores that are
  numbers, and texts that the store takes. SQLite refuses a row of more than 1,000,000,000
  bytes; the texts of a well-formed statement have at most 999,999,000 bytes together,
  which leaves room for the numbers and the header of the row.
\<close>

definition int_text :: "string \<Rightarrow> bool" where
  "int_text s = (length s \<le> 4300 \<and> decimal s < 2 ^ 63)"

definition stored_texts :: "string list \<Rightarrow> bool" where
  "stored_texts ss = (sum_list (map utf8_length ss) \<le> 999999000)"

definition well_formed_actor :: "actor_text \<Rightarrow> bool" where
  "well_formed_actor t =
     (actor_grammar t \<and> int_text (at_id t) \<and> int_text (at_movie_id t) \<and>
      stored_texts [at_imdb_id t, at_name t])"

definition well_formed_movie :: "movie_text \<Rightarrow> bool" where
  "well_formed_movie t =
     (movie_grammar t \<and> int_text (mt_id t) \<and> int_text (mt_year t) \<and>
      int_text (mt_runtime t) \<and> int_text (mt_imdb_votes t) \<and>
      stored_texts [mt_imdb_id t, mt_title t, mt_director t, mt_rating t, mt_genres t,
        mt_country t, mt_language t] \<and>
      float_syntax (mt_imdb_score t) \<and> float_syntax (mt_metacritic_score t))"

text \<open>The row that a well-formed statement describes.\<close>

definition actor_row :: "actor_text \<Rightarrow> actor" where
  "actor_row t =
     \<lparr>a_id = decimal (at_id t), a_movie_id = decimal (at_movie_id t),
      a_imdb_id = at_imdb_id t, a_name = at_name t\<rparr>"

definition movie_row :: "movie_text \<Rightarrow> movie" where
  "movie_row t =
     \<lparr>m_id = decimal (mt_id t), m_imdb_id = mt_imdb_id t, m_title = mt_title t,
      m_director = mt_director t, m_year = decimal (mt_year t), m_rating = mt_rating t,
      m_genres = mt_genres t, m_runtime = decimal (mt_runtime t), m_country = mt_country t,
      m_language = mt_language t, m_imdb_score = to_double (float_value (mt_imdb_score t)),
      m_imdb_votes = decimal (mt_imdb_votes t),
      m_metacritic_score = to_double (float_value (mt_metacritic_score t))\<rparr>"

text \<open>A file of statements, each followed by the same separating text (\<^verbatim>\<open>;\<close> and a new line, say).\<close>

definition actor_file :: "string \<Rightarrow> actor_text list \<Rightarrow> string" where
  "actor_file sep ts = concat (map (\<lambda>t. actor_statement t @ sep) ts)"

definition movie_file :: "string \<Rightarrow> movie_text list \<Rightarrow> string" where
  "movie_file sep ts = concat (map (\<lambda>t. movie_statement t @ sep) ts)"

section \<open>The foreign-key invariant\<close>

text \<open>Every actor row names the \<open>id\<close> of a movie row.\<close>

definition references_resolve :: "database \<Rightarrow> bool" where
  "references_resolve db = list_all (\<lambda>a. a_movie_id a \<in> m_id ` set (movies db)) (actors db)"

section \<open>Vocabulary of the statements about the reports\<close>

text \<open>The rows of one rating, their summaries and their number, rating by rating.\<close>

definition rated :: "string \<Rightarrow> (movie \<times> nat) list \<Rightarrow> (movie \<times> nat) list" where
  "rated r rows = filter (\<lambda>row. m_rating (fst row) = r) rows"

definition grouped :: "(movie \<times> nat) list \<Rightarrow> string \<rightharpoonup> summary list" where
  "grouped rows = (\<lambda>r. if rated r rows = [] then None else Some (map summary_of (rated r rows)))"

definition counted :: "(movie \<times> nat) list \<Rightarrow> string \<rightharpoonup> nat" where
  "counted rows = (\<lambda>r. if rated r rows = [] then None else Some (length (rated r rows)))"

text \<open>The same, continuing from dictionaries that already hold entries.\<close>

definition merged :: "(string \<rightharpoonup> summary list) \<Rightarrow> (movie \<times> nat) list \<Rightarrow> string \<rightharpoonup> summary list" where
  "merged bd rows =
     (\<lambda>r. case bd r of
            None \<Rightarrow> if rated r rows = [] then None else Some (map summary_of (rated r rows))
          | Some l \<Rightarrow> Some (l @ map summary_of (rated r rows)))"

definition tallied :: "(string \<rightharpoonup> nat) \<Rightarrow> (movie \<times> nat) list \<Rightarrow> string \<rightharpoonup> nat" where
  "tallied cnt rows =
     (\<lambda>r. case cnt r of
            None \<Rightarrow> if rated r rows = [] then None else Some (length (rated r rows))
          | Some c \<Rightarrow> Some (c + length (rated r rows)))"

section \<open>Vocabulary of the statements about unmatched text\<close>

text \<open>
  A text begins with a statement when a statement of the shape that the pattern asks for
  (\<open>actor_grammar\<close>, \<open>movie_grammar\<close>) is a prefix of it.
\<close>

definition begins_actor_statement :: "string \<Rightarrow> bool" where
  "begins_actor_statement s = (\<exists>t. actor_grammar t \<and> prefix (actor_statement t) s)"

definition begins_movie_statement :: "string \<Rightarrow> bool" where
  "begins_movie_statement s = (\<exists>t. movie_grammar t \<and> prefix (movie_statement t) s)"

text \<open>The literal text with which each pattern starts.\<close>

definition actor_lead :: string where
  "actor_lead = ''INSERT INTO actors VALUES(''"

definition movie_lead :: string where
  "movie_lead = ''INSERT INTO movies VALUES(''"

text \<open>
  A flawed statement: an actor statement whose imdb_id or name is empty or holds a quote, a
  movie statement with a quote in one of its seven texts. A skipped statement is a flawed
  one whose text neither begins with a statement nor holds the leading text a second time.
\<close>

definition actor_flawed :: "actor_text \<Rightarrow> bool" where
  "actor_flawed t =
     (at_imdb_id t = [] \<or> at_name t = [] \<or> \<not> plain (at_imdb_id t) \<or> \<not> plain (at_name t))"

definition movie_flawed :: "movie_text \<Rightarrow> bool" where
  "movie_flawed t =
     (\<not> plain (mt_imdb_id t) \<or> \<not> plain (mt_title t) \<or> \<not> plain (mt_director t) \<or>
      \<not> plain (mt_rating t) \<or> \<not> plain (mt_genres t) \<or> \<not> plain (mt_country t) \<or>
      \<not> plain (mt_language t))"

definition actor_skipped :: "actor_text \<Rightarrow> bool" where
  "actor_skipped t =
     (actor_flawed t \<and> \<not> begins_actor_statement (actor_statement t) \<and>
      \<not> sublist actor_lead (tl (actor_statement t)))"

definition movie_skipped :: "movie_text \<Rightarrow> bool" where
  "movie_skipped t =
     (movie_flawed t \<and> \<not> begins_movie_statement (movie_statement t) \<and>
      \<not> sublist movie_lead (tl (movie_statement t)))"

text \<open>Two runs of a loader end alike: same exception or none, same tables, same output.\<close>

definition same_outcome :: "error option \<times> world \<Rightarrow> error option \<times> world \<Rightarrow> bool" where
  "same_outcome a b =
     (fst a = fst b \<and> storage (snd a) = storage (snd b) \<and> stdout (snd a) = stdout (snd b))"

section \<open>The texts that a pattern matches\<close>

text \<open>
  A pattern in which every repetition is followed by literal text that starts outside the
  repeated class never backtracks: each repetition takes the whole run of its class. Both
  patterns of the loader are of this kind. The text that such a pattern matches is put
  together from one piece for each repetition: \<open>fits\<close> says that the pieces suit the
  repetitions, \<open>assemble\<close> writes the text, \<open>captured\<close> keeps the pieces of the groups.
\<close>

fun committed :: "tok list \<Rightarrow> bool" where
  "committed [] = True"
| "committed (Lit p # ts) = committed ts"
| "committed (Cap c q # Lit (d # ds) # ts) = (\<not> in_cls c d \<and> committed ts)"
| "committed (Rep c q # Lit (d # ds) # ts) = (\<not> in_cls c d \<and> committed ts)"
| "committed (Cap c q # ts) = False"
| "committed (Rep c q # ts) = False"

fun fits :: "tok list \<Rightarrow> string list \<Rightarrow> bool" where
  "fits [] ps = (ps = [])"
| "fits (Lit l # ts) ps = fits ts ps"
| "fits (Cap c q # ts) ps =
     (case ps of
        [] \<Rightarrow> False
      | p # ps' \<Rightarrow> list_all (in_cls c) p \<and> \<not> (q = Greedy1 \<and> p = []) \<and> fits ts ps')"
| "fits (Rep c q # ts) ps =
     (case ps of
        [] \<Rightarrow> False
      | p # ps' \<Rightarrow> list_all (in_cls c) p \<and> \<not> (q = Greedy1 \<and> p = []) \<and> fits ts ps')"

fun assemble :: "tok list \<Rightarrow> string list \<Rightarrow> string" where
  "assemble [] ps = []"
| "assemble (Lit l # ts) ps = l @ assemble ts ps"
| "assemble (Cap c q # ts) ps = hd ps @ assemble ts (tl ps)"
| "assemble (Rep c q # ts) ps = hd ps @ assemble ts (tl ps)"

fun captured :: "tok list \<Rightarrow> string list \<Rightarrow> string list" where
  "captured [] ps = []"
| "captured (Lit l # ts) ps = captured ts ps"
| "captured (Cap c q # ts) ps = hd ps # captured ts (tl ps)"
| "captured (Rep c q # ts) ps = captured ts (tl ps)"

text \<open>The number of quotes in a text.\<close>

definition quotes :: "string \<Rightarrow> nat" where
  "quotes s = length (filter (\<lambda>c. c = CHR 0x27) s)"

section \<open>Example data\<close>

definition old_movie :: movie where
  "old_movie =
     \<lparr>m_id = 1, m_imdb_id = ''tt1'', m_title = ''Alien'', m_director = ''Ridley Scott'',
      m_year = 1979, m_rating = ''R'', m_genres = ''Horror'', m_runtime = 117,
      m_country = ''UK'', m_language = ''English'', m_imdb_score = Finite 8.5,
      m_imdb_votes = 900000, m_metacritic_score = Finite 89\<rparr>"

definition stray_actor :: actor_text where
  "stray_actor = \<lparr>at_id = ''1'', at_movie_id = ''99'', at_imdb_id = ''nm1'', at_name = ''Bob''\<rparr>"

definition film :: "int \<Rightarrow> string \<Rightarrow> string \<Rightarrow> string \<Rightarrow> int \<Rightarrow> real \<Rightarrow> movie" where
  "film i title director rating runtime score =
     \<lparr>m_id = i, m_imdb_id = ''tt'', m_title = title, m_director = director,
      m_year = 2000, m_rating = rating, m_genres = ''Drama'', m_runtime = runtime,
      m_country = ''USA'', m_language = ''English'', m_imdb_score = Finite score,
      m_imdb_votes = 1000, m_metacritic_score = Finite 70\<rparr>"

definition runtimes_db :: database where
  "runtimes_db =
     \<lparr>movies = [film 1 ''Short'' ''Ann Lee'' ''PG'' 90 7.0,
                 film 2 ''Long'' ''Bo Diaz'' ''R'' 200 6.5,
                 film 3 ''Brief'' ''Cy Park'' ''G'' 45 8.0],
      actors = []\<rparr>"

definition cast_db :: database where
  "cast_db =
     \<lparr>movies = [film 1 ''Solo'' ''Ann Lee'' ''PG'' 90 7.0,
                 film 2 ''Trio'' ''Bo Diaz'' ''R'' 100 6.5],
      actors = [\<lparr>a_id = 1, a_movie_id = 2, a_imdb_id = ''nm1'', a_name = ''Zoe''\<rparr>,
                \<lparr>a_id = 2, a_movie_id = 2, a_imdb_id = ''nm2'', a_name = ''Adam''\<rparr>,
                \<lparr>a_id = 3, a_movie_id = 2, a_imdb_id = ''nm3'', a_name = ''Mia''\<rparr>]\<rparr>"

definition nolan_db :: database where
  "nolan_db =
     \<lparr>movies = [film 1 ''Inception'' ''Christopher Nolan'' ''PG-13'' 148 8.8,
                 film 2 ''Alien'' ''Ridley Scott'' ''R'' 117 8.5,
                 film 3 ''Dunkirk'' ''Christopher Nolan'' ''PG-13'' 106 7.8],
      actors = []\<rparr>"

definition scores_db :: database where
  "scores_db =
     \<lparr>movies = [film 1 ''First'' ''Ann Lee'' ''PG'' 90 9.0,
                 film 2 ''Second'' ''Bo Diaz'' ''PG'' 100 8.5,
                 film 3 ''Third'' ''Cy Park'' ''R'' 110 8.5],
      actors = []\<rparr>"

definition alien_text :: movie_text where
  "alien_text =
     \<lparr>mt_id = ''1'', mt_imdb_id = ''tt0078748'', mt_title = ''Alien'',
      mt_director = ''Ridley Scott'', mt_gap1 = [], mt_year = ''1979'', mt_rating = ''R'',
      mt_genres = ''Horror, Sci-Fi'', mt_gap2 = [], mt_runtime = ''117'', mt_country = ''UK'',
      mt_language = ''English'', mt_gap3 = [], mt_imdb_score = ''8.5'',
      mt_imdb_votes = ''905275'', mt_metacritic_score = ''89''\<rparr>"

definition heat_text :: movie_text where
  "heat_text =
     \<lparr>mt_id = ''2'', mt_imdb_id = ''tt0113277'', mt_title = ''Heat'',
      mt_director = ''Michael Mann'', mt_gap1 = [], mt_year = ''1995'', mt_rating = ''R'',
      mt_genres = ''Crime, Drama'', mt_gap2 = [], mt_runtime = ''170'', mt_country = ''USA'',
      mt_language = ''English'', mt_gap3 = [], mt_imdb_score = ''8.3'',
      mt_imdb_votes = ''700000'', mt_metacritic_score = ''76''\<rparr>"

definition remake_text :: movie_text where
  "remake_text = alien_text\<lparr>mt_title := ''Alien Again'', mt_year := ''2024''\<rparr>"

definition weaver_text :: actor_text where
  "weaver_text =
     \<lparr>at_id = ''10'', at_movie_id = ''1'', at_imdb_id = ''nm0000244'',
      at_name = ''Sigourney Weaver''\<rparr>"

definition fresh_world :: "string \<Rightarrow> string \<Rightarrow> world" where
  "fresh_world movies_text actors_text =
     \<lparr>actors_sql = Some actors_text, movies_sql = Some movies_text,
      storage = empty_tables, stdout = []\<rparr>"

definition trick_actor :: actor_text where
  "trick_actor = \<lparr>at_id = ''1'', at_movie_id = ''1'', at_imdb_id = ''nm1'', at_name = ''Bob')''\<rparr>"

definition obrien_text :: actor_text where
  "obrien_text =
     \<lparr>at_id = ''11'', at_movie_id = ''1'', at_imdb_id = ''nm7'', at_name = ''Pat O'Brien''\<rparr>"

definition schindler_text :: movie_text where
  "schindler_text = heat_text\<lparr>mt_id := ''3'', mt_title := ''Schindler's List''\<rparr>"

definition smith_text :: actor_text where
  "smith_text =
     \<lparr>at_id = ''12'', at_movie_id = ''1'', at_imdb_id = ''nm8'', at_name = ''Bob' Smith''\<rparr>"

definition singin_text :: movie_text where
  "singin_text = heat_text\<lparr>mt_id := ''4'', mt_title := ''Singin' in the Rain''\<rparr>"

definition nested_actor :: actor_text where
  "nested_actor =
     \<lparr>at_id = ''1'', at_movie_id = ''1'', at_imdb_id = ''nm1'',
      at_name = ''x'INSERT INTO actors VALUES(5,1,'nm5','Eve''\<rparr>"

definition eve_text :: actor_text where
  "eve_text = \<lparr>at_id = ''5'', at_movie_id = ''1'', at_imdb_id = ''nm5'', at_name = ''Eve''\<rparr>"

definition mixed_case_db :: database where
  "mixed_case_db =
     \<lparr>movies = [film 1 ''Duo'' ''Ann Lee'' ''PG'' 90 7.0],
      actors = [\<lparr>a_id = 1, a_movie_id = 1, a_imdb_id = ''nm1'', a_name = ''adam''\<rparr>,
                \<lparr>a_id = 2, a_movie_id = 1, a_imdb_id = ''nm2'', a_name = ''Zoe''\<rparr>]\<rparr>"

section \<open>Facts about the matcher and the loader\<close>

subsection \<open>Matching commits to the whole run of a class\<close>

lemma first_some_all_None: "(\<forall>k\<in>set ks. f k = None) \<Longrightarrow> first_some f ks = None"
  by (induction ks) auto

lemma first_some_only:
  "n \<in> set ks \<Longrightarrow> (\<forall>k\<in>set ks. k \<noteq> n \<longrightarrow> f k = None) \<Longrightarrow> first_some f ks = f n"
proof (induction ks)
  case Nil
  then show ?case by simp
next
  case (Cons k ks)
  show ?case
  proof (cases "k = n")
    case True
    show ?thesis
    proof (cases "f n")
      case None
      with Cons.prems have "\<forall>j\<in>set ks. f j = None" by auto
      with None True show ?thesis by (simp add: first_some_all_None)
    next
      case (Some y)
      with True show ?thesis by simp
    qed
  next
    case False
    with Cons show ?thesis by auto
  qed
qed

lemma set_attempts:
  "set (attempts q n) = (if q = Greedy1 then {1..n} else {0..n})"
  by (cases q) auto

lemma re_match_Lit_Nil [simp]: "re_match (Lit [] # ts) s = re_match ts s"
  by simp

lemma re_match_Lit_Cons [simp]:
  "re_match (Lit (x # p) # ts) (y # s) = (if x = y then re_match (Lit p # ts) s else None)"
  by simp

lemma re_match_Lit_empty [simp]: "re_match (Lit (x # p) # ts) [] = None"
  by simp

declare re_match.simps(2) [simp del]

lemma blocked_inside_run:
  assumes "\<not> in_cls c d" and "k < length (takeWhile (in_cls c) s)"
  shows "re_match (Lit (d # ds) # ts) (drop k s) = None"
proof -
  from assms(2) have k: "k < length s"
    using length_takeWhile_le [of "in_cls c" s] by simp
  from assms(2) have "in_cls c (takeWhile (in_cls c) s ! k)"
    using nth_mem set_takeWhileD by metis
  with assms(2) have "in_cls c (s ! k)" by (simp add: takeWhile_nth)
  with assms(1) have "s ! k \<noteq> d" by auto
  moreover from k have "drop k s = s ! k # drop (Suc k) s" by (simp add: Cons_nth_drop_Suc)
  ultimately show ?thesis by simp
qed

lemma attempts_Greedy1_0: "attempts Greedy1 0 = []"
  by simp

lemma re_match_Cap_none:
  "length (takeWhile (in_cls c) s) = 0 \<Longrightarrow> re_match (Cap c Greedy1 # ts) s = None"
  by (simp only: re_match.simps attempts_Greedy1_0 first_some.simps)

lemma re_match_Rep_none:
  "length (takeWhile (in_cls c) s) = 0 \<Longrightarrow> re_match (Rep c Greedy1 # ts) s = None"
  by (simp only: re_match.simps attempts_Greedy1_0 first_some.simps)

lemma re_match_Cap_commit:
  assumes "\<not> in_cls c d"
  shows "re_match (Cap c q # Lit (d # ds) # ts) s =
     (if q = Greedy1 \<and> takeWhile (in_cls c) s = [] then None
      else case re_match (Lit (d # ds) # ts) (dropWhile (in_cls c) s) of
             None \<Rightarrow> None
           | Some (gs, r) \<Rightarrow> Some (takeWhile (in_cls c) s # gs, r))"
proof -
  let ?n = "length (takeWhile (in_cls c) s)"
  let ?f = "\<lambda>k. case re_match (Lit (d # ds) # ts) (drop k s) of
               None \<Rightarrow> None
             | Some (gs, r) \<Rightarrow> Some (take k s # gs, r)"
  have blocked: "\<forall>k\<in>set (attempts q ?n). k \<noteq> ?n \<longrightarrow> ?f k = None"
  proof (intro ballI impI)
    fix k assume "k \<in> set (attempts q ?n)" and "k \<noteq> ?n"
    then have "k < ?n" by (auto simp: set_attempts split: if_splits)
    with assms show "?f k = None" by (simp add: blocked_inside_run)
  qed
  have tk: "take ?n s = takeWhile (in_cls c) s" by (rule takeWhile_eq_take [symmetric])
  have dr: "drop ?n s = dropWhile (in_cls c) s" by (rule dropWhile_eq_drop [symmetric])
  show ?thesis
  proof (cases "q = Greedy1 \<and> takeWhile (in_cls c) s = []")
    case True
    then have "re_match (Cap c q # Lit (d # ds) # ts) s = None"
      by (metis re_match_Cap_none list.size(3))
    with True show ?thesis by metis
  next
    case False
    then have "?n \<in> set (attempts q ?n)" by (auto simp: set_attempts Suc_le_eq)
    from first_some_only [OF this blocked]
    have "re_match (Cap c q # Lit (d # ds) # ts) s = ?f ?n" by simp
    with False show ?thesis by (simp only: tk dr if_False)
  qed
qed

lemma re_match_Rep_commit:
  assumes "\<not> in_cls c d"
  shows "re_match (Rep c q # Lit (d # ds) # ts) s =
     (if q = Greedy1 \<and> takeWhile (in_cls c) s = [] then None
      else re_match (Lit (d # ds) # ts) (dropWhile (in_cls c) s))"
proof -
  let ?n = "length (takeWhile (in_cls c) s)"
  let ?f = "\<lambda>k. re_match (Lit (d # ds) # ts) (drop k s)"
  have blocked: "\<forall>k\<in>set (attempts q ?n). k \<noteq> ?n \<longrightarrow> ?f k = None"
  proof (intro ballI impI)
    fix k assume "k \<in> set (attempts q ?n)" and "k \<noteq> ?n"
    then have "k < ?n" by (auto simp: set_attempts split: if_splits)
    with assms show "?f k = None" by (simp add: blocked_inside_run)
  qed
  have dr: "drop ?n s = dropWhile (in_cls c) s" by (rule dropWhile_eq_drop [symmetric])
  show ?thesis
  proof (cases "q = Greedy1 \<and> takeWhile (in_cls c) s = []")
    case True
    then have "re_match (Rep c q # Lit (d # ds) # ts) s = None"
      by (metis re_match_Rep_none list.size(3))
    with True show ?thesis by metis
  next
    case False
    then have "?n \<in> set (attempts q ?n)" by (auto simp: set_attempts Suc_le_eq)
    from first_some_only [OF this blocked]
    have "re_match (Rep c q # Lit (d # ds) # ts) s = ?f ?n" by simp
    with False show ?thesis by (simp only: dr if_False)
  qed
qed

lemma takeWhile_field [simp]:
  "list_all P xs \<Longrightarrow> \<not> P y \<Longrightarrow> takeWhile P (xs @ y # ys) = xs"
  by (induction xs) auto

lemma dropWhile_field [simp]:
  "list_all P xs \<Longrightarrow> \<not> P y \<Longrightarrow> dropWhile P (xs @ y # ys) = y # ys"
  by (induction xs) auto

declare re_match.simps(3,4) [simp del]

lemma takeWhile_eq_Nil_field [simp]:
  "list_all P xs \<Longrightarrow> \<not> P y \<Longrightarrow> takeWhile P (xs @ y # ys) = [] \<longleftrightarrow> xs = []"
  by simp

lemma re_match_actor_statement:
  assumes "actor_grammar t"
  shows "re_match actor_pattern (actor_statement t @ rest) = Some (actor_groups t, rest)"
  using assms
  by (simp add: actor_pattern_def actor_statement_def actor_groups_def actor_grammar_def
      digits1_def plain_def re_match_Cap_commit)


lemma re_match_movie_statement:
  assumes "movie_grammar t"
  shows "re_match movie_pattern (movie_statement t @ rest) = Some (movie_groups t, rest)"
  using assms
  by (simp add: movie_pattern_def movie_statement_def movie_groups_def movie_grammar_def
      digits1_def plain_def score1_def blank_def re_match_Cap_commit re_match_Rep_commit)


subsection \<open>Scanning\<close>

lemma finditer_Nil: "re_match pat [] = None \<Longrightarrow> finditer pat [] = []"
  by (subst finditer.simps) simp

lemma finditer_skip: "re_match pat (c # cs) = None \<Longrightarrow> finditer pat (c # cs) = finditer pat cs"
  by (subst finditer.simps) simp

lemma finditer_hit:
  "re_match pat s = Some (gs, r) \<Longrightarrow> length r < length s \<Longrightarrow> finditer pat s = gs # finditer pat r"
  by (subst finditer.simps) simp

lemma actor_pattern_first: "CHR ''I'' \<noteq> c \<Longrightarrow> re_match actor_pattern (c # cs) = None"
  by (simp add: actor_pattern_def)

lemma movie_pattern_first: "CHR ''I'' \<noteq> c \<Longrightarrow> re_match movie_pattern (c # cs) = None"
  by (simp add: movie_pattern_def)

lemma finditer_actor_sep:
  "CHR ''I'' \<notin> set sep \<Longrightarrow> finditer actor_pattern (sep @ rest) = finditer actor_pattern rest"
  by (induction sep) (simp_all add: finditer_skip actor_pattern_first)

lemma finditer_movie_sep:
  "CHR ''I'' \<notin> set sep \<Longrightarrow> finditer movie_pattern (sep @ rest) = finditer movie_pattern rest"
  by (induction sep) (simp_all add: finditer_skip movie_pattern_first)

lemma finditer_actor_end: "finditer actor_pattern [] = []"
  by (rule finditer_Nil) (simp add: actor_pattern_def)

lemma finditer_movie_end: "finditer movie_pattern [] = []"
  by (rule finditer_Nil) (simp add: movie_pattern_def)

lemma finditer_actor_statement:
  assumes "actor_grammar t"
  shows "finditer actor_pattern (actor_statement t @ rest) =
    actor_groups t # finditer actor_pattern rest"
proof (rule finditer_hit)
  show "re_match actor_pattern (actor_statement t @ rest) = Some (actor_groups t, rest)"
    using assms by (rule re_match_actor_statement)
  show "length rest < length (actor_statement t @ rest)"
    by (simp add: actor_statement_def)
qed

lemma finditer_movie_statement:
  assumes "movie_grammar t"
  shows "finditer movie_pattern (movie_statement t @ rest) =
    movie_groups t # finditer movie_pattern rest"
proof (rule finditer_hit)
  show "re_match movie_pattern (movie_statement t @ rest) = Some (movie_groups t, rest)"
    using assms by (rule re_match_movie_statement)
  show "length rest < length (movie_statement t @ rest)"
    by (simp add: movie_statement_def)
qed

lemma finditer_actor_file:
  assumes "\<forall>t\<in>set ts. actor_grammar t" and "CHR ''I'' \<notin> set sep"
  shows "finditer actor_pattern (actor_file sep ts) = map actor_groups ts"
  using assms
  by (induction ts)
    (simp_all add: actor_file_def finditer_actor_end finditer_actor_statement finditer_actor_sep)

lemma finditer_movie_file:
  assumes "\<forall>t\<in>set ts. movie_grammar t" and "CHR ''I'' \<notin> set sep"
  shows "finditer movie_pattern (movie_file sep ts) = map movie_groups ts"
  using assms
  by (induction ts)
    (simp_all add: movie_file_def finditer_movie_end finditer_movie_statement finditer_movie_sep)

subsection \<open>Conversions\<close>

lemma digit_val_nonneg: "in_cls Digit c \<Longrightarrow> 0 \<le> digit_val c"
  by (auto simp: digit_val_def)

lemma foldl_decimal_nonneg:
  "list_all (in_cls Digit) s \<Longrightarrow> 0 \<le> n \<Longrightarrow> 0 \<le> foldl (\<lambda>n c. 10 * n + digit_val c) n s"
proof (induction s arbitrary: n)
  case Nil
  then show ?case by simp
next
  case (Cons c s)
  from Cons.prems have "0 \<le> 10 * n + digit_val c"
    using digit_val_nonneg [of c] by simp
  with Cons show ?case by simp
qed

lemma decimal_nonneg: "list_all (in_cls Digit) s \<Longrightarrow> 0 \<le> decimal s"
  by (simp add: decimal_def foldl_decimal_nonneg)

lemma py_int_digits1: "digits1 s \<Longrightarrow> int_text s \<Longrightarrow> py_int s = Inr (decimal s)"
  by (simp add: py_int_def digits1_def int_text_def)

lemma bind_int_decimal: "digits1 s \<Longrightarrow> int_text s \<Longrightarrow> bind_int (decimal s) = Inr (decimal s)"
  using decimal_nonneg [of s] by (simp add: bind_int_def digits1_def int_text_def)

lemma bind_text_stored: "stored_texts ss \<Longrightarrow> s \<in> set ss \<Longrightarrow> bind_text s = Inr s"
proof -
  assume a: "stored_texts ss" and b: "s \<in> set ss"
  from b have "utf8_length s \<le> sum_list (map utf8_length ss)"
    by (induction ss) auto
  with a show ?thesis by (simp add: bind_text_def stored_texts_def)
qed

lemma bind_err_Inr [simp]: "bind_err (Inr x) f = f x"
  by (simp add: bind_err_def)

lemma bind_err_Inl [simp]: "bind_err (Inl e) f = Inl e"
  by (simp add: bind_err_def)

lemma actor_of_groups_well_formed:
  assumes "well_formed_actor t"
  shows "actor_of_groups (actor_groups t) = Inr (actor_row t)"
proof -
  from assms have st: "stored_texts [at_imdb_id t, at_name t]"
    by (simp add: well_formed_actor_def)
  have "bind_text (at_imdb_id t) = Inr (at_imdb_id t)" "bind_text (at_name t) = Inr (at_name t)"
    by (rule bind_text_stored [OF st], simp)+
  with assms show ?thesis
    by (simp add: well_formed_actor_def actor_grammar_def actor_of_groups_def actor_groups_def
        actor_row_def py_int_digits1 bind_int_decimal)
qed

lemma movie_of_groups_well_formed:
  assumes "well_formed_movie t"
  shows "movie_of_groups (movie_groups t) = Inr (movie_row t)"
proof -
  from assms have st: "stored_texts [mt_imdb_id t, mt_title t, mt_director t, mt_rating t,
      mt_genres t, mt_country t, mt_language t]"
    by (simp add: well_formed_movie_def)
  have "bind_text (mt_imdb_id t) = Inr (mt_imdb_id t)" "bind_text (mt_title t) = Inr (mt_title t)"
    "bind_text (mt_director t) = Inr (mt_director t)" "bind_text (mt_rating t) = Inr (mt_rating t)"
    "bind_text (mt_genres t) = Inr (mt_genres t)" "bind_text (mt_country t) = Inr (mt_country t)"
    "bind_text (mt_language t) = Inr (mt_language t)"
    by (rule bind_text_stored [OF st], simp)+
  with assms show ?thesis
    by (simp add: well_formed_movie_def movie_grammar_def movie_of_groups_def movie_groups_def
        movie_row_def py_int_digits1 bind_int_decimal py_float_def)
qed

subsection \<open>One pass of a loop body\<close>

lemma insert_actor_body_new:
  assumes "well_formed_actor t"
    and "decimal (at_id t) \<notin> a_id ` set (actors db)"
    and "foreign_keys conn \<longrightarrow> decimal (at_movie_id t) \<in> m_id ` set (movies db)"
  shows "insert_actor_body conn (actor_groups t) (db, n, out) =
    (None, (db\<lparr>actors := insort_key a_id (actor_row t) (actors db)\<rparr>, Suc n, out))"
  using assms
  by (simp add: insert_actor_body_def actor_of_groups_well_formed exec_insert_actor_def)
    (simp add: actor_row_def)

lemma insert_movie_body_new:
  assumes "well_formed_movie t" and "decimal (mt_id t) \<notin> m_id ` set (movies db)"
  shows "insert_movie_body conn (movie_groups t) (db, n, out) =
    (None, (db\<lparr>movies := insort_key m_id (movie_row t) (movies db)\<rparr>, Suc n, out))"
  using assms
  by (simp add: insert_movie_body_def movie_of_groups_well_formed exec_insert_movie_def)
    (simp add: movie_row_def)

lemma insert_movie_body_dup:
  assumes "well_formed_movie t" and "decimal (mt_id t) \<in> m_id ` set (movies db)"
  shows "insert_movie_body conn (movie_groups t) (db, n, out) =
    (None, (db, n, out @ [Warning_movie (decimal (mt_id t)) (Unique_failed ''movies.id'')]))"
  using assms
  by (simp add: insert_movie_body_def movie_of_groups_well_formed exec_insert_movie_def)
    (simp add: movie_row_def)

lemma exec_insert_actor_enforced:
  assumes "foreign_keys conn" and "references_resolve db"
    and "exec_insert_actor conn a db = Inr db'"
  shows "references_resolve db'"
  using assms
  by (auto simp: exec_insert_actor_def references_resolve_def list_all_iff set_insort_key
      split: if_splits)

subsection \<open>The example data\<close>

lemma stray_actor_wf: "well_formed_actor stray_actor"
  by (simp add: well_formed_actor_def actor_grammar_def stray_actor_def digits1_def plain_def
      decimal_def digit_val_def int_text_def stored_texts_def utf8_length_def)

lemma stray_actor_file:
  "''INSERT INTO actors VALUES(1,99,'nm1','Bob');'' = actor_file '';'' [stray_actor]"
  by (simp add: actor_file_def actor_statement_def stray_actor_def)

subsection \<open>Ordering\<close>

lemma mset_insert_desc: "mset (insert_desc key x xs) = add_mset x (mset xs)"
  by (induction xs) simp_all

lemma mset_order_by_desc: "mset (order_by_desc key xs) = mset xs"
  by (induction xs) (simp_all add: mset_insert_desc)

lemma set_order_by_desc: "set (order_by_desc key xs) = set xs"
  using mset_order_by_desc [of key xs] by (metis set_mset_mset)

lemma length_order_by_desc: "length (order_by_desc key xs) = length xs"
  using mset_order_by_desc [of key xs] by (metis size_mset)

lemma set_insert_desc: "set (insert_desc key x xs) = insert x (set xs)"
  using mset_insert_desc [of key x xs] by (metis set_mset_add_mset_insert set_mset_mset)

lemma descending_insert_desc:
  "sorted_wrt (\<lambda>a b. key b \<le> key a) xs \<Longrightarrow> sorted_wrt (\<lambda>a b. key b \<le> key a) (insert_desc key x xs)"
proof (induction xs)
  case Nil
  then show ?case by simp
next
  case (Cons y ys)
  show ?case
  proof (cases "key y \<le> key x")
    case True
    with Cons.prems show ?thesis by auto
  next
    case False
    with Cons show ?thesis by (auto simp: set_insert_desc)
  qed
qed

lemma descending_order_by_desc: "sorted_wrt (\<lambda>a b. key b \<le> key a) (order_by_desc key xs)"
  by (induction xs) (simp_all add: descending_insert_desc)

lemma order_by_desc_first:
  assumes "order_by_desc key xs = y # ys"
  shows "y \<in> set xs \<and> (\<forall>x\<in>set xs. key x \<le> key y)"
proof -
  have "sorted_wrt (\<lambda>a b. key b \<le> key a) (y # ys)"
    using descending_order_by_desc [of key xs] assms by simp
  then have "\<forall>x\<in>set (y # ys). key x \<le> key y" by auto
  moreover have "set (y # ys) = set xs"
    using set_order_by_desc [of key xs] assms by simp
  ultimately show ?thesis by auto
qed

lemma order_by_desc_Nil_iff: "order_by_desc key xs = [] \<longleftrightarrow> xs = []"
  using length_order_by_desc [of key xs] by (metis length_0_conv)

lemma first_of_limit_1:
  "sql_limit 1 rows = (case rows of [] \<Rightarrow> [] | r # _ \<Rightarrow> [r])"
  by (simp add: sql_limit_def split: list.split)

subsection \<open>Reports\<close>

lemma set_movies_with_counts:
  "set (movies_with_counts db) = (\<lambda>m. (m, actor_count db m)) ` set (movies db)"
  by (simp add: movies_with_counts_def)

lemma sorted_actors_of_movie: "sorted (map (\<lambda>(i, imdb, name). name) (actors_of_movie db movie_id))"
proof -
  have "map (\<lambda>(i, imdb, name). name) (actors_of_movie db movie_id) =
      map a_name (sort_key a_name (filter (\<lambda>a. a_movie_id a = movie_id) (actors db)))"
    by (simp add: actors_of_movie_def comp_def)
  then show ?thesis by simp
qed

lemma mset_actors_of_movie:
  "mset (actors_of_movie db movie_id) =
     image_mset (\<lambda>a. (a_id a, a_imdb_id a, a_name a))
       (filter_mset (\<lambda>a. a_movie_id a = movie_id) (mset (actors db)))"
  by (simp add: actors_of_movie_def)

lemma length_actors_of_movie: "length (actors_of_movie db (m_id m)) = actor_count db m"
  by (simp add: actors_of_movie_def actor_count_def)

subsection \<open>LIKE\<close>

lemma pattern_compare_percent:
  "pattern_compare (CHR ''%'' # ps) t \<longleftrightarrow> (\<exists>k\<le>length t. pattern_compare ps (drop k t))"
proof (induction t)
  case Nil
  then show ?case by simp
next
  case (Cons c cs)
  have "(\<exists>k\<le>length (c # cs). pattern_compare ps (drop k (c # cs))) \<longleftrightarrow>
      pattern_compare ps (c # cs) \<or> (\<exists>k\<le>length cs. pattern_compare ps (drop k cs))"
  proof
    assume "\<exists>k\<le>length (c # cs). pattern_compare ps (drop k (c # cs))"
    then obtain k where k: "k \<le> length (c # cs)" "pattern_compare ps (drop k (c # cs))" by blast
    show "pattern_compare ps (c # cs) \<or> (\<exists>k\<le>length cs. pattern_compare ps (drop k cs))"
    proof (cases k)
      case 0
      with k show ?thesis by simp
    next
      case (Suc j)
      with k have "j \<le> length cs" "pattern_compare ps (drop j cs)" by simp_all
      then show ?thesis by blast
    qed
  next
    assume "pattern_compare ps (c # cs) \<or> (\<exists>k\<le>length cs. pattern_compare ps (drop k cs))"
    then show "\<exists>k\<le>length (c # cs). pattern_compare ps (drop k (c # cs))"
    proof
      assume "pattern_compare ps (c # cs)"
      then have "pattern_compare ps (drop 0 (c # cs))" by simp
      then show ?thesis by blast
    next
      assume "\<exists>k\<le>length cs. pattern_compare ps (drop k cs)"
      then obtain k where "k \<le> length cs" "pattern_compare ps (drop k cs)" by blast
      then have "Suc k \<le> length (c # cs)" "pattern_compare ps (drop (Suc k) (c # cs))" by simp_all
      then show ?thesis by blast
    qed
  qed
  with Cons show ?case by simp
qed

lemma pattern_compare_plain:
  assumes "CHR ''%'' \<notin> set d" and "CHR ''_'' \<notin> set d"
  shows "pattern_compare (d @ ps) t \<longleftrightarrow>
    length d \<le> length t \<and> map ascii_lower (take (length d) t) = map ascii_lower d \<and>
    pattern_compare ps (drop (length d) t)"
  using assms
proof (induction d arbitrary: t)
  case Nil
  then show ?case by simp
next
  case (Cons p d)
  show ?case
  proof (cases t)
    case Nil
    with Cons.prems show ?thesis by auto
  next
    case (Cons c cs)
    with Cons.prems Cons.IH [of cs] show ?thesis by auto
  qed
qed

lemma pattern_compare_any: "pattern_compare ''%'' t"
proof -
  have "pattern_compare [] (drop (length t) t)" by simp
  then show ?thesis unfolding pattern_compare_percent by blast
qed

lemma folded_sublist:
  "(\<exists>k\<le>length t. length d \<le> length (drop k t) \<and>
      map f (take (length d) (drop k t)) = map f d) \<longleftrightarrow>
   sublist (map f d) (map f t)"
proof
  assume "\<exists>k\<le>length t. length d \<le> length (drop k t) \<and>
      map f (take (length d) (drop k t)) = map f d"
  then obtain k where k: "map f (take (length d) (drop k t)) = map f d" by blast
  have "t = take k t @ take (length d) (drop k t) @ drop (length d) (drop k t)"
    by (metis append_take_drop_id)
  then have "map f t = map f (take k t) @ map f d @ map f (drop (length d) (drop k t))"
    using k by (metis map_append)
  then show "sublist (map f d) (map f t)" unfolding sublist_def by blast
next
  assume "sublist (map f d) (map f t)"
  then obtain ps ss where eq: "map f t = ps @ map f d @ ss" unfolding sublist_def by blast
  let ?k = "length ps"
  from eq have len: "length t = length ps + length d + length ss"
    by (metis length_append length_map add.assoc)
  have "map f (take (length d) (drop ?k t)) = take (length d) (drop ?k (map f t))"
    by (simp add: take_map drop_map)
  also have "\<dots> = map f d" by (simp add: eq)
  finally have "map f (take (length d) (drop ?k t)) = map f d" .
  moreover from len have "?k \<le> length t" "length d \<le> length (drop ?k t)" by simp_all
  ultimately show "\<exists>k\<le>length t. length d \<le> length (drop k t) \<and>
      map f (take (length d) (drop k t)) = map f d" by blast
qed

lemma pattern_compare_contains:
  assumes "CHR ''%'' \<notin> set d" and "CHR ''_'' \<notin> set d"
  shows "pattern_compare (''%'' @ d @ ''%'') t \<longleftrightarrow> sublist (map ascii_lower d) (map ascii_lower t)"
proof -
  have "pattern_compare (''%'' @ d @ ''%'') t \<longleftrightarrow> (\<exists>k\<le>length t. pattern_compare (d @ ''%'') (drop k t))"
    using pattern_compare_percent [of "d @ ''%''" t] by simp
  also have "\<dots> \<longleftrightarrow> (\<exists>k\<le>length t. length d \<le> length (drop k t) \<and>
      map ascii_lower (take (length d) (drop k t)) = map ascii_lower d)"
    by (simp only: pattern_compare_plain [OF assms] pattern_compare_any simp_thms)
  also have "\<dots> \<longleftrightarrow> sublist (map ascii_lower d) (map ascii_lower t)"
    by (rule folded_sublist)
  finally show ?thesis .
qed

subsection \<open>Lookups\<close>

lemma filter_movies_with_counts:
  "map fst (filter (\<lambda>(m, n). P m) (movies_with_counts db)) = filter P (movies db)"
  by (induction "movies db" arbitrary: db) (auto simp: movies_with_counts_def filter_map comp_def)


lemma descending_by_score:
  "sorted_wrt (\<lambda>x y. m_imdb_score (fst y) \<le> m_imdb_score (fst x))
     (order_by_desc (\<lambda>(m, n). m_imdb_score m) rows)"
proof -
  have "sorted_wrt (\<lambda>x y. (case y of (m, n) \<Rightarrow> m_imdb_score m) \<le> (case x of (m, n) \<Rightarrow> m_imdb_score m))
     (order_by_desc (\<lambda>(m, n). m_imdb_score m) rows)"
    by (rule descending_order_by_desc)
  then show ?thesis by (simp add: split_beta)
qed

lemma movies_of_ordered_filter:
  "mset (map fst (order_by_desc key (filter (\<lambda>(m, n). P m) (movies_with_counts db)))) =
     mset (filter P (movies db))"
proof -
  have "mset (map fst (order_by_desc key (filter (\<lambda>(m, n). P m) (movies_with_counts db)))) =
      image_mset fst (mset (order_by_desc key (filter (\<lambda>(m, n). P m) (movies_with_counts db))))"
    by simp
  also have "\<dots> = image_mset fst (mset (filter (\<lambda>(m, n). P m) (movies_with_counts db)))"
    by (simp only: mset_order_by_desc)
  also have "\<dots> = mset (map fst (filter (\<lambda>(m, n). P m) (movies_with_counts db)))"
    by simp
  also have "\<dots> = mset (filter P (movies db))"
    by (simp only: filter_movies_with_counts)
  finally show ?thesis .
qed

subsection \<open>Grouping by rating\<close>

lemma merged_step:
  "merged (bd(m_rating (fst row) \<mapsto> (case bd (m_rating (fst row)) of None \<Rightarrow> [] | Some l \<Rightarrow> l)
      @ [summary_of row])) rows = merged bd (row # rows)"
proof
  fix r
  show "merged (bd(m_rating (fst row) \<mapsto> (case bd (m_rating (fst row)) of None \<Rightarrow> [] | Some l \<Rightarrow> l)
      @ [summary_of row])) rows r = merged bd (row # rows) r"
    by (cases "r = m_rating (fst row)"; cases "bd r") (simp_all add: merged_def rated_def)
qed

lemma tallied_step:
  "tallied (cnt(m_rating (fst row) \<mapsto> (case cnt (m_rating (fst row)) of None \<Rightarrow> 0 | Some c \<Rightarrow> c) + 1))
      rows = tallied cnt (row # rows)"
proof
  fix r
  show "tallied (cnt(m_rating (fst row) \<mapsto> (case cnt (m_rating (fst row)) of None \<Rightarrow> 0 | Some c \<Rightarrow> c) + 1))
      rows r = tallied cnt (row # rows) r"
    by (cases "r = m_rating (fst row)"; cases "cnt r") (simp_all add: tallied_def rated_def)
qed

lemma group_by_rating_step:
  assumes "\<forall>r. bd r = None \<longleftrightarrow> cnt r = None"
  shows "group_by_rating (row # rows) (bd, cnt) =
    group_by_rating rows
      (bd(m_rating (fst row) \<mapsto> (case bd (m_rating (fst row)) of None \<Rightarrow> [] | Some l \<Rightarrow> l)
          @ [summary_of row]),
       cnt(m_rating (fst row) \<mapsto> (case cnt (m_rating (fst row)) of None \<Rightarrow> 0 | Some c \<Rightarrow> c) + 1))"
proof (cases "bd (m_rating (fst row))")
  case None
  with assms have "cnt (m_rating (fst row)) = None" by simp
  with None show ?thesis by (simp add: Let_def)
next
  case (Some l)
  with assms have "cnt (m_rating (fst row)) \<noteq> None" by (metis option.distinct(1))
  then obtain c where "cnt (m_rating (fst row)) = Some c" by blast
  with Some show ?thesis by (simp add: Let_def)
qed

lemma group_by_rating_from:
  assumes "\<forall>r. bd r = None \<longleftrightarrow> cnt r = None"
  shows "group_by_rating rows (bd, cnt) = Inr (merged bd rows, tallied cnt rows)"
  using assms
proof (induction rows arbitrary: bd cnt)
  case Nil
  have "merged bd [] = bd" "tallied cnt [] = cnt"
    by (auto simp: merged_def tallied_def rated_def fun_eq_iff split: option.splits)
  then show ?case by simp
next
  case (Cons row rows)
  let ?k = "m_rating (fst row)"
  let ?bd = "bd(?k \<mapsto> (case bd ?k of None \<Rightarrow> [] | Some l \<Rightarrow> l) @ [summary_of row])"
  let ?cnt = "cnt(?k \<mapsto> (case cnt ?k of None \<Rightarrow> 0 | Some c \<Rightarrow> c) + 1)"
  from Cons.prems have inv: "\<forall>r. ?bd r = None \<longleftrightarrow> ?cnt r = None" by simp
  have "group_by_rating (row # rows) (bd, cnt) = group_by_rating rows (?bd, ?cnt)"
    using Cons.prems by (rule group_by_rating_step)
  also have "\<dots> = Inr (merged ?bd rows, tallied ?cnt rows)"
    using inv by (rule Cons.IH)
  also have "\<dots> = Inr (merged bd (row # rows), tallied cnt (row # rows))"
    by (simp only: merged_step tallied_step)
  finally show ?case .
qed

lemma group_by_rating_empty:
  "group_by_rating rows (Map.empty, Map.empty) = Inr (grouped rows, counted rows)"
proof -
  have "merged Map.empty rows = grouped rows" "tallied Map.empty rows = counted rows"
    by (simp_all add: merged_def tallied_def grouped_def counted_def)
  then show ?thesis using group_by_rating_from [of Map.empty Map.empty rows] by simp
qed


lemma top_movies_split:
  "\<exists>rest. mset (top_movies top_n db @ rest) = mset (movies_with_counts db) \<and>
     (\<forall>x\<in>set (top_movies top_n db). \<forall>y\<in>set rest. m_imdb_score (fst y) \<le> m_imdb_score (fst x))"
proof -
  let ?all = "order_by_desc (\<lambda>(m, n). m_imdb_score m) (movies_with_counts db)"
  let ?k = "if top_n < 0 then length ?all else nat top_n"
  have sel: "top_movies top_n db = take ?k ?all"
    by (simp add: top_movies_def sql_limit_def)
  have "sorted_wrt (\<lambda>x y. m_imdb_score (fst y) \<le> m_imdb_score (fst x)) (take ?k ?all @ drop ?k ?all)"
    using descending_by_score [of "movies_with_counts db"] by simp
  then have "\<forall>x\<in>set (take ?k ?all). \<forall>y\<in>set (drop ?k ?all).
      m_imdb_score (fst y) \<le> m_imdb_score (fst x)"
    unfolding sorted_wrt_append by blast
  moreover have "mset (take ?k ?all @ drop ?k ?all) = mset (movies_with_counts db)"
    by (simp add: mset_order_by_desc)
  ultimately show ?thesis unfolding sel by blast
qed

lemma length_top_movies:
  "0 \<le> top_n \<Longrightarrow> length (top_movies top_n db) = min (nat top_n) (length (movies db))"
  by (simp add: top_movies_def sql_limit_def length_order_by_desc movies_with_counts_def)

lemma top3: "top_movies 3 scores_db =
    [(film 1 ''First'' ''Ann Lee'' ''PG'' 90 9.0, 0),
     (film 2 ''Second'' ''Bo Diaz'' ''PG'' 100 8.5, 0),
     (film 3 ''Third'' ''Cy Park'' ''R'' 110 8.5, 0)]"
  by (simp add: top_movies_def sql_limit_def scores_db_def movies_with_counts_def actor_count_def
      film_def less_eq_sql_real_def)

lemma counted_top3: "counted (top_movies 3 scores_db) = [''PG'' \<mapsto> 2, ''R'' \<mapsto> 1]"
  unfolding top3 by (auto simp: counted_def rated_def film_def fun_eq_iff)

subsection \<open>The loops over well-formed statements\<close>

lemma for_matches_movies_fresh:
  assumes "\<forall>t\<in>set ts. well_formed_movie t"
    and "distinct (map (\<lambda>t. decimal (mt_id t)) ts)"
    and "\<forall>t\<in>set ts. decimal (mt_id t) \<notin> m_id ` set (movies db)"
  shows "\<exists>db'. for_matches (insert_movie_body conn) (map movie_groups ts) (db, n, out) =
        (None, (db', n + length ts, out)) \<and>
      actors db' = actors db \<and>
      mset (movies db') = mset (movies db) + mset (map movie_row ts)"
  using assms
proof (induction ts arbitrary: db n)
  case Nil
  then show ?case by simp
next
  case (Cons t ts)
  let ?db = "db\<lparr>movies := insort_key m_id (movie_row t) (movies db)\<rparr>"
  from Cons.prems have body: "insert_movie_body conn (movie_groups t) (db, n, out) =
      (None, (?db, Suc n, out))"
    by (simp add: insert_movie_body_new)
  have ids: "m_id ` set (movies ?db) = insert (decimal (mt_id t)) (m_id ` set (movies db))"
    by (simp add: set_insort_key movie_row_def)
  from Cons.prems have "\<forall>u\<in>set ts. decimal (mt_id u) \<notin> m_id ` set (movies ?db)"
    unfolding ids by (auto simp: image_iff)
  with Cons.prems Cons.IH [of ?db "Suc n"]
  obtain db' where rest: "for_matches (insert_movie_body conn) (map movie_groups ts) (?db, Suc n, out) =
        (None, (db', Suc n + length ts, out))"
    and a: "actors db' = actors ?db"
    and m: "mset (movies db') = mset (movies ?db) + mset (map movie_row ts)"
    by auto
  from body rest have "for_matches (insert_movie_body conn) (map movie_groups (t # ts)) (db, n, out) =
        (None, (db', n + length (t # ts), out))"
    by simp
  moreover from a have "actors db' = actors db" by simp
  moreover from m have "mset (movies db') = mset (movies db) + mset (map movie_row (t # ts))"
    by simp
  ultimately show ?case by blast
qed

lemma for_matches_actors_fresh:
  assumes "\<forall>t\<in>set ts. well_formed_actor t"
    and "distinct (map (\<lambda>t. decimal (at_id t)) ts)"
    and "\<forall>t\<in>set ts. decimal (at_id t) \<notin> a_id ` set (actors db)"
    and "\<forall>t\<in>set ts. foreign_keys conn \<longrightarrow> decimal (at_movie_id t) \<in> m_id ` set (movies db)"
  shows "\<exists>db'. for_matches (insert_actor_body conn) (map actor_groups ts) (db, n, out) =
        (None, (db', n + length ts, out)) \<and>
      movies db' = movies db \<and>
      mset (actors db') = mset (actors db) + mset (map actor_row ts)"
  using assms
proof (induction ts arbitrary: db n)
  case Nil
  then show ?case by simp
next
  case (Cons t ts)
  let ?db = "db\<lparr>actors := insort_key a_id (actor_row t) (actors db)\<rparr>"
  from Cons.prems have body: "insert_actor_body conn (actor_groups t) (db, n, out) =
      (None, (?db, Suc n, out))"
    by (simp add: insert_actor_body_new)
  have ids: "a_id ` set (actors ?db) = insert (decimal (at_id t)) (a_id ` set (actors db))"
    by (simp add: set_insort_key actor_row_def)
  from Cons.prems have fresh: "\<forall>u\<in>set ts. decimal (at_id u) \<notin> a_id ` set (actors ?db)"
    unfolding ids by (auto simp: image_iff)
  from Cons.prems have refs: "\<forall>u\<in>set ts. foreign_keys conn \<longrightarrow>
      decimal (at_movie_id u) \<in> m_id ` set (movies ?db)"
    by simp
  from Cons.prems fresh refs Cons.IH [of ?db "Suc n"]
  obtain db' where rest: "for_matches (insert_actor_body conn) (map actor_groups ts) (?db, Suc n, out) =
        (None, (db', Suc n + length ts, out))"
    and m: "movies db' = movies ?db"
    and a: "mset (actors db') = mset (actors ?db) + mset (map actor_row ts)"
    by auto
  from body rest have "for_matches (insert_actor_body conn) (map actor_groups (t # ts)) (db, n, out) =
        (None, (db', n + length (t # ts), out))"
    by simp
  moreover from m have "movies db' = movies db" by simp
  moreover from a have "mset (actors db') = mset (actors db) + mset (map actor_row (t # ts))"
    by simp
  ultimately show ?case by blast
qed


lemma length_eq_of_mset: "mset xs = mset ys \<Longrightarrow> length xs = length ys"
  by (metis size_mset)

subsection \<open>The example statements\<close>

lemma alien_text_wf: "well_formed_movie alien_text"
  by (simp add: well_formed_movie_def movie_grammar_def alien_text_def digits1_def plain_def
      blank_def score1_def float_syntax_def decimal_def digit_val_def int_text_def stored_texts_def
      utf8_length_def)

lemma heat_text_wf: "well_formed_movie heat_text"
  by (simp add: well_formed_movie_def movie_grammar_def heat_text_def digits1_def plain_def
      blank_def score1_def float_syntax_def decimal_def digit_val_def int_text_def stored_texts_def
      utf8_length_def)

lemma remake_text_wf: "well_formed_movie remake_text"
  by (simp add: well_formed_movie_def movie_grammar_def remake_text_def alien_text_def
      digits1_def plain_def blank_def score1_def float_syntax_def decimal_def digit_val_def int_text_def stored_texts_def
      utf8_length_def)

lemma weaver_text_wf: "well_formed_actor weaver_text"
  by (simp add: well_formed_actor_def actor_grammar_def weaver_text_def digits1_def plain_def
      decimal_def digit_val_def int_text_def stored_texts_def utf8_length_def)

lemma example_ids:
  "decimal (mt_id alien_text) = 1" "decimal (mt_id heat_text) = 2"
  "decimal (mt_id remake_text) = 1"
  "decimal (at_id weaver_text) = 10" "decimal (at_movie_id weaver_text) = 1"
  by (simp_all add: alien_text_def heat_text_def remake_text_def weaver_text_def decimal_def
      digit_val_def)

lemma alien_statement_text:
  "movie_statement alien_text =
     ''INSERT INTO movies VALUES(1,'tt0078748','Alien','Ridley Scott',1979,'R','Horror, Sci-Fi',117,'UK','English',8.5,905275,89)''"
  by (simp add: movie_statement_def alien_text_def)

subsection \<open>Runs of a class\<close>

lemma list_all_takeWhile: "list_all P (takeWhile P xs)"
  by (induction xs) simp_all

subsection \<open>Scanning past text that does not match\<close>

lemma lit_not_prefix: "\<not> prefix lead x \<Longrightarrow> re_match (Lit lead # ts) x = None"
proof -
  assume np: "\<not> prefix lead x"
  have "take (length lead) x \<noteq> lead"
  proof
    assume "take (length lead) x = lead"
    then have "prefix lead x" by (metis take_is_prefix)
    with np show False by simp
  qed
  then show ?thesis by (simp add: re_match.simps(2))
qed

lemma skip_inside:
  assumes "\<not> sublist lead (tl s)" and "last s \<notin> set lead" and "tl s = v @ u"
  shows "finditer (Lit lead # ts) (u @ rest) = finditer (Lit lead # ts) rest"
  using assms(3)
proof (induction u arbitrary: v)
  case Nil
  then show ?case by simp
next
  case (Cons c u)
  have np: "\<not> prefix lead ((c # u) @ rest)"
  proof
    assume "prefix lead ((c # u) @ rest)"
    then consider "prefix lead (c # u)" | us where "lead = (c # u) @ us"
      unfolding prefix_append by blast
    then show False
    proof cases
      case 1
      then obtain ss where "c # u = lead @ ss" unfolding prefix_def by blast
      with Cons.prems have "tl s = v @ lead @ ss" by simp
      then have "sublist lead (tl s)" unfolding sublist_def by blast
      with assms(1) show False by simp
    next
      case 2
      from Cons.prems have "last (tl s) = last (c # u)" by simp
      moreover from Cons.prems have "tl s \<noteq> []" by simp
      then have "last s = last (tl s)" by (metis last_tl list.sel(2))
      ultimately have "last s = last (c # u)" by simp
      moreover have "last (c # u) \<in> set (c # u)" by (rule last_in_set) simp
      ultimately have "last s \<in> set lead" using 2 by auto
      with assms(2) show False by simp
    qed
  qed
  have "finditer (Lit lead # ts) ((c # u) @ rest) = finditer (Lit lead # ts) (u @ rest)"
    using lit_not_prefix [OF np] by (simp add: finditer_skip)
  also have "\<dots> = finditer (Lit lead # ts) rest"
    using Cons.IH [of "v @ [c]"] Cons.prems by simp
  finally show ?case .
qed

lemma skip_over:
  assumes "re_match (Lit lead # ts) (s @ rest) = None"
    and "\<not> sublist lead (tl s)" and "s \<noteq> []" and "last s \<notin> set lead"
  shows "finditer (Lit lead # ts) (s @ rest) = finditer (Lit lead # ts) rest"
proof -
  from assms(3) obtain c u where s: "s = c # u" by (cases s) auto
  have "finditer (Lit lead # ts) (s @ rest) = finditer (Lit lead # ts) (u @ rest)"
    using assms(1) unfolding s by (simp add: finditer_skip)
  also have "\<dots> = finditer (Lit lead # ts) rest"
    using skip_inside [OF assms(2) assms(4), of "[]" u] by (simp add: s)
  finally show ?thesis .
qed

subsection \<open>The texts that the patterns match\<close>

lemma re_match_Lit_elim:
  assumes "re_match (Lit p # ts) s = Some x"
  shows "\<exists>s'. s = p @ s' \<and> re_match ts s' = Some x"
proof -
  from assms have "take (length p) s = p" and "re_match ts (drop (length p) s) = Some x"
    by (simp_all add: re_match.simps(2) split: if_splits)
  moreover have "s = take (length p) s @ drop (length p) s" by simp
  ultimately show ?thesis by metis
qed

lemma committed_parse:
  "committed pat \<Longrightarrow> re_match pat s = Some (gs, r) \<Longrightarrow>
     \<exists>ps. fits pat ps \<and> s = assemble pat ps @ r \<and> gs = captured pat ps"
proof (induction pat arbitrary: s gs r rule: committed.induct)
  case 1
  then show ?case by simp
next
  case (2 p ts)
  from re_match_Lit_elim [OF "2.prems"(2)] obtain s' where s: "s = p @ s'"
    and m: "re_match ts s' = Some (gs, r)" by blast
  from "2.prems"(1) have "committed ts" by simp
  from "2.IH" [OF this m] obtain ps where "fits ts ps" "s' = assemble ts ps @ r"
    "gs = captured ts ps" by blast
  with s show ?case by auto
next
  case (3 c q d ds ts)
  from "3.prems"(1) have nd: "\<not> in_cls c d" and ct: "committed ts" by simp_all
  let ?g = "takeWhile (in_cls c) s"
  from "3.prems"(2) re_match_Cap_commit [OF nd, of q ds ts s]
  obtain gs' where ok: "\<not> (q = Greedy1 \<and> ?g = [])"
    and m: "re_match (Lit (d # ds) # ts) (dropWhile (in_cls c) s) = Some (gs', r)"
    and gs: "gs = ?g # gs'"
    by (auto split: if_splits option.splits)
  from re_match_Lit_elim [OF m] obtain s' where s': "dropWhile (in_cls c) s = (d # ds) @ s'"
    and m': "re_match ts s' = Some (gs', r)" by blast
  from "3.IH" [OF ct m'] obtain ps where ps: "fits ts ps" "s' = assemble ts ps @ r"
    "gs' = captured ts ps" by blast
  have "s = ?g @ dropWhile (in_cls c) s" by simp
  with s' ps have "s = assemble (Cap c q # Lit (d # ds) # ts) (?g # ps) @ r" by simp
  moreover have "fits (Cap c q # Lit (d # ds) # ts) (?g # ps)"
    using ok ps(1) by (simp add: list_all_takeWhile)
  moreover have "gs = captured (Cap c q # Lit (d # ds) # ts) (?g # ps)"
    using gs ps(3) by simp
  ultimately show ?case by blast
next
  case (4 c q d ds ts)
  from "4.prems"(1) have nd: "\<not> in_cls c d" and ct: "committed ts" by simp_all
  let ?g = "takeWhile (in_cls c) s"
  from "4.prems"(2) re_match_Rep_commit [OF nd, of q ds ts s]
  have ok: "\<not> (q = Greedy1 \<and> ?g = [])"
    and m: "re_match (Lit (d # ds) # ts) (dropWhile (in_cls c) s) = Some (gs, r)"
    by (auto split: if_splits option.splits)
  from re_match_Lit_elim [OF m] obtain s' where s': "dropWhile (in_cls c) s = (d # ds) @ s'"
    and m': "re_match ts s' = Some (gs, r)" by blast
  from "4.IH" [OF ct m'] obtain ps where ps: "fits ts ps" "s' = assemble ts ps @ r"
    "gs = captured ts ps" by blast
  have "s = ?g @ dropWhile (in_cls c) s" by simp
  with s' ps have "s = assemble (Rep c q # Lit (d # ds) # ts) (?g # ps) @ r" by simp
  moreover have "fits (Rep c q # Lit (d # ds) # ts) (?g # ps)"
    using ok ps(1) by (simp add: list_all_takeWhile)
  moreover have "gs = captured (Rep c q # Lit (d # ds) # ts) (?g # ps)"
    using ps(3) by simp
  ultimately show ?case by blast
qed simp_all

lemma committed_actor_pattern: "committed actor_pattern"
  by (simp add: actor_pattern_def)

lemma committed_movie_pattern: "committed movie_pattern"
  by (simp add: movie_pattern_def)

lemma actor_pattern_parse:
  assumes "re_match actor_pattern s = Some (gs, r)"
  shows "\<exists>t. actor_grammar t \<and> gs = actor_groups t \<and> s = actor_statement t @ r"
proof -
  from committed_parse [OF committed_actor_pattern assms]
  obtain ps where f: "fits actor_pattern ps" and s: "s = assemble actor_pattern ps @ r"
    and gs: "gs = captured actor_pattern ps" by blast
  from f obtain a b c d where ps: "ps = [a, b, c, d]"
    by (auto simp: actor_pattern_def split: list.splits)
  let ?t = "\<lparr>at_id = a, at_movie_id = b, at_imdb_id = c, at_name = d\<rparr>"
  from f have "actor_grammar ?t"
    by (simp add: ps actor_pattern_def actor_grammar_def digits1_def plain_def)
  moreover from gs have "gs = actor_groups ?t"
    by (simp add: ps actor_pattern_def actor_groups_def)
  moreover from s have "s = actor_statement ?t @ r"
    by (simp add: ps actor_pattern_def actor_statement_def)
  ultimately show ?thesis by blast
qed

lemma movie_pattern_parse:
  assumes "re_match movie_pattern s = Some (gs, r)"
  shows "\<exists>t. movie_grammar t \<and> gs = movie_groups t \<and> s = movie_statement t @ r"
proof -
  from committed_parse [OF committed_movie_pattern assms]
  obtain ps where f: "fits movie_pattern ps" and s: "s = assemble movie_pattern ps @ r"
    and gs: "gs = captured movie_pattern ps" by blast
  from f obtain p1 p2 p3 p4 p5 p6 p7 p8 p9 p10 p11 p12 p13 p14 p15 p16
    where ps: "ps = [p1, p2, p3, p4, p5, p6, p7, p8, p9, p10, p11, p12, p13, p14, p15, p16]"
    by (auto simp: movie_pattern_def split: list.splits)
  let ?t = "\<lparr>mt_id = p1, mt_imdb_id = p2, mt_title = p3, mt_director = p4, mt_gap1 = p5,
      mt_year = p6, mt_rating = p7, mt_genres = p8, mt_gap2 = p9, mt_runtime = p10,
      mt_country = p11, mt_language = p12, mt_gap3 = p13, mt_imdb_score = p14,
      mt_imdb_votes = p15, mt_metacritic_score = p16\<rparr>"
  from f have "movie_grammar ?t"
    by (simp add: ps movie_pattern_def movie_grammar_def digits1_def plain_def blank_def
        score1_def)
  moreover from gs have "gs = movie_groups ?t"
    by (simp add: ps movie_pattern_def movie_groups_def)
  moreover from s have "s = movie_statement ?t @ r"
    by (simp add: ps movie_pattern_def movie_statement_def)
  ultimately show ?thesis by blast
qed

subsection \<open>Counting quotes\<close>

lemma quotes_append: "quotes (a @ b) = quotes a + quotes b"
  by (simp add: quotes_def)

lemma quotes_free: "list_all (\<lambda>c. c \<noteq> CHR 0x27) s \<Longrightarrow> quotes s = 0"
  by (induction s) (simp_all add: quotes_def)

lemma quotes_plain: "plain s \<Longrightarrow> quotes s = 0"
  by (rule quotes_free) (simp add: plain_def list_all_iff)

lemma quotes_not_plain: "\<not> plain s \<Longrightarrow> 0 < quotes s"
  by (induction s) (auto simp: plain_def quotes_def)

lemma quotes_literals:
  "quotes ''INSERT INTO actors VALUES('' = 0"
  "quotes ''INSERT INTO movies VALUES('' = 0"
  "quotes [CHR '','', CHR 0x27] = 1"
  "quotes [CHR 0x27, CHR '','', CHR 0x27] = 2"
  "quotes [CHR 0x27, CHR '')''] = 1"
  "quotes [CHR 0x27] = 1"
  "quotes '','' = 0"
  "quotes '')'' = 0"
  by (simp_all add: quotes_def)

lemma class_without_quote:
  "in_cls Digit c \<Longrightarrow> c \<noteq> CHR 0x27" "in_cls Space c \<Longrightarrow> c \<noteq> CHR 0x27"
  "in_cls ScoreChar c \<Longrightarrow> c \<noteq> CHR 0x27"
  by auto

lemma quotes_digits: "list_all (in_cls Digit) s \<Longrightarrow> quotes s = 0"
  by (induction s) (simp_all add: quotes_def class_without_quote del: in_cls.simps)

lemma quotes_blank: "blank s \<Longrightarrow> quotes s = 0"
  unfolding blank_def
  by (induction s) (simp_all add: quotes_def class_without_quote del: in_cls.simps)

lemma quotes_score: "list_all (in_cls ScoreChar) s \<Longrightarrow> quotes s = 0"
  by (induction s) (simp_all add: quotes_def class_without_quote del: in_cls.simps)

lemma quotes_actor_statement:
  "quotes (actor_statement t) =
     4 + (quotes (at_id t) + quotes (at_movie_id t) + quotes (at_imdb_id t) + quotes (at_name t))"
  unfolding actor_statement_def quotes_append quotes_literals by linarith

lemma quotes_movie_statement:
  "quotes (movie_statement t) =
     14 + (quotes (mt_id t) + quotes (mt_imdb_id t) + quotes (mt_title t) +
       quotes (mt_director t) + quotes (mt_gap1 t) + quotes (mt_year t) + quotes (mt_rating t) +
       quotes (mt_genres t) + quotes (mt_gap2 t) + quotes (mt_runtime t) +
       quotes (mt_country t) + quotes (mt_language t) + quotes (mt_gap3 t) +
       quotes (mt_imdb_score t) + quotes (mt_imdb_votes t) + quotes (mt_metacritic_score t))"
  unfolding movie_statement_def quotes_append quotes_literals by linarith

lemma quotes_actor_grammar: "actor_grammar t \<Longrightarrow> quotes (actor_statement t) = 4"
  unfolding quotes_actor_statement
  by (simp add: actor_grammar_def digits1_def quotes_plain quotes_digits)

lemma quotes_movie_grammar: "movie_grammar t \<Longrightarrow> quotes (movie_statement t) = 14"
  unfolding quotes_movie_statement
  by (simp add: movie_grammar_def digits1_def score1_def quotes_plain quotes_digits
      quotes_blank quotes_score)

lemma shorter_by_quotes:
  assumes "s @ rest = u @ r" and "quotes u < quotes s"
  shows "prefix u s"
proof -
  from assms(1) consider v where "s = u @ v" | v where "u = s @ v"
    by (auto simp: append_eq_append_conv2)
  then show ?thesis
  proof cases
    case 1
    then show ?thesis by simp
  next
    case 2
    with assms(2) show ?thesis by (simp add: quotes_append)
  qed
qed

lemma begins_actor_matches:
  assumes "begins_actor_statement s"
  shows "re_match actor_pattern (s @ rest) \<noteq> None"
proof -
  from assms obtain t v where g: "actor_grammar t" and s: "s = actor_statement t @ v"
    by (auto simp: begins_actor_statement_def prefix_def)
  from re_match_actor_statement [OF g, of "v @ rest"] show ?thesis by (simp add: s)
qed

lemma begins_movie_matches:
  assumes "begins_movie_statement s"
  shows "re_match movie_pattern (s @ rest) \<noteq> None"
proof -
  from assms obtain t v where g: "movie_grammar t" and s: "s = movie_statement t @ v"
    by (auto simp: begins_movie_statement_def prefix_def)
  from re_match_movie_statement [OF g, of "v @ rest"] show ?thesis by (simp add: s)
qed

lemma quotes_zero_plain: "quotes s = 0 \<Longrightarrow> plain s"
  using quotes_not_plain [of s] by auto

lemma cut_at_quote:
  assumes "plain u" and "plain v" and "u @ CHR 0x27 # p = v @ CHR 0x27 # q"
  shows "u = v \<and> p = q"
proof -
  from assms(1) have "takeWhile (in_cls NotQuote) (u @ CHR 0x27 # p) = u"
    by (simp add: plain_def)
  moreover from assms(2) have "takeWhile (in_cls NotQuote) (v @ CHR 0x27 # q) = v"
    by (simp add: plain_def)
  ultimately have "u = v" using assms(3) by simp
  with assms(3) show ?thesis by simp
qed

lemma plain_digits: "digits1 s \<Longrightarrow> plain s"
  by (auto simp: digits1_def plain_def list_all_iff)

lemma plain_append: "plain (a @ b) = (plain a \<and> plain b)"
  by (simp add: plain_def)

lemma actor_fields_unique:
  assumes "plain (at_id t)" and "plain (at_movie_id t)" and "plain (at_imdb_id t)"
    and "plain (at_name t)" and "actor_grammar t'"
    and "actor_statement t @ rest = actor_statement t' @ r"
  shows "at_imdb_id t = at_imdb_id t' \<and> at_name t = at_name t'"
proof -
  let ?lead = "''INSERT INTO actors VALUES(''"
  let ?u = "?lead @ at_id t @ '','' @ at_movie_id t @ '',''"
  let ?v = "?lead @ at_id t' @ '','' @ at_movie_id t' @ '',''"
  let ?p = "at_imdb_id t @ CHR 0x27 # ('','' @ CHR 0x27 # (at_name t @ CHR 0x27 # '')'' @ rest))"
  let ?q = "at_imdb_id t' @ CHR 0x27 # ('','' @ CHR 0x27 # (at_name t' @ CHR 0x27 # '')'' @ r))"
  from assms(5) have g: "plain (at_id t')" "plain (at_movie_id t')" "plain (at_imdb_id t')"
    "plain (at_name t')"
    by (simp_all add: actor_grammar_def plain_digits)
  have pl: "plain ?lead" "plain '',''" by (simp_all add: plain_def)
  have u: "plain ?u" using assms(1,2) pl by (simp only: plain_append simp_thms)
  have v: "plain ?v" using g(1,2) pl by (simp only: plain_append simp_thms)
  from assms(6) have "?u @ CHR 0x27 # ?p = ?v @ CHR 0x27 # ?q"
    by (simp add: actor_statement_def)
  from cut_at_quote [OF u v this] have 1: "?p = ?q" by simp
  from cut_at_quote [OF assms(3) g(3) 1] have imdb: "at_imdb_id t = at_imdb_id t'"
    and 2: "'','' @ CHR 0x27 # (at_name t @ CHR 0x27 # '')'' @ rest) =
      '','' @ CHR 0x27 # (at_name t' @ CHR 0x27 # '')'' @ r)" by simp_all
  from 2 have "at_name t @ CHR 0x27 # '')'' @ rest = at_name t' @ CHR 0x27 # '')'' @ r" by simp
  from cut_at_quote [OF assms(4) g(4) this] imdb show ?thesis by simp
qed

lemma actor_flawed_match:
  assumes "actor_flawed t"
  shows "(re_match actor_pattern (actor_statement t @ rest) = None) =
    (\<not> begins_actor_statement (actor_statement t))"
proof
  assume "re_match actor_pattern (actor_statement t @ rest) = None"
  with begins_actor_matches [of "actor_statement t" rest]
  show "\<not> begins_actor_statement (actor_statement t)" by blast
next
  assume nb: "\<not> begins_actor_statement (actor_statement t)"
  show "re_match actor_pattern (actor_statement t @ rest) = None"
  proof (rule ccontr)
    assume "re_match actor_pattern (actor_statement t @ rest) \<noteq> None"
    then obtain gs r where "re_match actor_pattern (actor_statement t @ rest) = Some (gs, r)"
      by auto
    from actor_pattern_parse [OF this] obtain t' where g: "actor_grammar t'"
      and eq: "actor_statement t @ rest = actor_statement t' @ r" by blast
    show False
    proof (cases "quotes (at_id t) + quotes (at_movie_id t) + quotes (at_imdb_id t) +
        quotes (at_name t) = 0")
      case True
      then have "plain (at_id t)" "plain (at_movie_id t)" "plain (at_imdb_id t)"
        "plain (at_name t)"
        by (simp_all add: quotes_zero_plain)
      from actor_fields_unique [OF this g eq] g assms show False
        by (simp add: actor_flawed_def actor_grammar_def)
    next
      case False
      then have "4 < quotes (actor_statement t)"
        unfolding quotes_actor_statement by linarith
      with quotes_actor_grammar [OF g]
      have "quotes (actor_statement t') < quotes (actor_statement t)" by simp
      from shorter_by_quotes [OF eq this] g have "begins_actor_statement (actor_statement t)"
        unfolding begins_actor_statement_def by blast
      with nb show False by simp
    qed
  qed
qed

lemma movie_flawed_match:
  assumes "movie_flawed t"
  shows "(re_match movie_pattern (movie_statement t @ rest) = None) =
    (\<not> begins_movie_statement (movie_statement t))"
proof -
  from assms have "\<not> plain (mt_imdb_id t) \<or> \<not> plain (mt_title t) \<or> \<not> plain (mt_director t) \<or>
      \<not> plain (mt_rating t) \<or> \<not> plain (mt_genres t) \<or> \<not> plain (mt_country t) \<or>
      \<not> plain (mt_language t)"
    by (simp add: movie_flawed_def)
  then have "0 < quotes (mt_imdb_id t) + quotes (mt_title t) + quotes (mt_director t) +
     quotes (mt_rating t) + quotes (mt_genres t) + quotes (mt_country t) + quotes (mt_language t)"
    by (elim disjE) (simp_all add: quotes_not_plain)
  then have q: "14 < quotes (movie_statement t)"
    unfolding quotes_movie_statement by linarith
  show ?thesis
  proof
    assume "re_match movie_pattern (movie_statement t @ rest) = None"
    with begins_movie_matches [of "movie_statement t" rest]
    show "\<not> begins_movie_statement (movie_statement t)" by blast
  next
    assume nb: "\<not> begins_movie_statement (movie_statement t)"
    show "re_match movie_pattern (movie_statement t @ rest) = None"
    proof (rule ccontr)
      assume "re_match movie_pattern (movie_statement t @ rest) \<noteq> None"
      then obtain gs r where "re_match movie_pattern (movie_statement t @ rest) = Some (gs, r)"
        by auto
      from movie_pattern_parse [OF this] obtain t' where g: "movie_grammar t'"
        and eq: "movie_statement t @ rest = movie_statement t' @ r" by blast
      from q quotes_movie_grammar [OF g] have "quotes (movie_statement t') < quotes (movie_statement t)"
        by simp
      from shorter_by_quotes [OF eq this] g have "begins_movie_statement (movie_statement t)"
        unfolding begins_movie_statement_def by blast
      with nb show False by simp
    qed
  qed
qed

lemma no_match_not_begins_actor:
  "re_match actor_pattern s = None \<Longrightarrow> \<not> begins_actor_statement s"
  using begins_actor_matches [of s "[]"] by auto

lemma no_match_not_begins_movie:
  "re_match movie_pattern s = None \<Longrightarrow> \<not> begins_movie_statement s"
  using begins_movie_matches [of s "[]"] by auto

lemma finditer_actor_skipped:
  assumes "actor_skipped t"
  shows "finditer actor_pattern (actor_statement t @ rest) = finditer actor_pattern rest"
proof -
  obtain ts where pat: "actor_pattern = Lit actor_lead # ts"
    by (simp add: actor_pattern_def actor_lead_def)
  have none: "re_match (Lit actor_lead # ts) (actor_statement t @ rest) = None"
    using assms actor_flawed_match [of t rest] by (simp add: actor_skipped_def pat)
  have "last (actor_statement t) = CHR '')''" by (simp add: actor_statement_def)
  then have l: "last (actor_statement t) \<notin> set actor_lead" by (simp add: actor_lead_def)
  have ne: "actor_statement t \<noteq> []" by (simp add: actor_statement_def)
  from assms have ns: "\<not> sublist actor_lead (tl (actor_statement t))"
    by (simp add: actor_skipped_def)
  from skip_over [OF none ns ne l] show ?thesis by (simp add: pat)
qed

lemma finditer_movie_skipped:
  assumes "movie_skipped t"
  shows "finditer movie_pattern (movie_statement t @ rest) = finditer movie_pattern rest"
proof -
  obtain ts where pat: "movie_pattern = Lit movie_lead # ts"
    by (simp add: movie_pattern_def movie_lead_def)
  have none: "re_match (Lit movie_lead # ts) (movie_statement t @ rest) = None"
    using assms movie_flawed_match [of t rest] by (simp add: movie_skipped_def pat)
  have "last (movie_statement t) = CHR '')''" by (simp add: movie_statement_def)
  then have l: "last (movie_statement t) \<notin> set movie_lead" by (simp add: movie_lead_def)
  have ne: "movie_statement t \<noteq> []" by (simp add: movie_statement_def)
  from assms have ns: "\<not> sublist movie_lead (tl (movie_statement t))"
    by (simp add: movie_skipped_def)
  from skip_over [OF none ns ne l] show ?thesis by (simp add: pat)
qed

lemma actor_flawed_not_grammar: "actor_flawed t \<Longrightarrow> \<not> actor_grammar t"
  by (auto simp: actor_flawed_def actor_grammar_def)

lemma movie_flawed_not_grammar: "movie_flawed t \<Longrightarrow> \<not> movie_grammar t"
  by (auto simp: movie_flawed_def movie_grammar_def)

subsection \<open>Files with flawed statements\<close>

lemma finditer_actor_file_mixed:
  assumes "\<forall>t\<in>set ts. actor_grammar t \<or> actor_skipped t" and "CHR ''I'' \<notin> set sep"
  shows "finditer actor_pattern (actor_file sep ts) = map actor_groups (filter actor_grammar ts)"
  using assms(1)
proof (induction ts)
  case Nil
  then show ?case by (simp add: actor_file_def finditer_actor_end)
next
  case (Cons t ts)
  have whole: "actor_file sep (t # ts) = actor_statement t @ sep @ actor_file sep ts"
    by (simp add: actor_file_def)
  from Cons have IH: "finditer actor_pattern (actor_file sep ts) =
      map actor_groups (filter actor_grammar ts)" by simp
  show ?case
  proof (cases "actor_grammar t")
    case True
    then show ?thesis
      unfolding whole by (simp add: finditer_actor_statement finditer_actor_sep assms(2) IH)
  next
    case False
    with Cons.prems have "actor_skipped t" by simp
    with False show ?thesis
      unfolding whole by (simp add: finditer_actor_skipped finditer_actor_sep assms(2) IH)
  qed
qed

lemma finditer_movie_file_mixed:
  assumes "\<forall>t\<in>set ts. movie_grammar t \<or> movie_skipped t" and "CHR ''I'' \<notin> set sep"
  shows "finditer movie_pattern (movie_file sep ts) = map movie_groups (filter movie_grammar ts)"
  using assms(1)
proof (induction ts)
  case Nil
  then show ?case by (simp add: movie_file_def finditer_movie_end)
next
  case (Cons t ts)
  have whole: "movie_file sep (t # ts) = movie_statement t @ sep @ movie_file sep ts"
    by (simp add: movie_file_def)
  from Cons have IH: "finditer movie_pattern (movie_file sep ts) =
      map movie_groups (filter movie_grammar ts)" by simp
  show ?case
  proof (cases "movie_grammar t")
    case True
    then show ?thesis
      unfolding whole by (simp add: finditer_movie_statement finditer_movie_sep assms(2) IH)
  next
    case False
    with Cons.prems have "movie_skipped t" by simp
    with False show ?thesis
      unfolding whole by (simp add: finditer_movie_skipped finditer_movie_sep assms(2) IH)
  qed
qed

lemma same_outcome_insert_actors:
  assumes "finditer actor_pattern c1 = finditer actor_pattern c2"
  shows "same_outcome (insert_actors (w\<lparr>actors_sql := Some c1\<rparr>))
     (insert_actors (w\<lparr>actors_sql := Some c2\<rparr>))"
  using assms
  by (simp add: same_outcome_def insert_actors_def split: prod.split option.split)

lemma same_outcome_insert_movies:
  assumes "finditer movie_pattern c1 = finditer movie_pattern c2"
  shows "same_outcome (insert_movies (w\<lparr>movies_sql := Some c1\<rparr>))
     (insert_movies (w\<lparr>movies_sql := Some c2\<rparr>))"
  using assms
  by (simp add: same_outcome_def insert_movies_def split: prod.split option.split)

lemma trick_actor_text:
  "actor_statement trick_actor = ''INSERT INTO actors VALUES(1,1,'nm1','Bob')')''"
  by (simp add: actor_statement_def trick_actor_def)

lemma obrien_statement_text:
  "actor_statement obrien_text = ''INSERT INTO actors VALUES(11,1,'nm7','Pat O'Brien')''"
  by (simp add: actor_statement_def obrien_text_def)

lemma smith_statement_text:
  "actor_statement smith_text = ''INSERT INTO actors VALUES(12,1,'nm8','Bob' Smith')''"
  by (simp add: actor_statement_def smith_text_def)

lemma obrien_flawed: "actor_flawed obrien_text"
  by (simp add: actor_flawed_def obrien_text_def plain_def)

lemma smith_flawed: "actor_flawed smith_text"
  by (simp add: actor_flawed_def smith_text_def plain_def)

lemma obrien_no_match: "re_match actor_pattern (actor_statement obrien_text) = None"
  unfolding obrien_statement_text
  by (simp add: actor_pattern_def re_match_Cap_commit)

lemma smith_no_match: "re_match actor_pattern (actor_statement smith_text) = None"
  unfolding smith_statement_text
  by (simp add: actor_pattern_def re_match_Cap_commit)

lemma obrien_skipped: "actor_skipped obrien_text"
  unfolding actor_skipped_def
  using obrien_flawed no_match_not_begins_actor [OF obrien_no_match]
  by (simp add: obrien_statement_text actor_lead_def sublist_Cons_right)

lemma smith_skipped: "actor_skipped smith_text"
  unfolding actor_skipped_def
  using smith_flawed no_match_not_begins_actor [OF smith_no_match]
  by (simp add: smith_statement_text actor_lead_def sublist_Cons_right)

lemma schindler_statement_text:
  "movie_statement schindler_text =
     ''INSERT INTO movies VALUES(3,'tt0113277','Schindler's List','Michael Mann',1995,'R','Crime, Drama',170,'USA','English',8.3,700000,76)''"
  by (simp add: movie_statement_def schindler_text_def heat_text_def)

lemma singin_statement_text:
  "movie_statement singin_text =
     ''INSERT INTO movies VALUES(4,'tt0113277','Singin' in the Rain','Michael Mann',1995,'R','Crime, Drama',170,'USA','English',8.3,700000,76)''"
  by (simp add: movie_statement_def singin_text_def heat_text_def)

lemma schindler_flawed: "movie_flawed schindler_text"
  by (simp add: movie_flawed_def schindler_text_def heat_text_def plain_def)

lemma singin_flawed: "movie_flawed singin_text"
  by (simp add: movie_flawed_def singin_text_def heat_text_def plain_def)

lemma schindler_no_match: "re_match movie_pattern (movie_statement schindler_text) = None"
  unfolding schindler_statement_text
  by (simp add: movie_pattern_def re_match_Cap_commit)

lemma singin_no_match: "re_match movie_pattern (movie_statement singin_text) = None"
  unfolding singin_statement_text
  by (simp add: movie_pattern_def re_match_Cap_commit)

lemma schindler_skipped: "movie_skipped schindler_text"
  unfolding movie_skipped_def
  using schindler_flawed no_match_not_begins_movie [OF schindler_no_match]
  by (simp add: schindler_statement_text movie_lead_def sublist_Cons_right)

lemma singin_skipped: "movie_skipped singin_text"
  unfolding movie_skipped_def
  using singin_flawed no_match_not_begins_movie [OF singin_no_match]
  by (simp add: singin_statement_text movie_lead_def sublist_Cons_right)

lemma nested_actor_text:
  "actor_statement nested_actor =
     ''INSERT INTO actors VALUES(1,1,'nm1','x'INSERT INTO actors VALUES(5,1,'nm5','Eve')''"
  by (simp add: actor_statement_def nested_actor_def)

lemma nested_actor_split:
  "actor_statement nested_actor =
     (''INSERT INTO actors VALUES(1,1,'nm1','x'' @ [CHR 0x27]) @ actor_statement eve_text"
  by (simp add: actor_statement_def nested_actor_def eve_text_def)

lemma eve_text_wf: "well_formed_actor eve_text"
  by (simp add: well_formed_actor_def actor_grammar_def eve_text_def digits1_def plain_def
      decimal_def digit_val_def int_text_def stored_texts_def utf8_length_def)

lemma nested_actor_no_match: "re_match actor_pattern (actor_statement nested_actor) = None"
  unfolding nested_actor_text
  by (simp add: actor_pattern_def re_match_Cap_commit)

lemma nested_actor_scan:
  "finditer actor_pattern (actor_statement nested_actor) = [actor_groups eve_text]"
proof -
  obtain ts where pat: "actor_pattern = Lit actor_lead # ts"
    by (simp add: actor_pattern_def actor_lead_def)
  let ?s = "''INSERT INTO actors VALUES(1,1,'nm1','x'' @ [CHR 0x27]"
  have none: "re_match (Lit actor_lead # ts) (?s @ actor_statement eve_text) = None"
    using nested_actor_no_match by (simp only: pat nested_actor_split)
  have ns: "\<not> sublist actor_lead (tl ?s)"
    by (simp add: actor_lead_def sublist_Cons_right)
  have ne: "?s \<noteq> []" by simp
  have l: "last ?s \<notin> set actor_lead" by (simp add: actor_lead_def)
  from skip_over [OF none ns ne l]
  have "finditer actor_pattern (actor_statement nested_actor) =
      finditer actor_pattern (actor_statement eve_text @ [])"
    by (simp only: pat nested_actor_split append_Nil2)
  also have "\<dots> = [actor_groups eve_text]"
    using eve_text_wf
    by (simp only: finditer_actor_statement well_formed_actor_def finditer_actor_end)
  finally show ?thesis .
qed

subsection \<open>The lookups\<close>

lemma utf8_length_append: "utf8_length (a @ b) = utf8_length a + utf8_length b"
  by (simp add: utf8_length_def)

lemma utf8_length_replicate:
  "utf8_length (replicate n c) = n * (if of_char c < (128 :: nat) then 1 else 2)"
  by (induction n) (simp_all add: utf8_length_def)

lemma utf8_length_pattern: "utf8_length (''%'' @ d @ ''%'') = utf8_length d + 2"
  by (simp add: utf8_length_def)

lemma c_string_free: "CHR 0x00 \<notin> set s \<Longrightarrow> c_string s = s"
  unfolding c_string_def by (induction s) auto

lemma c_string_pattern: "CHR 0x00 \<notin> set d \<Longrightarrow> c_string (''%'' @ d @ ''%'') = ''%'' @ d @ ''%''"
  by (rule c_string_free) simp

lemma sql_where_filter:
  assumes "\<And>row. row \<in> set rows \<Longrightarrow> cond row = Inr (P row)"
  shows "sql_where cond rows = Inr (filter P rows)"
  using assms by (induction rows) simp_all

lemma sql_where_raises:
  "cond row = Inl e \<Longrightarrow> sql_where cond (row # rows) = Inl e"
  by simp

lemma bind_text_pattern:
  "utf8_length d \<le> 49998 \<Longrightarrow> bind_text (''%'' @ d @ ''%'') = Inr (''%'' @ d @ ''%'')"
  unfolding bind_text_def utf8_length_pattern by simp

lemma sql_like_contains:
  assumes "CHR ''%'' \<notin> set d" and "CHR ''_'' \<notin> set d" and "CHR 0x00 \<notin> set d"
    and "utf8_length d \<le> 49998"
  shows "sql_like (''%'' @ d @ ''%'') t =
    Inr (sublist (map ascii_lower d) (map ascii_lower (c_string t)))"
proof -
  from assms(4) have "\<not> 50000 < utf8_length (''%'' @ d @ ''%'')"
    unfolding utf8_length_pattern by simp
  then show ?thesis
    unfolding sql_like_def c_string_pattern [OF assms(3)]
    by (simp only: pattern_compare_contains [OF assms(1,2)] if_False)
qed

lemma query_movies_by_director_plain:
  assumes "CHR ''%'' \<notin> set d" and "CHR ''_'' \<notin> set d" and "CHR 0x00 \<notin> set d"
    and "utf8_length d \<le> 49998"
  shows "query_movies_by_director d db =
    Inr (order_by_desc (\<lambda>(m, n). m_imdb_score m)
      (filter (\<lambda>(m, n). sublist (map ascii_lower d) (map ascii_lower (c_string (m_director m))))
         (movies_with_counts db)))"
proof -
  have "sql_where (\<lambda>(m, n). sql_like (''%'' @ d @ ''%'') (m_director m)) (movies_with_counts db) =
      Inr (filter (\<lambda>(m, n). sublist (map ascii_lower d) (map ascii_lower (c_string (m_director m))))
         (movies_with_counts db))"
    by (rule sql_where_filter) (use sql_like_contains [OF assms] in auto)
  then show ?thesis
    unfolding query_movies_by_director_def bind_text_pattern [OF assms(4)] by simp
qed

lemma query_movies_by_rating_stored:
  assumes "utf8_length rating \<le> 1000000000"
  shows "query_movies_by_rating rating db =
    Inr (order_by_desc (\<lambda>(m, n). m_imdb_score m)
      (filter (\<lambda>(m, n). m_rating m = rating) (movies_with_counts db)))"
  using assms by (simp add: query_movies_by_rating_def bind_text_def)

lemma query_movies_by_director_empty:
  assumes "utf8_length d \<le> 999999998"
  shows "query_movies_by_director d empty_tables = Inr []"
proof -
  from assms have "bind_text (''%'' @ d @ ''%'') = Inr (''%'' @ d @ ''%'')"
    unfolding bind_text_def utf8_length_pattern by simp
  then show ?thesis
    by (simp add: query_movies_by_director_def movies_with_counts_def empty_tables_def)
qed

subsection \<open>The doubles of two score texts\<close>

lemma floor_log2:
  assumes "2 powi e \<le> x" and "x < 2 powi (e + 1)"
  shows "\<lfloor>log 2 x\<rfloor> = e"
proof -
  have "0 < (2 :: real) powi e" by simp
  with assms(1) have pos: "0 < x" by linarith
  have a: "real_of_int e \<le> log 2 x"
    using assms(1) pos by (simp add: le_log_iff powr_real_of_int')
  have "2 powi (e + 1) = 2 powr real_of_int (e + 1)"
    by (subst powr_real_of_int') simp_all
  with assms(2) have "x < 2 powr real_of_int (e + 1)" by simp
  then have b: "log 2 x < real_of_int (e + 1)"
    using pos by (simp only: log_less_iff)
  from a b show ?thesis by (simp add: floor_eq_iff)
qed

lemma nearest_double_in_range:
  assumes "2 powi e \<le> \<bar>x\<bar>" and "\<bar>x\<bar> < 2 powi (e + 1)" and "- 1022 \<le> e"
  shows "nearest_double x = 2 powi (e - 52) * real_of_int (round_half_even (x / 2 powi (e - 52)))"
proof -
  have "0 < (2 :: real) powi e" by simp
  with assms(1) have "0 < \<bar>x\<bar>" by linarith
  then have "x \<noteq> 0" by simp
  moreover have "\<lfloor>log 2 \<bar>x\<bar>\<rfloor> = e" using assms(1,2) by (rule floor_log2)
  ultimately show ?thesis using assms(3) by (simp add: nearest_double_def Let_def max_def)
qed

lemma double_of_8_5: "to_double (float_value ''8.5'') = Finite 8.5"
proof -
  have v: "float_value ''8.5'' = 8.5"
    by (simp add: float_value_def decimal_def digit_val_def)
  have "nearest_double 8.5 = 2 powi (3 - 52) * real_of_int (round_half_even (8.5 / 2 powi (3 - 52)))"
    by (rule nearest_double_in_range) (simp_all add: power_int_def)
  also have "8.5 / 2 powi (3 - 52) = real_of_int (17 * 2 ^ 48)"
    by (simp add: power_int_def field_simps)
  also have "round_half_even (real_of_int (17 * 2 ^ 48)) = 17 * 2 ^ 48"
    unfolding round_half_even_def Let_def floor_of_int by simp
  also have "2 powi (3 - 52) * real_of_int (17 * 2 ^ 48) = 8.5"
    by (simp add: power_int_def field_simps)
  finally have n: "nearest_double 8.5 = 8.5" .
  show ?thesis unfolding v to_double_def n by simp
qed

lemma double_of_8_3: "to_double (float_value ''8.3'') = Finite (4672484613396890 / 2 ^ 49)"
proof -
  have v: "float_value ''8.3'' = 83 / 10"
    by (simp add: float_value_def decimal_def digit_val_def)
  have "nearest_double (83 / 10) =
      2 powi (3 - 52) * real_of_int (round_half_even ((83 / 10) / 2 powi (3 - 52)))"
    by (rule nearest_double_in_range) (simp_all add: power_int_def)
  also have "(83 / 10) / 2 powi (3 - 52) = 23362423066984448 / (5 :: real)"
    by (simp add: power_int_def field_simps)
  also have "round_half_even (23362423066984448 / (5 :: real)) = 4672484613396890"
  proof -
    have f: "\<lfloor>23362423066984448 / (5 :: real)\<rfloor> = 4672484613396889"
      by (simp add: floor_eq_iff)
    show ?thesis unfolding round_half_even_def Let_def f by simp
  qed
  also have "2 powi (3 - 52) * real_of_int 4672484613396890 = 4672484613396890 / 2 ^ 49"
    by (simp add: power_int_def field_simps)
  finally have n: "nearest_double (83 / 10) = 4672484613396890 / 2 ^ 49" .
  show ?thesis unfolding v to_double_def n by simp
qed

lemma example_scores:
  "m_imdb_score (movie_row alien_text) = Finite 8.5"
  "m_imdb_score (movie_row heat_text) = Finite (4672484613396890 / 2 ^ 49)"
  by (simp_all add: movie_row_def alien_text_def heat_text_def double_of_8_5 double_of_8_3)

section \<open>The claims\<close>

text \<open>
  C1. After loading, every actor row should name an existing movie, an actor statement
  with an unknown movie identifier being dropped with a warning. The code declares the
  foreign key but never switches its enforcement on: loading one actor statement that names
  movie 99, with no movie at all, stores the row, prints no warning and counts it as
  inserted, and the invariant fails afterwards.
\<close>

theorem unresolved_reference_stored:
  "MovieDatabaseUtility_init
     \<lparr>actors_sql = Some ''INSERT INTO actors VALUES(1,99,'nm1','Bob');'', movies_sql = Some [],
      storage = empty_tables, stdout = []\<rparr> =
   (None,
    \<lparr>actors_sql = Some ''INSERT INTO actors VALUES(1,99,'nm1','Bob');'', movies_sql = Some [],
     storage = \<lparr>movies = [],
       actors = [\<lparr>a_id = 1, a_movie_id = 99, a_imdb_id = ''nm1'', a_name = ''Bob''\<rparr>]\<rparr>,
     stdout = [Tables_created, Inserted_movies 0, Inserted_actors 1, Data_inserted]\<rparr>)
   \<and> \<not> references_resolve
       \<lparr>movies = [],
        actors = [\<lparr>a_id = 1, a_movie_id = 99, a_imdb_id = ''nm1'', a_name = ''Bob''\<rparr>]\<rparr>"
proof -
  have scan: "finditer actor_pattern ''INSERT INTO actors VALUES(1,99,'nm1','Bob');'' =
      [actor_groups stray_actor]"
    unfolding stray_actor_file
    using stray_actor_wf by (simp add: finditer_actor_file well_formed_actor_def)
  have row: "actor_row stray_actor =
      \<lparr>a_id = 1, a_movie_id = 99, a_imdb_id = ''nm1'', a_name = ''Bob''\<rparr>"
    by (simp add: actor_row_def stray_actor_def decimal_def digit_val_def)
  have body: "insert_actor_body sqlite3_connect (actor_groups stray_actor) (empty_tables, 0, out) =
      (None, (empty_tables\<lparr>actors := insort_key a_id (actor_row stray_actor) []\<rparr>, Suc 0, out))"
    for out
    using insert_actor_body_new [of stray_actor empty_tables sqlite3_connect 0 out] stray_actor_wf
    by (simp add: empty_tables_def sqlite3_connect_def)
  show ?thesis
    by (simp add: MovieDatabaseUtility_init_def initialize_database_def
        parse_and_insert_sql_files_def insert_movies_def insert_actors_def
        finditer_movie_end scan body row references_resolve_def)
      (simp add: empty_tables_def)
qed

text \<open>
  C2. Two well-formed movie statements with the same identifier, loaded into a table that
  does not hold that identifier yet: the row of the first statement is stored as the
  statement describes it, the second statement is dropped, the table has exactly one row
  more, and one warning is printed, naming the identifier and the failed uniqueness check.
  Well-formed means: of the shape the pattern asks for, with whole numbers of at most 4300
  digits that fit 64 bits, texts of at most 999,999,000 bytes together, and scores that are
  numbers; the scores of the stored row are the doubles nearest to the numbers written.
\<close>

theorem duplicate_movie_dropped:
  assumes "well_formed_movie t1" and "well_formed_movie t2"
    and "decimal (mt_id t1) = decimal (mt_id t2)"
    and "decimal (mt_id t1) \<notin> m_id ` set (movies (storage w))"
    and "CHR ''I'' \<notin> set sep"
    and "movies_sql w = Some (movie_file sep [t1, t2])"
  shows "insert_movies w =
      (None,
       w\<lparr>storage := (storage w)\<lparr>movies := insort_key m_id (movie_row t1) (movies (storage w))\<rparr>,
         stdout := stdout w @
           [Warning_movie (decimal (mt_id t2)) (Unique_failed ''movies.id''), Inserted_movies 1]\<rparr>) \<and>
    movie_row t1 \<in> set (movies (storage (snd (insert_movies w)))) \<and>
    length (movies (storage (snd (insert_movies w)))) = length (movies (storage w)) + 1"
proof -
  let ?db = "(storage w)\<lparr>movies := insort_key m_id (movie_row t1) (movies (storage w))\<rparr>"
  have scan: "finditer movie_pattern (movie_file sep [t1, t2]) = [movie_groups t1, movie_groups t2]"
    using assms(1,2,5) by (simp add: finditer_movie_file well_formed_movie_def)
  have first: "insert_movie_body sqlite3_connect (movie_groups t1) (storage w, 0, stdout w) =
      (None, (?db, Suc 0, stdout w))"
    using assms(1,4) by (rule insert_movie_body_new)
  have "decimal (mt_id t2) \<in> m_id ` set (movies ?db)"
    using assms(3) by (simp add: set_insort_key movie_row_def)
  with assms(2)
  have second: "insert_movie_body sqlite3_connect (movie_groups t2) (?db, Suc 0, stdout w) =
      (None, (?db, Suc 0,
        stdout w @ [Warning_movie (decimal (mt_id t2)) (Unique_failed ''movies.id'')]))"
    by (rule insert_movie_body_dup)
  have run: "insert_movies w =
      (None,
       w\<lparr>storage := ?db,
         stdout := stdout w @
           [Warning_movie (decimal (mt_id t2)) (Unique_failed ''movies.id''), Inserted_movies 1]\<rparr>)"
    using assms(6) by (simp add: insert_movies_def scan first second)
  moreover have "movie_row t1 \<in> set (movies ?db)" by (simp add: set_insort_key)
  moreover have "length (movies ?db) = length (movies (storage w)) + 1" by simp
  ultimately show ?thesis by simp
qed

theorem duplicate_movie_dropped_witness:
  "well_formed_movie alien_text \<and> well_formed_movie remake_text \<and>
   decimal (mt_id alien_text) = decimal (mt_id remake_text) \<and>
   movie_row alien_text \<noteq> movie_row remake_text \<and>
   insert_movies (fresh_world (movie_file '';'' [alien_text, remake_text]) []) =
     (None,
      \<lparr>actors_sql = Some [], movies_sql = Some (movie_file '';'' [alien_text, remake_text]),
       storage = \<lparr>movies = [movie_row alien_text], actors = []\<rparr>,
       stdout = [Warning_movie 1 (Unique_failed ''movies.id''), Inserted_movies 1]\<rparr>)"
proof -
  let ?w = "fresh_world (movie_file '';'' [alien_text, remake_text]) []"
  have h3: "decimal (mt_id alien_text) = decimal (mt_id remake_text)"
    by (simp add: example_ids)
  have h4: "decimal (mt_id alien_text) \<notin> m_id ` set (movies (storage ?w))"
    by (simp add: fresh_world_def empty_tables_def)
  have h5: "CHR ''I'' \<notin> set '';''" by simp
  have h6: "movies_sql ?w = Some (movie_file '';'' [alien_text, remake_text])"
    by (simp add: fresh_world_def)
  have differ: "movie_row alien_text \<noteq> movie_row remake_text"
    by (simp add: movie_row_def alien_text_def remake_text_def)
  from duplicate_movie_dropped [OF alien_text_wf remake_text_wf h3 h4 h5 h6]
  have "insert_movies ?w =
     (None,
      \<lparr>actors_sql = Some [], movies_sql = Some (movie_file '';'' [alien_text, remake_text]),
       storage = \<lparr>movies = [movie_row alien_text], actors = []\<rparr>,
       stdout = [Warning_movie 1 (Unique_failed ''movies.id''), Inserted_movies 1]\<rparr>)"
    by (simp add: fresh_world_def empty_tables_def example_ids)
  with alien_text_wf remake_text_wf h3 differ show ?thesis by blast
qed

text \<open>
  C3. The movies file holds \<open>N\<close> well-formed movie statements and the actors file \<open>M\<close>
  well-formed actor statements (well-formed as in C2), the identifiers distinct within each
  file and every actor naming one of the movies: constructing the utility returns normally,
  and afterwards the movies table holds \<open>N\<close> rows and the actors table \<open>M\<close> rows, namely
  the rows that the statements describe. In the witness the score texts 8.5 and 8.3 are
  stored as the doubles 8.5 and \<open>4672484613396890 / 2 ^ 49\<close>.
\<close>

theorem load_counts:
  assumes "\<forall>t\<in>set ms. well_formed_movie t"
    and "\<forall>t\<in>set cs. well_formed_actor t"
    and "distinct (map (\<lambda>t. decimal (mt_id t)) ms)"
    and "distinct (map (\<lambda>t. decimal (at_id t)) cs)"
    and "\<forall>t\<in>set cs. decimal (at_movie_id t) \<in> (\<lambda>t. decimal (mt_id t)) ` set ms"
    and "CHR ''I'' \<notin> set sep"
    and "movies_sql w = Some (movie_file sep ms)"
    and "actors_sql w = Some (actor_file sep cs)"
  shows "\<exists>w'. MovieDatabaseUtility_init w = (None, w') \<and>
      length (movies (storage w')) = length ms \<and>
      length (actors (storage w')) = length cs \<and>
      mset (movies (storage w')) = mset (map movie_row ms) \<and>
      mset (actors (storage w')) = mset (map actor_row cs)"
proof -
  let ?w1 = "w\<lparr>storage := empty_tables, stdout := stdout w @ [Tables_created]\<rparr>"
  have scan_m: "finditer movie_pattern (movie_file sep ms) = map movie_groups ms"
    using assms(1,6) by (simp add: finditer_movie_file well_formed_movie_def)
  have scan_c: "finditer actor_pattern (actor_file sep cs) = map actor_groups cs"
    using assms(2,6) by (simp add: finditer_actor_file well_formed_actor_def)
  from for_matches_movies_fresh [OF assms(1) assms(3), of empty_tables sqlite3_connect 0
      "stdout w @ [Tables_created]"]
  obtain db1 where m1: "for_matches (insert_movie_body sqlite3_connect) (map movie_groups ms)
        (empty_tables, 0, stdout w @ [Tables_created]) =
        (None, (db1, length ms, stdout w @ [Tables_created]))"
    and a1: "actors db1 = []"
    and mm1: "mset (movies db1) = mset (map movie_row ms)"
    by (auto simp: empty_tables_def)
  let ?w2 = "?w1\<lparr>storage := db1,
      stdout := stdout w @ [Tables_created, Inserted_movies (length ms)]\<rparr>"
  have im: "insert_movies ?w1 = (None, ?w2)"
    using assms(7) by (simp add: insert_movies_def scan_m m1)
  have fresh: "\<forall>t\<in>set cs. decimal (at_id t) \<notin> a_id ` set (actors db1)"
    by (simp add: a1)
  have refs: "\<forall>t\<in>set cs. foreign_keys sqlite3_connect \<longrightarrow>
      decimal (at_movie_id t) \<in> m_id ` set (movies db1)"
    by (simp add: sqlite3_connect_def)
  from for_matches_actors_fresh [OF assms(2) assms(4) fresh refs, of 0
      "stdout w @ [Tables_created, Inserted_movies (length ms)]"]
  obtain db2 where m2: "for_matches (insert_actor_body sqlite3_connect) (map actor_groups cs)
        (db1, 0, stdout w @ [Tables_created, Inserted_movies (length ms)]) =
        (None, (db2, length cs, stdout w @ [Tables_created, Inserted_movies (length ms)]))"
    and mv2: "movies db2 = movies db1"
    and ac2: "mset (actors db2) = mset (map actor_row cs)"
    by (auto simp: a1)
  let ?w3 = "?w2\<lparr>storage := db2,
      stdout := stdout w @ [Tables_created, Inserted_movies (length ms), Inserted_actors (length cs)]\<rparr>"
  have ia: "insert_actors ?w2 = (None, ?w3)"
    using assms(8) by (simp add: insert_actors_def scan_c m2)
  let ?w4 = "?w3\<lparr>stdout := stdout ?w3 @ [Data_inserted]\<rparr>"
  have "parse_and_insert_sql_files ?w1 = (None, ?w4)"
    using assms(7,8) im ia by (simp add: parse_and_insert_sql_files_def)
  then have run: "MovieDatabaseUtility_init w = (None, ?w4)"
    by (simp add: MovieDatabaseUtility_init_def initialize_database_def)
  have "mset (movies (storage ?w4)) = mset (map movie_row ms)"
    using mm1 mv2 by simp
  moreover have "mset (actors (storage ?w4)) = mset (map actor_row cs)"
    using ac2 by simp
  moreover from calculation have "length (movies (storage ?w4)) = length ms"
    "length (actors (storage ?w4)) = length cs"
    using length_eq_of_mset [of "movies (storage ?w4)" "map movie_row ms"]
      length_eq_of_mset [of "actors (storage ?w4)" "map actor_row cs"] by simp_all
  ultimately show ?thesis using run by blast
qed

theorem load_counts_witness:
  "well_formed_movie alien_text \<and> well_formed_movie heat_text \<and>
   well_formed_actor weaver_text \<and>
   distinct (map (\<lambda>t. decimal (mt_id t)) [alien_text, heat_text]) \<and>
   distinct (map (\<lambda>t. decimal (at_id t)) [weaver_text]) \<and>
   decimal (at_movie_id weaver_text) \<in> (\<lambda>t. decimal (mt_id t)) ` set [alien_text, heat_text] \<and>
   CHR ''I'' \<notin> set '';'' \<and>
   (\<exists>w'. MovieDatabaseUtility_init
        (fresh_world (movie_file '';'' [alien_text, heat_text]) (actor_file '';'' [weaver_text])) =
        (None, w') \<and>
      length (movies (storage w')) = length [alien_text, heat_text] \<and>
      length (actors (storage w')) = length [weaver_text] \<and>
      mset (movies (storage w')) = mset (map movie_row [alien_text, heat_text]) \<and>
      mset (actors (storage w')) = mset (map actor_row [weaver_text])) \<and>
   mt_imdb_score alien_text = ''8.5'' \<and> m_imdb_score (movie_row alien_text) = Finite 8.5 \<and>
   mt_imdb_score heat_text = ''8.3'' \<and>
   m_imdb_score (movie_row heat_text) = Finite (4672484613396890 / 2 ^ 49)"
proof -
  have h1: "\<forall>t\<in>set [alien_text, heat_text]. well_formed_movie t"
    by (simp add: alien_text_wf heat_text_wf)
  have h2: "\<forall>t\<in>set [weaver_text]. well_formed_actor t"
    by (simp add: weaver_text_wf)
  have h3: "distinct (map (\<lambda>t. decimal (mt_id t)) [alien_text, heat_text])"
    by (simp add: example_ids)
  have h4: "distinct (map (\<lambda>t. decimal (at_id t)) [weaver_text])"
    by simp
  have h5: "\<forall>t\<in>set [weaver_text].
      decimal (at_movie_id t) \<in> (\<lambda>t. decimal (mt_id t)) ` set [alien_text, heat_text]"
    by (simp add: example_ids)
  have h6: "CHR ''I'' \<notin> set '';''" by simp
  have h7: "movies_sql (fresh_world (movie_file '';'' [alien_text, heat_text])
      (actor_file '';'' [weaver_text])) = Some (movie_file '';'' [alien_text, heat_text])"
    by (simp add: fresh_world_def)
  have h8: "actors_sql (fresh_world (movie_file '';'' [alien_text, heat_text])
      (actor_file '';'' [weaver_text])) = Some (actor_file '';'' [weaver_text])"
    by (simp add: fresh_world_def)
  have h9: "decimal (at_movie_id weaver_text) \<in>
      (\<lambda>t. decimal (mt_id t)) ` set [alien_text, heat_text]"
    by (simp add: example_ids)
  have texts: "mt_imdb_score alien_text = ''8.5''" "mt_imdb_score heat_text = ''8.3''"
    by (simp_all add: alien_text_def heat_text_def)
  from load_counts [OF h1 h2 h3 h4 h5 h6 h7 h8] alien_text_wf heat_text_wf weaver_text_wf
    h3 h4 h9 h6 texts example_scores
  show ?thesis by blast
qed

text \<open>
  C4. On a movies table that is not empty, \<^verbatim>\<open>get_longest_running_movie\<close> returns one
  movie of the table, with its fields and its number of actors, and no movie of the table
  runs longer. The witness is the table with the runtimes 90, 200 and 45: the movie of 200
  minutes is returned.
\<close>

theorem longest_running_is_maximal:
  assumes "movies db \<noteq> []"
  shows "\<exists>m\<in>set (movies db).
      get_longest_running_movie db =
        Some \<lparr>lr_title = m_title m, lr_runtime = m_runtime m, lr_year = m_year m,
              lr_director = m_director m, lr_imdb_score = m_imdb_score m,
              lr_actor_count = actor_count db m, lr_full_details = (m, actor_count db m)\<rparr> \<and>
      (\<forall>m'\<in>set (movies db). m_runtime m' \<le> m_runtime m)"
proof -
  let ?rows = "order_by_desc (\<lambda>(m, n). m_runtime m) (movies_with_counts db)"
  from assms have "?rows \<noteq> []"
    by (simp add: order_by_desc_Nil_iff movies_with_counts_def)
  then obtain m n rest where rows: "?rows = (m, n) # rest"
    by (cases ?rows) auto
  from order_by_desc_first [OF rows]
  have mem: "(m, n) \<in> set (movies_with_counts db)"
    and top: "\<forall>x\<in>set (movies_with_counts db). (case x of (m', n') \<Rightarrow> m_runtime m') \<le> m_runtime m"
    by auto
  from mem have m: "m \<in> set (movies db)" and n: "n = actor_count db m"
    by (auto simp: set_movies_with_counts)
  from top have "\<forall>m'\<in>set (movies db). m_runtime m' \<le> m_runtime m"
    by (auto simp: set_movies_with_counts)
  moreover have "get_longest_running_movie db =
        Some \<lparr>lr_title = m_title m, lr_runtime = m_runtime m, lr_year = m_year m,
              lr_director = m_director m, lr_imdb_score = m_imdb_score m,
              lr_actor_count = actor_count db m, lr_full_details = (m, actor_count db m)\<rparr>"
    by (simp add: get_longest_running_movie_def first_of_limit_1 rows n)
  ultimately show ?thesis using m by blast
qed

theorem longest_running_is_maximal_witness:
  "movies runtimes_db \<noteq> [] \<and>
   (\<exists>m\<in>set (movies runtimes_db).
      get_longest_running_movie runtimes_db =
        Some \<lparr>lr_title = m_title m, lr_runtime = m_runtime m, lr_year = m_year m,
              lr_director = m_director m, lr_imdb_score = m_imdb_score m,
              lr_actor_count = actor_count runtimes_db m,
              lr_full_details = (m, actor_count runtimes_db m)\<rparr> \<and>
      (\<forall>m'\<in>set (movies runtimes_db). m_runtime m' \<le> m_runtime m)) \<and>
   map m_runtime (movies runtimes_db) = [90, 200, 45] \<and>
   map_option lr_runtime (get_longest_running_movie runtimes_db) = Some 200 \<and>
   map_option lr_title (get_longest_running_movie runtimes_db) = Some ''Long''"
proof -
  have ne: "movies runtimes_db \<noteq> []" by (simp add: runtimes_db_def)
  have "map_option lr_runtime (get_longest_running_movie runtimes_db) = Some 200 \<and>
      map_option lr_title (get_longest_running_movie runtimes_db) = Some ''Long''"
    by (simp add: get_longest_running_movie_def runtimes_db_def movies_with_counts_def
        film_def sql_limit_def)
  moreover have "map m_runtime (movies runtimes_db) = [90, 200, 45]"
    by (simp add: runtimes_db_def film_def)
  ultimately show ?thesis using ne longest_running_is_maximal [OF ne] by blast
qed

text \<open>
  C5, as stated: the actors of the returned movie are sorted alphabetically by name. The
  statement \<^verbatim>\<open>ORDER BY name\<close> compares names character code by character code, every
  capital letter before every small one: the actors \<^verbatim>\<open>adam\<close> and \<^verbatim>\<open>Zoe\<close> of one movie are
  returned as \<^verbatim>\<open>Zoe\<close>, \<^verbatim>\<open>adam\<close>, which is not the alphabetical order.
\<close>

theorem mixed_case_counterexample:
  "map_option (map (snd \<circ> snd) \<circ> mr_actors) (get_movie_with_most_actors mixed_case_db) =
     Some [''Zoe'', ''adam''] \<and>
   sorted [''Zoe'', ''adam''] \<and>
   \<not> sorted (map (map ascii_lower) [''Zoe'', ''adam''])"
  by (simp add: get_movie_with_most_actors_def mixed_case_db_def movies_with_counts_def
      actor_count_def actors_of_movie_def film_def sql_limit_def ascii_lower_def)

text \<open>
  C5, amended. On a movies table that is not empty, \<^verbatim>\<open>get_movie_with_most_actors\<close> returns
  one movie of the table such that no movie of the table has more actor rows naming it (a
  movie that no actor names counts zero), together with all the actors of that movie, each
  once, in ascending order of name, names compared character code by character code (which
  is the alphabetical order among names written in one case). The witness has a movie
  without actors and a movie with three: the second is returned, with its three names in
  order.
\<close>

theorem most_actors_is_maximal:
  assumes "movies db \<noteq> []"
  shows "\<exists>m\<in>set (movies db).
      get_movie_with_most_actors db =
        Some \<lparr>mr_title = m_title m, mr_actor_count = actor_count db m, mr_year = m_year m,
              mr_director = m_director m, mr_imdb_score = m_imdb_score m,
              mr_actors = actors_of_movie db (m_id m),
              mr_full_details = (m, actor_count db m)\<rparr> \<and>
      (\<forall>m'\<in>set (movies db). actor_count db m' \<le> actor_count db m) \<and>
      mset (actors_of_movie db (m_id m)) =
        image_mset (\<lambda>a. (a_id a, a_imdb_id a, a_name a))
          (filter_mset (\<lambda>a. a_movie_id a = m_id m) (mset (actors db))) \<and>
      length (actors_of_movie db (m_id m)) = actor_count db m \<and>
      sorted (map (\<lambda>(i, imdb, name). name) (actors_of_movie db (m_id m)))"
proof -
  let ?rows = "order_by_desc (\<lambda>(m, n). n) (movies_with_counts db)"
  from assms have "?rows \<noteq> []"
    by (simp add: order_by_desc_Nil_iff movies_with_counts_def)
  then obtain m n rest where rows: "?rows = (m, n) # rest"
    by (cases ?rows) auto
  from order_by_desc_first [OF rows]
  have mem: "(m, n) \<in> set (movies_with_counts db)"
    and top: "\<forall>x\<in>set (movies_with_counts db). (case x of (m', n') \<Rightarrow> n') \<le> n"
    by auto
  from mem have m: "m \<in> set (movies db)" and n: "n = actor_count db m"
    by (auto simp: set_movies_with_counts)
  from top have "\<forall>m'\<in>set (movies db). actor_count db m' \<le> actor_count db m"
    by (auto simp: set_movies_with_counts n)
  moreover have "get_movie_with_most_actors db =
        Some \<lparr>mr_title = m_title m, mr_actor_count = actor_count db m, mr_year = m_year m,
              mr_director = m_director m, mr_imdb_score = m_imdb_score m,
              mr_actors = actors_of_movie db (m_id m),
              mr_full_details = (m, actor_count db m)\<rparr>"
    by (simp add: get_movie_with_most_actors_def first_of_limit_1 rows n)
  ultimately show ?thesis
    using m mset_actors_of_movie [of db "m_id m"] length_actors_of_movie [of db m]
      sorted_actors_of_movie [of db "m_id m"]
    by blast
qed

theorem most_actors_is_maximal_witness:
  "movies cast_db \<noteq> [] \<and>
   (\<exists>m\<in>set (movies cast_db).
      get_movie_with_most_actors cast_db =
        Some \<lparr>mr_title = m_title m, mr_actor_count = actor_count cast_db m, mr_year = m_year m,
              mr_director = m_director m, mr_imdb_score = m_imdb_score m,
              mr_actors = actors_of_movie cast_db (m_id m),
              mr_full_details = (m, actor_count cast_db m)\<rparr> \<and>
      (\<forall>m'\<in>set (movies cast_db). actor_count cast_db m' \<le> actor_count cast_db m) \<and>
      mset (actors_of_movie cast_db (m_id m)) =
        image_mset (\<lambda>a. (a_id a, a_imdb_id a, a_name a))
          (filter_mset (\<lambda>a. a_movie_id a = m_id m) (mset (actors cast_db))) \<and>
      length (actors_of_movie cast_db (m_id m)) = actor_count cast_db m \<and>
      sorted (map (\<lambda>(i, imdb, name). name) (actors_of_movie cast_db (m_id m)))) \<and>
   map (actor_count cast_db) (movies cast_db) = [0, 3] \<and>
   map_option mr_title (get_movie_with_most_actors cast_db) = Some ''Trio'' \<and>
   map_option mr_actors (get_movie_with_most_actors cast_db) =
     Some [(2, ''nm2'', ''Adam''), (3, ''nm3'', ''Mia''), (1, ''nm1'', ''Zoe'')]"
proof -
  have ne: "movies cast_db \<noteq> []" by (simp add: cast_db_def)
  have "map (actor_count cast_db) (movies cast_db) = [0, 3]"
    by (simp add: cast_db_def actor_count_def film_def)
  moreover have "map_option mr_title (get_movie_with_most_actors cast_db) = Some ''Trio'' \<and>
      map_option mr_actors (get_movie_with_most_actors cast_db) =
        Some [(2, ''nm2'', ''Adam''), (3, ''nm3'', ''Mia''), (1, ''nm1'', ''Zoe'')]"
    by (simp add: get_movie_with_most_actors_def cast_db_def movies_with_counts_def
        actor_count_def actors_of_movie_def film_def sql_limit_def)
  ultimately show ?thesis using ne most_actors_is_maximal [OF ne] by blast
qed

text \<open>
  C6, as stated: for every movies table that is not empty and every \<open>N\<close>,
  \<^verbatim>\<open>get_top_movies_by_rating_breakdown\<close> returns the \<open>N\<close> best-scored movies grouped by
  rating, with a count for each rating. For \<open>N = 0\<close> it returns the empty dictionary
  instead, no grouping and no counts; and for \<open>N = 2 ^ 63\<close> it raises
  \<^verbatim>\<open>OverflowError\<close>, since \<open>N\<close> does not fit the parameter of \<^verbatim>\<open>LIMIT\<close>.
\<close>

theorem top_zero_counterexample:
  "movies scores_db \<noteq> [] \<and>
   get_top_movies_by_rating_breakdown 0 scores_db = Inr None \<and>
   get_top_movies_by_rating_breakdown (2 ^ 63) scores_db = Inl OverflowError"
  by (simp add: get_top_movies_by_rating_breakdown_def top_movies_def sql_limit_def scores_db_def
      bind_int_def)

text \<open>
  C6, amended. For every movies table that is not empty and every \<open>N\<close> from 1 to
  \<open>2 ^ 63 - 1\<close>, the rows selected are \<open>min N (number of movies)\<close> rows of the table, none
  of the other rows has a higher score than a selected one, and the result gives, for each
  rating among the selected rows, the summaries of the selected rows of that rating and
  their number; a rating that no selected row has is absent from both dictionaries. For
  \<open>N = 0\<close> the result is the empty dictionary. The witness is the table with scores 9.0,
  8.5, 8.5 and ratings PG, PG, R, with \<open>N = 3\<close>: the counts are PG 2 and R 1.
\<close>

theorem top_breakdown_groups_by_rating:
  assumes "movies db \<noteq> []" and "1 \<le> top_n" and "top_n < 2 ^ 63"
  shows "(\<exists>rest.
      mset (top_movies top_n db @ rest) = mset (movies_with_counts db) \<and>
      (\<forall>x\<in>set (top_movies top_n db). \<forall>y\<in>set rest.
         m_imdb_score (fst y) \<le> m_imdb_score (fst x)) \<and>
      length (top_movies top_n db) = min (nat top_n) (length (movies db)) \<and>
      get_top_movies_by_rating_breakdown top_n db =
        Inr (Some \<lparr>total_movies_in_top = length (top_movies top_n db),
                   rating_categories =
                     (\<lambda>r. if rated r (top_movies top_n db) = [] then None
                          else Some (map summary_of (rated r (top_movies top_n db)))),
                   rating_distribution =
                     (\<lambda>r. if rated r (top_movies top_n db) = [] then None
                          else Some (length (rated r (top_movies top_n db))))\<rparr>)) \<and>
    get_top_movies_by_rating_breakdown 0 db = Inr None"
proof -
  from assms have len: "length (top_movies top_n db) = min (nat top_n) (length (movies db))"
    by (simp add: length_top_movies)
  from assms have "0 < min (nat top_n) (length (movies db))" by simp
  with len have "top_movies top_n db \<noteq> []" by (metis length_greater_0_conv)
  moreover from assms have "bind_int top_n = Inr top_n" by (simp add: bind_int_def)
  ultimately have "get_top_movies_by_rating_breakdown top_n db =
        Inr (Some \<lparr>total_movies_in_top = length (top_movies top_n db),
                   rating_categories = grouped (top_movies top_n db),
                   rating_distribution = counted (top_movies top_n db)\<rparr>)"
    by (simp add: get_top_movies_by_rating_breakdown_def group_by_rating_empty)
  moreover have "get_top_movies_by_rating_breakdown 0 db = Inr None"
    by (simp add: get_top_movies_by_rating_breakdown_def top_movies_def sql_limit_def
        bind_int_def)
  ultimately show ?thesis
    using top_movies_split [of top_n db] len unfolding grouped_def counted_def by blast
qed

theorem top_breakdown_witness:
  "movies scores_db \<noteq> [] \<and> (1::int) \<le> 3 \<and> (3::int) < 2 ^ 63 \<and>
   map m_imdb_score (movies scores_db) = [Finite 9.0, Finite 8.5, Finite 8.5] \<and>
   map m_rating (movies scores_db) = [''PG'', ''PG'', ''R''] \<and>
   (\<exists>r. get_top_movies_by_rating_breakdown 3 scores_db = Inr (Some r) \<and>
        total_movies_in_top r = 3 \<and>
        rating_distribution r = [''PG'' \<mapsto> 2, ''R'' \<mapsto> 1])"
proof -
  have ne: "movies scores_db \<noteq> []" by (simp add: scores_db_def)
  have n: "(1::int) \<le> 3" by simp
  have b: "(3::int) < 2 ^ 63" by simp
  have data: "map m_imdb_score (movies scores_db) = [Finite 9.0, Finite 8.5, Finite 8.5] \<and>
      map m_rating (movies scores_db) = [''PG'', ''PG'', ''R'']"
    by (simp add: scores_db_def film_def)
  from top_breakdown_groups_by_rating [OF ne n b]
  have "get_top_movies_by_rating_breakdown 3 scores_db =
        Inr (Some \<lparr>total_movies_in_top = length (top_movies 3 scores_db),
                   rating_categories = grouped (top_movies 3 scores_db),
                   rating_distribution = counted (top_movies 3 scores_db)\<rparr>)"
    unfolding grouped_def counted_def by blast
  then have "get_top_movies_by_rating_breakdown 3 scores_db =
        Inr (Some \<lparr>total_movies_in_top = 3,
                   rating_categories = grouped (top_movies 3 scores_db),
                   rating_distribution = [''PG'' \<mapsto> 2, ''R'' \<mapsto> 1]\<rparr>)"
    unfolding counted_top3 by (simp add: top3)
  then show ?thesis using ne data by simp
qed

text \<open>
  C7. When both tables are empty every query returns an empty or zero result and none
  raises: \<^verbatim>\<open>get_longest_running_movie\<close>, \<^verbatim>\<open>get_movie_with_most_actors\<close> and
  \<^verbatim>\<open>get_top_movies_by_rating_breakdown\<close> return the empty dictionary, the two lookups return
  the empty list, and \<^verbatim>\<open>get_all_stats\<close> returns zero counts, zero averages, no rating and
  a year range of \<^verbatim>\<open>None\<close>. The arguments are those that the store takes as parameters:
  a number of movies that fits 64 bits, and search texts of at most 1,000,000,000 bytes
  with the two \<^verbatim>\<open>%\<close> that the director lookup adds.
\<close>

theorem empty_tables_queries:
  "get_longest_running_movie empty_tables = None \<and>
   get_movie_with_most_actors empty_tables = None \<and>
   (\<forall>top_n. - (2 ^ 63) \<le> top_n \<and> top_n < 2 ^ 63 \<longrightarrow>
      get_top_movies_by_rating_breakdown top_n empty_tables = Inr None) \<and>
   get_all_stats empty_tables =
     \<lparr>total_movies = 0, total_actors = 0, average_runtime = Finite 0,
      average_imdb_score = Finite 0, stats_rating_distribution = Map.empty,
      year_range_min = None, year_range_max = None\<rparr> \<and>
   (\<forall>director. utf8_length director \<le> 999999998 \<longrightarrow>
      query_movies_by_director director empty_tables = Inr []) \<and>
   (\<forall>rating. utf8_length rating \<le> 1000000000 \<longrightarrow>
      query_movies_by_rating rating empty_tables = Inr [])"
proof (intro conjI allI impI)
  show "get_longest_running_movie empty_tables = None"
    by (simp add: get_longest_running_movie_def movies_with_counts_def empty_tables_def
        sql_limit_def)
  show "get_movie_with_most_actors empty_tables = None"
    by (simp add: get_movie_with_most_actors_def movies_with_counts_def empty_tables_def
        sql_limit_def)
  show "get_top_movies_by_rating_breakdown top_n empty_tables = Inr None"
    if "- (2 ^ 63) \<le> top_n \<and> top_n < 2 ^ 63" for top_n
    using that
    by (simp add: get_top_movies_by_rating_breakdown_def bind_int_def top_movies_def
        movies_with_counts_def empty_tables_def sql_limit_def)
  show "get_all_stats empty_tables =
     \<lparr>total_movies = 0, total_actors = 0, average_runtime = Finite 0,
      average_imdb_score = Finite 0, stats_rating_distribution = Map.empty,
      year_range_min = None, year_range_max = None\<rparr>"
    by (simp add: get_all_stats_def empty_tables_def sql_avg_def sql_min_def sql_max_def
        rounded_or_zero_def rating_counts_def)
  show "query_movies_by_director director empty_tables = Inr []"
    if "utf8_length director \<le> 999999998" for director
    using that by (rule query_movies_by_director_empty)
  show "query_movies_by_rating rating empty_tables = Inr []"
    if "utf8_length rating \<le> 1000000000" for rating
    using that
    by (simp add: query_movies_by_rating_stored movies_with_counts_def empty_tables_def)
qed

theorem empty_tables_queries_witness:
  "- (2 ^ 63) \<le> (10::int) \<and> (10::int) < 2 ^ 63 \<and>
   get_top_movies_by_rating_breakdown 10 empty_tables = Inr None \<and>
   utf8_length ''Nolan'' \<le> 999999998 \<and>
   query_movies_by_director ''Nolan'' empty_tables = Inr [] \<and>
   utf8_length ''PG-13'' \<le> 1000000000 \<and>
   query_movies_by_rating ''PG-13'' empty_tables = Inr [] \<and>
   get_longest_running_movie empty_tables = None \<and>
   get_movie_with_most_actors empty_tables = None \<and>
   total_movies (get_all_stats empty_tables) = 0 \<and>
   total_actors (get_all_stats empty_tables) = 0 \<and>
   average_runtime (get_all_stats empty_tables) = Finite 0 \<and>
   average_imdb_score (get_all_stats empty_tables) = Finite 0"
proof -
  have n: "- (2 ^ 63) \<le> (10::int) \<and> (10::int) < 2 ^ 63" by simp
  have d: "utf8_length ''Nolan'' \<le> 999999998" by (simp add: utf8_length_def)
  have r: "utf8_length ''PG-13'' \<le> 1000000000" by (simp add: utf8_length_def)
  from empty_tables_queries n d r show ?thesis by simp
qed

text \<open>
  C8, as stated: for every search text, \<^verbatim>\<open>query_movies_by_director\<close> returns exactly the
  movies whose director contains it. The search text goes into a \<^verbatim>\<open>LIKE\<close> pattern as it
  is. So \<^verbatim>\<open>_\<close> in it stands for any character: searching \<^verbatim>\<open>C_r\<close> returns the movies of
  Christopher Nolan, whose name does not contain \<^verbatim>\<open>C_r\<close>, with or without regard to case.
  The pattern ends at a NUL character: searching the text of one NUL returns every movie,
  though no director holds a NUL. And a pattern of more than 50,000 bytes is refused:
  searching a text of 49,999 letters raises \<^verbatim>\<open>OperationalError\<close>.
\<close>

theorem director_wildcard_counterexample:
  "map_sum id (map (m_director \<circ> fst)) (query_movies_by_director ''C_r'' nolan_db) =
     Inr [''Christopher Nolan'', ''Christopher Nolan''] \<and>
   \<not> sublist ''C_r'' ''Christopher Nolan'' \<and>
   \<not> sublist (map ascii_lower ''C_r'') (map ascii_lower ''Christopher Nolan'') \<and>
   map_sum id (map (m_director \<circ> fst)) (query_movies_by_director [CHR 0x00] nolan_db) =
     Inr [''Christopher Nolan'', ''Ridley Scott'', ''Christopher Nolan''] \<and>
   \<not> sublist [CHR 0x00] ''Christopher Nolan'' \<and> \<not> sublist [CHR 0x00] ''Ridley Scott'' \<and>
   query_movies_by_director (replicate 49999 CHR ''x'') nolan_db = Inl OperationalError"
proof -
  have a: "map_sum id (map (m_director \<circ> fst)) (query_movies_by_director ''C_r'' nolan_db) =
     Inr [''Christopher Nolan'', ''Christopher Nolan'']"
    by (simp add: query_movies_by_director_def bind_text_def utf8_length_def sql_like_def
        c_string_def nolan_db_def movies_with_counts_def film_def ascii_lower_def
        actor_count_def less_eq_sql_real_def)
  have b: "\<not> sublist ''C_r'' ''Christopher Nolan'' \<and>
      \<not> sublist (map ascii_lower ''C_r'') (map ascii_lower ''Christopher Nolan'')"
    by (simp add: ascii_lower_def sublist_Cons_right)
  have c: "map_sum id (map (m_director \<circ> fst)) (query_movies_by_director [CHR 0x00] nolan_db) =
     Inr [''Christopher Nolan'', ''Ridley Scott'', ''Christopher Nolan'']"
    by (simp add: query_movies_by_director_def bind_text_def utf8_length_def sql_like_def
        c_string_def nolan_db_def movies_with_counts_def film_def ascii_lower_def
        actor_count_def less_eq_sql_real_def)
  have d: "\<not> sublist [CHR 0x00] ''Christopher Nolan'' \<and> \<not> sublist [CHR 0x00] ''Ridley Scott''"
    by (simp add: sublist_Cons_right)
  have len: "utf8_length (''%'' @ replicate 49999 CHR ''x'' @ ''%'') = 50001"
    unfolding utf8_length_pattern utf8_length_replicate by simp
  then have bound: "bind_text (''%'' @ replicate 49999 CHR ''x'' @ ''%'') =
      Inr (''%'' @ replicate 49999 CHR ''x'' @ ''%'')"
    unfolding bind_text_def by simp
  from len have "sql_like (''%'' @ replicate 49999 CHR ''x'' @ ''%'') t = Inl OperationalError" for t
    unfolding sql_like_def by simp
  then have e: "query_movies_by_director (replicate 49999 CHR ''x'') nolan_db = Inl OperationalError"
    unfolding query_movies_by_director_def bound
    by (simp add: nolan_db_def movies_with_counts_def)
  from a b c d e show ?thesis by blast
qed

text \<open>
  C8, amended. For every stored set of movies and every search text of at most 49,998
  bytes without \<^verbatim>\<open>%\<close>, \<^verbatim>\<open>_\<close> and NUL, \<^verbatim>\<open>query_movies_by_director\<close> returns exactly the
  movies whose director (read up to its first NUL, should it hold one) contains the search
  text, ASCII letters compared without regard to case (so \<^verbatim>\<open>nolan\<close> matches Christopher
  Nolan); for every value of at most 1,000,000,000 bytes \<^verbatim>\<open>query_movies_by_rating\<close>
  returns exactly the movies whose rating equals the value; each movie is returned once,
  and both lists are in descending order of score.
\<close>

theorem lookups_exact_and_descending:
  assumes "CHR ''%'' \<notin> set director" and "CHR ''_'' \<notin> set director"
    and "CHR 0x00 \<notin> set director" and "utf8_length director \<le> 49998"
    and "utf8_length rating \<le> 1000000000"
  shows "\<exists>found listed.
    query_movies_by_director director db = Inr found \<and>
    mset (map fst found) =
      mset (filter (\<lambda>m. sublist (map ascii_lower director)
                          (map ascii_lower (c_string (m_director m)))) (movies db)) \<and>
    sorted_wrt (\<lambda>x y. m_imdb_score (fst y) \<le> m_imdb_score (fst x)) found \<and>
    query_movies_by_rating rating db = Inr listed \<and>
    mset (map fst listed) = mset (filter (\<lambda>m. m_rating m = rating) (movies db)) \<and>
    sorted_wrt (\<lambda>x y. m_imdb_score (fst y) \<le> m_imdb_score (fst x)) listed"
proof (intro exI conjI)
  show "query_movies_by_director director db =
      Inr (order_by_desc (\<lambda>(m, n). m_imdb_score m)
        (filter (\<lambda>(m, n). sublist (map ascii_lower director)
                             (map ascii_lower (c_string (m_director m))))
           (movies_with_counts db)))"
    using assms(1-4) by (rule query_movies_by_director_plain)
  show "query_movies_by_rating rating db =
      Inr (order_by_desc (\<lambda>(m, n). m_imdb_score m)
        (filter (\<lambda>(m, n). m_rating m = rating) (movies_with_counts db)))"
    using assms(5) by (rule query_movies_by_rating_stored)
  show "mset (map fst (order_by_desc (\<lambda>(m, n). m_imdb_score m)
        (filter (\<lambda>(m, n). sublist (map ascii_lower director)
                             (map ascii_lower (c_string (m_director m))))
           (movies_with_counts db)))) =
      mset (filter (\<lambda>m. sublist (map ascii_lower director)
                          (map ascii_lower (c_string (m_director m)))) (movies db))"
    by (rule movies_of_ordered_filter)
  show "mset (map fst (order_by_desc (\<lambda>(m, n). m_imdb_score m)
        (filter (\<lambda>(m, n). m_rating m = rating) (movies_with_counts db)))) =
      mset (filter (\<lambda>m. m_rating m = rating) (movies db))"
    by (rule movies_of_ordered_filter)
  show "sorted_wrt (\<lambda>x y. m_imdb_score (fst y) \<le> m_imdb_score (fst x))
      (order_by_desc (\<lambda>(m, n). m_imdb_score m)
        (filter (\<lambda>(m, n). sublist (map ascii_lower director)
                             (map ascii_lower (c_string (m_director m))))
           (movies_with_counts db)))"
    by (rule descending_by_score)
  show "sorted_wrt (\<lambda>x y. m_imdb_score (fst y) \<le> m_imdb_score (fst x))
      (order_by_desc (\<lambda>(m, n). m_imdb_score m)
        (filter (\<lambda>(m, n). m_rating m = rating) (movies_with_counts db)))"
    by (rule descending_by_score)
qed

theorem lookups_exact_and_descending_witness:
  "CHR ''%'' \<notin> set ''nolan'' \<and> CHR ''_'' \<notin> set ''nolan'' \<and> CHR 0x00 \<notin> set ''nolan'' \<and>
   utf8_length ''nolan'' \<le> 49998 \<and> utf8_length ''R'' \<le> 1000000000 \<and>
   (\<exists>found listed.
      query_movies_by_director ''nolan'' nolan_db = Inr found \<and>
      mset (map fst found) =
        mset (filter (\<lambda>m. sublist (map ascii_lower ''nolan'')
                            (map ascii_lower (c_string (m_director m)))) (movies nolan_db)) \<and>
      sorted_wrt (\<lambda>x y. m_imdb_score (fst y) \<le> m_imdb_score (fst x)) found \<and>
      query_movies_by_rating ''R'' nolan_db = Inr listed \<and>
      mset (map fst listed) = mset (filter (\<lambda>m. m_rating m = ''R'') (movies nolan_db)) \<and>
      sorted_wrt (\<lambda>x y. m_imdb_score (fst y) \<le> m_imdb_score (fst x)) listed) \<and>
   map_sum id (map (m_title \<circ> fst)) (query_movies_by_director ''nolan'' nolan_db) =
     Inr [''Inception'', ''Dunkirk''] \<and>
   map_sum id (map (m_title \<circ> fst)) (query_movies_by_rating ''R'' nolan_db) = Inr [''Alien'']"
proof -
  have h: "CHR ''%'' \<notin> set ''nolan''" "CHR ''_'' \<notin> set ''nolan''" "CHR 0x00 \<notin> set ''nolan''"
    "utf8_length ''nolan'' \<le> 49998" "utf8_length ''R'' \<le> 1000000000"
    by (simp_all add: utf8_length_def)
  have "map_sum id (map (m_title \<circ> fst)) (query_movies_by_director ''nolan'' nolan_db) =
      Inr [''Inception'', ''Dunkirk'']"
    by (simp add: query_movies_by_director_def bind_text_def utf8_length_def sql_like_def
        c_string_def nolan_db_def movies_with_counts_def film_def ascii_lower_def
        actor_count_def less_eq_sql_real_def)
  moreover have "map_sum id (map (m_title \<circ> fst)) (query_movies_by_rating ''R'' nolan_db) =
      Inr [''Alien'']"
    by (simp add: query_movies_by_rating_def bind_text_def utf8_length_def nolan_db_def
        movies_with_counts_def film_def)
  ultimately show ?thesis
    using h lookups_exact_and_descending [OF h, of nolan_db] by blast
qed

text \<open>
  C9, as stated: every actor statement whose imdb_id or name is empty or holds a quote, and
  every movie statement with a quote in a text field, fails to match and is dropped without
  a trace. The actor statement with the name \<^verbatim>\<open>Bob')\<close> has a quote in its name, and its
  text \<^verbatim>\<open>INSERT INTO actors VALUES(1,1,'nm1','Bob')')\<close> matches: it begins with a complete
  statement, the pattern ends the name at the quote, and the actor \<^verbatim>\<open>Bob\<close> is stored and
  counted. And the statement with the name \<^verbatim>\<open>x'INSERT INTO actors VALUES(5,1,'nm5','Eve\<close>
  does not match, but a match starts inside it, at the second leading text: the scan
  extracts the actor \<^verbatim>\<open>Eve\<close> from it.
\<close>

theorem quoted_name_counterexample:
  "CHR 0x27 \<in> set (at_name trick_actor) \<and>
   actor_statement trick_actor = ''INSERT INTO actors VALUES(1,1,'nm1','Bob')')'' \<and>
   re_match actor_pattern (actor_statement trick_actor) =
     Some ([''1'', ''1'', ''nm1'', ''Bob''], [CHR 0x27, CHR '')'']) \<and>
   insert_actors
     \<lparr>actors_sql = Some (actor_statement trick_actor), movies_sql = Some [],
      storage = \<lparr>movies = [old_movie], actors = []\<rparr>, stdout = []\<rparr> =
     (None,
      \<lparr>actors_sql = Some (actor_statement trick_actor), movies_sql = Some [],
       storage = \<lparr>movies = [old_movie],
         actors = [\<lparr>a_id = 1, a_movie_id = 1, a_imdb_id = ''nm1'', a_name = ''Bob''\<rparr>]\<rparr>,
       stdout = [Inserted_actors 1]\<rparr>) \<and>
   CHR 0x27 \<in> set (at_name nested_actor) \<and>
   actor_statement nested_actor =
     ''INSERT INTO actors VALUES(1,1,'nm1','x'INSERT INTO actors VALUES(5,1,'nm5','Eve')'' \<and>
   re_match actor_pattern (actor_statement nested_actor) = None \<and>
   finditer actor_pattern (actor_statement nested_actor) = [[''5'', ''1'', ''nm5'', ''Eve'']]"
proof -
  let ?bob = "trick_actor\<lparr>at_name := ''Bob''\<rparr>"
  let ?db = "\<lparr>movies = [old_movie], actors = []\<rparr>"
  have wf: "well_formed_actor ?bob"
    by (simp add: well_formed_actor_def actor_grammar_def trick_actor_def digits1_def plain_def
        decimal_def digit_val_def int_text_def stored_texts_def utf8_length_def)
  then have g: "actor_grammar ?bob" by (simp add: well_formed_actor_def)
  have shape: "actor_statement trick_actor = actor_statement ?bob @ [CHR 0x27, CHR '')'']"
    by (simp add: actor_statement_def trick_actor_def)
  have groups: "actor_groups ?bob = [''1'', ''1'', ''nm1'', ''Bob'']"
    by (simp add: actor_groups_def trick_actor_def)
  have row: "actor_row ?bob = \<lparr>a_id = 1, a_movie_id = 1, a_imdb_id = ''nm1'', a_name = ''Bob''\<rparr>"
    by (simp add: actor_row_def trick_actor_def decimal_def digit_val_def)
  have m: "re_match actor_pattern (actor_statement trick_actor) =
      Some ([''1'', ''1'', ''nm1'', ''Bob''], [CHR 0x27, CHR '')''])"
    unfolding shape using re_match_actor_statement [OF g, of "[CHR 0x27, CHR '')'']"]
    by (simp only: groups)
  have tail: "finditer actor_pattern [CHR 0x27, CHR '')''] = []"
    using finditer_actor_sep [of "[CHR 0x27, CHR '')'']" "[]"] by (simp add: finditer_actor_end)
  have scan: "finditer actor_pattern (actor_statement trick_actor) = [actor_groups ?bob]"
    unfolding shape by (simp only: finditer_actor_statement [OF g] tail)
  have body: "insert_actor_body sqlite3_connect (actor_groups ?bob) (?db, 0, []) =
      (None, (?db\<lparr>actors := insort_key a_id (actor_row ?bob) []\<rparr>, Suc 0, []))"
    using insert_actor_body_new [OF wf, of ?db sqlite3_connect 0 "[]"]
    by (simp add: sqlite3_connect_def)
  have run: "insert_actors
     \<lparr>actors_sql = Some (actor_statement trick_actor), movies_sql = Some [],
      storage = ?db, stdout = []\<rparr> =
     (None,
      \<lparr>actors_sql = Some (actor_statement trick_actor), movies_sql = Some [],
       storage = \<lparr>movies = [old_movie],
         actors = [\<lparr>a_id = 1, a_movie_id = 1, a_imdb_id = ''nm1'', a_name = ''Bob''\<rparr>]\<rparr>,
       stdout = [Inserted_actors 1]\<rparr>)"
    by (simp add: insert_actors_def scan body row)
  have q: "CHR 0x27 \<in> set (at_name trick_actor)" by (simp add: trick_actor_def)
  have q': "CHR 0x27 \<in> set (at_name nested_actor)" by (simp add: nested_actor_def)
  have eve: "actor_groups eve_text = [''5'', ''1'', ''nm5'', ''Eve'']"
    by (simp add: actor_groups_def eve_text_def)
  from q trick_actor_text m run q' nested_actor_text nested_actor_no_match
    nested_actor_scan [unfolded eve]
  show ?thesis by blast
qed

text \<open>
  C9, amended. Take an actor statement whose imdb_id or name is empty or holds a quote, or
  a movie statement with a quote in one of its text fields. Whatever follows it, the
  statement matches its pattern exactly when its text begins with a complete statement of
  the shape the pattern asks for (one that ends at a quote inside a field, as in the first
  example above); in every other case it does not match. If it does not match and the
  leading text of the pattern does not occur a second time inside it, nothing is extracted
  from it: in a file of such statements and of matching ones, each followed by a separator,
  exactly the matching statements are extracted, and the loader ends as it does on the file
  without the unmatched statements, with the same tables, the same warnings and the same
  count. The witness holds the names \<^verbatim>\<open>Pat O'Brien\<close> and \<^verbatim>\<open>Bob' Smith\<close> and the titles
  \<^verbatim>\<open>Schindler's List\<close> and \<^verbatim>\<open>Singin' in the Rain\<close>.
\<close>

theorem unmatched_statements_dropped:
  assumes "\<forall>t\<in>set cs. actor_grammar t \<or> actor_skipped t"
    and "\<forall>t\<in>set ms. movie_grammar t \<or> movie_skipped t"
    and "CHR ''I'' \<notin> set sep"
  shows "(\<forall>t rest. actor_flawed t \<longrightarrow>
        (re_match actor_pattern (actor_statement t @ rest) = None) =
        (\<not> begins_actor_statement (actor_statement t))) \<and>
    (\<forall>t rest. movie_flawed t \<longrightarrow>
        (re_match movie_pattern (movie_statement t @ rest) = None) =
        (\<not> begins_movie_statement (movie_statement t))) \<and>
    finditer actor_pattern (actor_file sep cs) = map actor_groups (filter actor_grammar cs) \<and>
    finditer movie_pattern (movie_file sep ms) = map movie_groups (filter movie_grammar ms) \<and>
    same_outcome (insert_actors (w\<lparr>actors_sql := Some (actor_file sep cs)\<rparr>))
      (insert_actors (w\<lparr>actors_sql := Some (actor_file sep (filter actor_grammar cs))\<rparr>)) \<and>
    same_outcome (insert_movies (w\<lparr>movies_sql := Some (movie_file sep ms)\<rparr>))
      (insert_movies (w\<lparr>movies_sql := Some (movie_file sep (filter movie_grammar ms))\<rparr>))"
proof -
  have a1: "\<forall>t rest. actor_flawed t \<longrightarrow>
        (re_match actor_pattern (actor_statement t @ rest) = None) =
        (\<not> begins_actor_statement (actor_statement t))"
    using actor_flawed_match by blast
  have m1: "\<forall>t rest. movie_flawed t \<longrightarrow>
        (re_match movie_pattern (movie_statement t @ rest) = None) =
        (\<not> begins_movie_statement (movie_statement t))"
    using movie_flawed_match by blast
  have a2: "finditer actor_pattern (actor_file sep cs) = map actor_groups (filter actor_grammar cs)"
    using assms(1,3) by (rule finditer_actor_file_mixed)
  have m2: "finditer movie_pattern (movie_file sep ms) = map movie_groups (filter movie_grammar ms)"
    using assms(2,3) by (rule finditer_movie_file_mixed)
  have "finditer actor_pattern (actor_file sep (filter actor_grammar cs)) =
      map actor_groups (filter actor_grammar cs)"
    using assms(3) by (simp add: finditer_actor_file)
  with a2 have a3: "same_outcome (insert_actors (w\<lparr>actors_sql := Some (actor_file sep cs)\<rparr>))
      (insert_actors (w\<lparr>actors_sql := Some (actor_file sep (filter actor_grammar cs))\<rparr>))"
    by (simp add: same_outcome_insert_actors)
  have "finditer movie_pattern (movie_file sep (filter movie_grammar ms)) =
      map movie_groups (filter movie_grammar ms)"
    using assms(3) by (simp add: finditer_movie_file)
  with m2 have m3: "same_outcome (insert_movies (w\<lparr>movies_sql := Some (movie_file sep ms)\<rparr>))
      (insert_movies (w\<lparr>movies_sql := Some (movie_file sep (filter movie_grammar ms))\<rparr>))"
    by (simp add: same_outcome_insert_movies)
  from a1 m1 a2 m2 a3 m3 show ?thesis by blast
qed

theorem unmatched_statements_dropped_witness:
  "actor_skipped obrien_text \<and> actor_skipped smith_text \<and> actor_grammar weaver_text \<and>
   movie_skipped schindler_text \<and> movie_skipped singin_text \<and> movie_grammar alien_text \<and>
   CHR ''I'' \<notin> set '';'' \<and>
   at_name obrien_text = ''Pat O'Brien'' \<and> at_name smith_text = ''Bob' Smith'' \<and>
   mt_title schindler_text = ''Schindler's List'' \<and>
   mt_title singin_text = ''Singin' in the Rain'' \<and>
   actor_flawed obrien_text \<and> actor_flawed smith_text \<and>
   movie_flawed schindler_text \<and> movie_flawed singin_text \<and>
   re_match actor_pattern (actor_statement obrien_text @ '';'') = None \<and>
   re_match actor_pattern (actor_statement smith_text @ '';'') = None \<and>
   re_match movie_pattern (movie_statement schindler_text @ '';'') = None \<and>
   re_match movie_pattern (movie_statement singin_text @ '';'') = None \<and>
   finditer actor_pattern (actor_file '';'' [obrien_text, smith_text, weaver_text]) =
     [actor_groups weaver_text] \<and>
   finditer movie_pattern (movie_file '';'' [schindler_text, singin_text, alien_text]) =
     [movie_groups alien_text] \<and>
   same_outcome
     (insert_actors ((fresh_world [] [])\<lparr>actors_sql :=
        Some (actor_file '';'' [obrien_text, smith_text, weaver_text])\<rparr>))
     (insert_actors ((fresh_world [] [])\<lparr>actors_sql := Some (actor_file '';'' [weaver_text])\<rparr>)) \<and>
   same_outcome
     (insert_movies ((fresh_world [] [])\<lparr>movies_sql :=
        Some (movie_file '';'' [schindler_text, singin_text, alien_text])\<rparr>))
     (insert_movies ((fresh_world [] [])\<lparr>movies_sql := Some (movie_file '';'' [alien_text])\<rparr>))"
proof -
  have ga: "actor_grammar weaver_text"
    using weaver_text_wf by (simp add: well_formed_actor_def)
  have gm: "movie_grammar alien_text"
    using alien_text_wf by (simp add: well_formed_movie_def)
  have nga: "\<not> actor_grammar obrien_text" "\<not> actor_grammar smith_text"
    using obrien_flawed smith_flawed by (simp_all add: actor_flawed_not_grammar)
  have ngm: "\<not> movie_grammar schindler_text" "\<not> movie_grammar singin_text"
    using schindler_flawed singin_flawed by (simp_all add: movie_flawed_not_grammar)
  have nba: "\<not> begins_actor_statement (actor_statement obrien_text)"
    "\<not> begins_actor_statement (actor_statement smith_text)"
    using obrien_skipped smith_skipped by (simp_all add: actor_skipped_def)
  have nbm: "\<not> begins_movie_statement (movie_statement schindler_text)"
    "\<not> begins_movie_statement (movie_statement singin_text)"
    using schindler_skipped singin_skipped by (simp_all add: movie_skipped_def)
  have h1: "\<forall>t\<in>set [obrien_text, smith_text, weaver_text]. actor_grammar t \<or> actor_skipped t"
    by (simp add: ga obrien_skipped smith_skipped)
  have h2: "\<forall>t\<in>set [schindler_text, singin_text, alien_text]. movie_grammar t \<or> movie_skipped t"
    by (simp add: gm schindler_skipped singin_skipped)
  have h3: "CHR ''I'' \<notin> set '';''" by simp
  have names: "at_name obrien_text = ''Pat O'Brien''" "at_name smith_text = ''Bob' Smith''"
    "mt_title schindler_text = ''Schindler's List''"
    "mt_title singin_text = ''Singin' in the Rain''"
    by (simp_all add: obrien_text_def smith_text_def schindler_text_def singin_text_def)
  note main = unmatched_statements_dropped [OF h1 h2 h3, of "fresh_world [] []"]
  from main obrien_flawed nba(1)
  have r1: "re_match actor_pattern (actor_statement obrien_text @ '';'') = None" by blast
  from main smith_flawed nba(2)
  have r2: "re_match actor_pattern (actor_statement smith_text @ '';'') = None" by blast
  from main schindler_flawed nbm(1)
  have r3: "re_match movie_pattern (movie_statement schindler_text @ '';'') = None" by blast
  from main singin_flawed nbm(2)
  have r4: "re_match movie_pattern (movie_statement singin_text @ '';'') = None" by blast
  from main have f1: "finditer actor_pattern (actor_file '';'' [obrien_text, smith_text, weaver_text]) =
      [actor_groups weaver_text]"
    by (simp add: ga nga)
  from main have f2: "finditer movie_pattern (movie_file '';'' [schindler_text, singin_text, alien_text]) =
      [movie_groups alien_text]"
    by (simp add: gm ngm)
  from main have s1: "same_outcome
     (insert_actors ((fresh_world [] [])\<lparr>actors_sql :=
        Some (actor_file '';'' [obrien_text, smith_text, weaver_text])\<rparr>))
     (insert_actors ((fresh_world [] [])\<lparr>actors_sql := Some (actor_file '';'' [weaver_text])\<rparr>))"
    by (simp add: ga nga)
  from main have s2: "same_outcome
     (insert_movies ((fresh_world [] [])\<lparr>movies_sql :=
        Some (movie_file '';'' [schindler_text, singin_text, alien_text])\<rparr>))
     (insert_movies ((fresh_world [] [])\<lparr>movies_sql := Some (movie_file '';'' [alien_text])\<rparr>))"
    by (simp add: gm ngm)
  from ga gm obrien_skipped smith_skipped schindler_skipped singin_skipped h3 names
    obrien_flawed smith_flawed schindler_flawed singin_flawed r1 r2 r3 r4 f1 f2 s1 s2
  show ?thesis by simp
qed

text \<open>
  C10. Constructing \<^verbatim>\<open>MovieDatabaseUtility\<close> drops and recreates both tables before it
  checks that the two input files exist: when \<^verbatim>\<open>actors.sql\<close> or \<^verbatim>\<open>movies.sql\<close> is missing,
  the constructor raises \<^verbatim>\<open>FileNotFoundError\<close> and leaves the storage file with two empty
  tables, whatever rows an earlier run had stored.
\<close>

theorem init_missing_source:
  assumes "actors_sql w = None \<or> movies_sql w = None"
  shows "MovieDatabaseUtility_init w =
    (Some (FileNotFoundError (if actors_sql w = None then ''actors.sql'' else ''movies.sql'')),
     w\<lparr>storage := empty_tables, stdout := stdout w @ [Tables_created]\<rparr>)"
  using assms
  by (auto simp: MovieDatabaseUtility_init_def initialize_database_def
      parse_and_insert_sql_files_def)

theorem init_missing_source_witness:
  "movies (storage \<lparr>actors_sql = None, movies_sql = Some [],
       storage = \<lparr>movies = [old_movie], actors = []\<rparr>, stdout = []\<rparr>) \<noteq> [] \<and>
   MovieDatabaseUtility_init
     \<lparr>actors_sql = None, movies_sql = Some [],
      storage = \<lparr>movies = [old_movie], actors = []\<rparr>, stdout = []\<rparr> =
    (Some (FileNotFoundError ''actors.sql''),
     \<lparr>actors_sql = None, movies_sql = Some [],
      storage = \<lparr>movies = [], actors = []\<rparr>, stdout = [Tables_created]\<rparr>)"
  using init_missing_source [of "\<lparr>actors_sql = None, movies_sql = Some [],
      storage = \<lparr>movies = [old_movie], actors = []\<rparr>, stdout = []\<rparr>"]
  by (simp add: empty_tables_def)

end
